(* ===== verification/Prelude.thy ===== *)
theory Prelude
  imports Main "HOL-Library.Word" "HOL-Library.Sublist"
begin

text \<open>
  Shared vocabulary of the development: bytes as 8-bit words, the splitting of a
  byte sequence into bounded chunks (what a fixed-size read buffer does to a
  segment), the backlog measure that bounds the read loops, and the collections
  of rewrite rules the component theories share.
\<close>

named_theorems transport_simps "evaluation rules of the external stream and connection interface"
named_theorems task_simps "evaluation rules of the per-task step functions"

type_synonym byte = "8 word"
type_synonym bytes = "byte list"

definition bytes_of :: "string \<Rightarrow> bytes" where
  "bytes_of s = map of_char s"

text \<open>
  \<open>chunks n xs\<close> cuts \<open>xs\<close> into consecutive pieces of \<open>n\<close> elements, the last
  one possibly shorter; it is what repeated reads into an \<open>n\<close>-byte buffer make of
  one segment of incoming data.
\<close>

fun chunks :: "nat \<Rightarrow> 'a list \<Rightarrow> 'a list list" where
  "chunks n xs =
     (if xs = [] then [] else if n = 0 then [xs] else take n xs # chunks n (drop n xs))"

declare chunks.simps [simp del]

text \<open>Rust's \<open>&xs[..n]\<close>: the first \<open>n\<close> elements, or a panic (\<open>None\<close>) when
  \<open>n\<close> exceeds the length.\<close>

definition slice_to :: "'a list \<Rightarrow> nat \<Rightarrow> 'a list option" where
  "slice_to xs n = (if n \<le> length xs then Some (take n xs) else None)"

text \<open>The number of pending segments plus the number of pending bytes.\<close>

definition backlog :: "'a list list \<Rightarrow> nat" where
  "backlog ss = length ss + sum_list (map length ss)"

lemma slice_to_in_range [simp]: "n \<le> length xs \<Longrightarrow> slice_to xs n = Some (take n xs)"
  by (simp add: slice_to_def)

lemma slice_to_None_iff: "slice_to xs n = None \<longleftrightarrow> length xs < n"
  by (simp add: slice_to_def)

lemma chunks_Nil [simp]: "chunks n [] = []"
  by (simp add: chunks.simps)

lemma chunks_short:
  "0 < n \<Longrightarrow> xs \<noteq> [] \<Longrightarrow> length xs \<le> n \<Longrightarrow> chunks n xs = [xs]"
  by (simp add: chunks.simps)

lemma chunks_long:
  "0 < n \<Longrightarrow> n < length xs \<Longrightarrow> chunks n xs = take n xs # chunks n (drop n xs)"
  by (subst chunks.simps) auto

lemma concat_chunks [simp]: "concat (chunks n xs) = xs"
proof (induction n xs rule: chunks.induct)
  case (1 n xs)
  then show ?case
    by (subst chunks.simps) (auto simp del: append_take_drop_id simp: append_take_drop_id [of n xs])
qed

lemma concat_map_chunks [simp]: "concat (concat (map (chunks n) xss)) = concat xss"
  by (induction xss) simp_all

lemma chunks_bounded:
  "c \<in> set (chunks n xs) \<Longrightarrow> c \<noteq> [] \<and> (0 < n \<longrightarrow> length c \<le> n)"
proof (induction n xs rule: chunks.induct)
  case (1 n xs)
  then show ?case
    by (subst (asm) chunks.simps) (auto split: if_splits)
qed

lemma backlog_Nil [simp]: "backlog [] = 0"
  by (simp add: backlog_def)

lemma backlog_Cons [simp]: "backlog (s # ss) = Suc (length s + backlog ss)"
  by (simp add: backlog_def)

lemma length_bytes_of [simp]: "length (bytes_of s) = length s"
  by (simp add: bytes_of_def)

text \<open>Prefix facts used for the append-only logs of the tasks.\<close>

lemma prefix_append_right [intro]: "prefix xs ys \<Longrightarrow> prefix xs (ys @ zs)"
  by (metis prefix_append)


text \<open>Updating one element of a list changes the sum of a measure over it by the
  difference of the two values.\<close>

lemma sum_list_map_update:
  "i < length xs \<Longrightarrow> sum_list (map (f :: 'a \<Rightarrow> nat) (xs[i := y])) + f (xs ! i) = sum_list (map f xs) + f y"
proof (induction xs arbitrary: i)
  case (Cons x xs)
  then show ?case by (cases i) (simp_all add: add_ac)
qed simp


lemma sum_list_map_Suc: "sum_list (map (\<lambda>x. Suc (f x)) xs) = length xs + sum_list (map f xs)"
  by (induction xs) simp_all

end
