(* ===== verification/Transport.thy ===== *)
theory Transport
  imports Prelude
begin

text \<open>
  The external QUIC collaborators the servers and clients call (spec section 6;
  the \<open>quinn\<close> crate): one direction of a stream to read from
  (\<open>RecvStream::read\<close>), one to write to (\<open>SendStream::write_all\<close>,
  \<open>SendStream::finish\<close>), and an established connection that hands out the
  bidirectional streams its peer opens (\<open>Connection::accept_bi\<close>).
  They are not code of this repository. They are modelled as the data the peer and
  the transport will produce: the segments the transport delivers and how the
  peer ends its direction, the byte count after which the peer stops accepting
  data, and the streams the peer opens before the connection closes. Any peer
  behaviour is one value of these types, so a theorem over all of them holds for
  every peer.
\<close>

subsection \<open>Errors of the transport\<close>

text \<open>\<open>quinn::ConnectionError\<close>, \<open>ReadError\<close>, \<open>WriteError\<close> and \<open>ClosedStream\<close>.\<close>

datatype conn_error =
    VersionMismatch
  | TransportError nat
  | ConnectionClosed nat
  | ApplicationClosed nat
  | ConnReset
  | TimedOut
  | LocallyClosed
  | CidsExhausted

datatype read_error =
    ReadReset nat
  | ReadConnLost conn_error
  | ReadClosedStream
  | ReadIllegalOrdered
  | ReadZeroRttRejected

datatype write_error =
    WriteStopped nat
  | WriteConnLost conn_error
  | WriteClosedStream
  | WriteZeroRttRejected

datatype finish_error = FinishClosedStream

subsection \<open>The receive half\<close>

text \<open>
  How the peer ends its sending direction: a FIN (\<open>read\<close> then returns
  \<open>Ok(None)\<close>) or an abort (a reset, a lost connection: \<open>read\<close> returns that
  error).
\<close>

datatype recv_end = PeerFin | PeerAbort read_error

record recv_stream =
  rs_segments :: "bytes list"
  rs_end :: recv_end

text \<open>
  \<open>RecvStream::read(&mut buf)\<close>: copies up to \<open>buf.len()\<close> bytes of the next
  segment into the front of the buffer, leaves the rest of the buffer as it was,
  and returns the count; at the end of the data it returns \<open>None\<close> after a FIN and
  the error after an abort. The transport's segmentation is arbitrary, so any
  sequence of read sizes is the result of some segmentation.
\<close>

definition recv_read :: "bytes \<Rightarrow> recv_stream \<Rightarrow> (read_error + nat option) \<times> bytes \<times> recv_stream" where
  "recv_read buf rs =
     (case rs_segments rs of
        [] \<Rightarrow> (case rs_end rs of
                 PeerFin \<Rightarrow> (Inr None, buf, rs)
               | PeerAbort e \<Rightarrow> (Inl e, buf, rs))
      | seg # rest \<Rightarrow>
          (let n = min (length buf) (length seg)
           in (Inr (Some n), take n seg @ drop n buf,
               rs\<lparr>rs_segments := (if n < length seg then drop n seg # rest else rest)\<rparr>)))"

text \<open>The transport never delivers an empty segment.\<close>

definition recv_wf :: "recv_stream \<Rightarrow> bool" where
  "recv_wf rs \<longleftrightarrow> (\<forall>s \<in> set (rs_segments rs). s \<noteq> [])"

text \<open>The chunks that successive reads into a buffer of \<open>cap\<close> bytes return.\<close>

definition read_chunks :: "nat \<Rightarrow> recv_stream \<Rightarrow> bytes list" where
  "read_chunks cap rs = concat (map (chunks cap) (rs_segments rs))"

subsection \<open>The send half\<close>

text \<open>
  \<open>ss_writes\<close> holds, per completed \<open>write_all\<close> call, the bytes the transport
  accepted; \<open>ss_fail = Some (k, e)\<close> says that once \<open>k\<close> bytes have been sent the
  stream fails with \<open>e\<close> (the peer's STOP_SENDING, or the connection being lost).
\<close>

record send_stream =
  ss_writes :: "bytes list"
  ss_finished :: bool
  ss_fail :: "(nat \<times> write_error) option"

definition sent_bytes :: "send_stream \<Rightarrow> bytes" where
  "sent_bytes ss = concat (ss_writes ss)"

text \<open>
  \<open>SendStream::write_all\<close>: an empty buffer completes at once; after \<open>finish\<close>
  the stream is closed; otherwise the bytes are accepted up to the failure point,
  where the call fails with the bytes before it already sent.
\<close>

definition send_write_all :: "bytes \<Rightarrow> send_stream \<Rightarrow> (write_error + unit) \<times> send_stream" where
  "send_write_all data ss =
     (if data = [] then (Inr (), ss)
      else if ss_finished ss then (Inl WriteClosedStream, ss)
      else case ss_fail ss of
        None \<Rightarrow> (Inr (), ss\<lparr>ss_writes := ss_writes ss @ [data]\<rparr>)
      | Some (k, e) \<Rightarrow>
          (let room = k - length (sent_bytes ss)
           in if length data \<le> room then (Inr (), ss\<lparr>ss_writes := ss_writes ss @ [data]\<rparr>)
              else (Inl e, ss\<lparr>ss_writes := ss_writes ss @ [take room data]\<rparr>)))"

text \<open>
  \<open>SendStream::finish\<close> (quinn 0.11): one-shot; a second call fails with
  \<open>ClosedStream\<close> and changes nothing. A stream the peer stopped still finishes.
\<close>

definition send_finish :: "send_stream \<Rightarrow> (finish_error + unit) \<times> send_stream" where
  "send_finish ss =
     (if ss_finished ss then (Inl FinishClosedStream, ss) else (Inr (), ss\<lparr>ss_finished := True\<rparr>))"

text \<open>A fresh stream with a peer that accepts everything.\<close>

definition healthy_send :: "send_stream \<Rightarrow> bool" where
  "healthy_send ss \<longleftrightarrow> \<not> ss_finished ss \<and> ss_fail ss = None"

text \<open>Concrete peers for the examples: a fresh send half, and a peer that sends the
  given segments and then ends its direction.\<close>

definition fresh_send :: send_stream where
  "fresh_send = \<lparr>ss_writes = [], ss_finished = False, ss_fail = None\<rparr>"

definition peer_sends :: "string list \<Rightarrow> recv_end \<Rightarrow> recv_stream" where
  "peer_sends segs e = \<lparr>rs_segments = map bytes_of segs, rs_end = e\<rparr>"

subsection \<open>Connections\<close>

text \<open>
  An established \<open>quinn::Connection\<close>: the peer's address, the bidirectional
  streams the peer opens, in the order \<open>accept_bi\<close> yields them (each as the
  server's \<open>(SendStream, RecvStream)\<close> pair), and the error \<open>accept_bi\<close> returns
  once there are no more (the peer closing, a timeout).
  An incoming attempt (\<open>quinn::Incoming\<close>) is the outcome of its handshake.
\<close>

record quic_conn =
  qc_remote :: nat
  qc_streams :: "(send_stream \<times> recv_stream) list"
  qc_close :: conn_error

type_synonym incoming = "conn_error + quic_conn"

definition accept_bi :: "quic_conn \<Rightarrow> (conn_error + send_stream \<times> recv_stream) \<times> quic_conn" where
  "accept_bi c =
     (case qc_streams c of
        [] \<Rightarrow> (Inl (qc_close c), c)
      | st # rest \<Rightarrow> (Inr st, c\<lparr>qc_streams := rest\<rparr>))"

subsection \<open>Facts about the interface\<close>

lemma concat_read_chunks [simp]: "concat (read_chunks n rs) = concat (rs_segments rs)"
  by (simp add: read_chunks_def)

lemma read_chunks_bounded:
  "c \<in> set (read_chunks n rs) \<Longrightarrow> c \<noteq> [] \<and> (0 < n \<longrightarrow> length c \<le> n)"
  by (auto simp: read_chunks_def dest: chunks_bounded)

lemma sent_bytes_writes [simp]:
  "sent_bytes (ss\<lparr>ss_writes := ws\<rparr>) = concat ws"
  "sent_bytes (ss\<lparr>ss_finished := b\<rparr>) = sent_bytes ss"
  by (simp_all add: sent_bytes_def)

lemma recv_read_length [transport_simps]:
  "recv_read buf rs = (r, buf', rs') \<Longrightarrow> length buf' = length buf"
  by (auto simp: recv_read_def Let_def split: list.splits recv_end.splits)

lemma recv_read_end [transport_simps]:
  "recv_read buf rs = (r, buf', rs') \<Longrightarrow> rs_end rs' = rs_end rs"
  by (auto simp: recv_read_def Let_def split: list.splits recv_end.splits)

lemma recv_read_None_iff:
  "(\<exists>buf' rs'. recv_read buf rs = (Inr None, buf', rs')) \<longleftrightarrow>
   rs_segments rs = [] \<and> rs_end rs = PeerFin"
  by (auto simp: recv_read_def Let_def split: list.splits recv_end.splits)

lemma recv_read_Inl_iff:
  "(\<exists>buf' rs'. recv_read buf rs = (Inl e, buf', rs')) \<longleftrightarrow>
   rs_segments rs = [] \<and> rs_end rs = PeerAbort e"
  by (auto simp: recv_read_def Let_def split: list.splits recv_end.splits)

lemma recv_read_Some_bound:
  "recv_read buf rs = (Inr (Some n), buf', rs') \<Longrightarrow> n \<le> length buf"
  by (auto simp: recv_read_def Let_def split: list.splits recv_end.splits)

text \<open>With a non-empty buffer every successful read shrinks the backlog.\<close>

lemma recv_read_progress:
  assumes "0 < length buf" and "recv_read buf rs = (Inr (Some n), buf', rs')"
  shows "backlog (rs_segments rs') < backlog (rs_segments rs)"
  using assms
  by (cases buf) (auto simp: recv_read_def Let_def split: list.splits recv_end.splits if_splits)

text \<open>
  What one read returns, followed by what the later reads will return, is what
  the reads would have returned from the start: the read chunks are consumed in
  order, nothing is lost, duplicated or reordered.
\<close>

lemma recv_read_chunks:
  assumes "0 < length buf" and "recv_read buf rs = (Inr (Some n), buf', rs')"
  shows "(if n = 0 then [] else [take n buf']) @ read_chunks (length buf) rs' =
         read_chunks (length buf) rs"
proof -
  obtain seg rest where segs: "rs_segments rs = seg # rest"
    using assms(2) by (auto simp: recv_read_def split: list.splits recv_end.splits)
  let ?L = "length buf"
  have n: "n = min ?L (length seg)"
    using assms(2) segs by (simp add: recv_read_def Let_def)
  have buf': "take n buf' = take n seg"
    using assms(2) segs n by (auto simp: recv_read_def Let_def)
  show ?thesis
  proof (cases "?L < length seg")
    case True
    then have "rs_segments rs' = drop ?L seg # rest"
      using assms(2) segs by (auto simp: recv_read_def Let_def)
    with True assms(1) n buf' segs show ?thesis
      by (simp add: read_chunks_def chunks_long)
  next
    case False
    then have "rs_segments rs' = rest" and "n = length seg"
      using assms(2) segs n by (auto simp: recv_read_def Let_def)
    with False assms(1) buf' segs show ?thesis
      by (cases "seg = []") (simp_all add: read_chunks_def chunks_short)
  qed
qed

lemma recv_read_wf:
  "recv_wf rs \<Longrightarrow> recv_read buf rs = (r, buf', rs') \<Longrightarrow> recv_wf rs'"
  by (auto simp: recv_wf_def recv_read_def Let_def split: list.splits recv_end.splits if_splits)

lemma recv_read_Some_pos:
  "recv_wf rs \<Longrightarrow> 0 < length buf \<Longrightarrow> recv_read buf rs = (Inr (Some n), buf', rs') \<Longrightarrow> 0 < n"
  by (auto simp: recv_wf_def recv_read_def Let_def split: list.splits recv_end.splits)

lemma send_write_all_Nil [simp]: "send_write_all [] ss = (Inr (), ss)"
  by (simp add: send_write_all_def)

lemma send_write_all_healthy [transport_simps]:
  "healthy_send ss \<Longrightarrow>
   send_write_all data ss = (Inr (), ss\<lparr>ss_writes := ss_writes ss @ (if data = [] then [] else [data])\<rparr>)"
  by (simp add: send_write_all_def healthy_send_def)

lemma send_write_all_keeps_healthy:
  "healthy_send ss \<Longrightarrow> send_write_all data ss = (r, ss') \<Longrightarrow> healthy_send ss'"
  by (auto simp: send_write_all_healthy healthy_send_def)

lemma send_write_all_finished:
  "send_write_all data ss = (r, ss') \<Longrightarrow> ss_finished ss' = ss_finished ss"
  by (auto simp: send_write_all_def Let_def split: if_splits option.splits)

lemma send_write_all_prefix:
  "send_write_all data ss = (r, ss') \<Longrightarrow>
   \<exists>w. ss_writes ss' = ss_writes ss @ w \<and> (\<forall>x \<in> set w. length x \<le> length data)"
  by (auto simp: send_write_all_def Let_def split: if_splits option.splits)

lemma send_write_all_other:
  "send_write_all data ss = (r, ss') \<Longrightarrow> ss_fail ss' = ss_fail ss"
  by (auto simp: send_write_all_def Let_def split: if_splits option.splits)

text \<open>
  Against a failure budget: a write that fits is accepted whole; one that does not
  fails with the bytes up to the failure point sent.
\<close>

lemma send_write_all_budget:
  assumes "\<not> ss_finished ss" and "ss_fail ss = Some (k, e)" and "data \<noteq> []"
  shows "send_write_all data ss =
    (if length (sent_bytes ss) + length data \<le> k then (Inr (), ss\<lparr>ss_writes := ss_writes ss @ [data]\<rparr>)
     else (Inl e, ss\<lparr>ss_writes := ss_writes ss @ [take (k - length (sent_bytes ss)) data]\<rparr>))"
  using assms by (cases data) (auto simp: send_write_all_def Let_def)

lemma send_finish_once:
  "send_finish ss = (Inr (), ss') \<Longrightarrow> \<not> ss_finished ss \<and> ss' = ss\<lparr>ss_finished := True\<rparr>"
  by (auto simp: send_finish_def split: if_splits)

lemma send_finish_twice [transport_simps]:
  "ss_finished ss \<Longrightarrow> send_finish ss = (Inl FinishClosedStream, ss)"
  by (simp add: send_finish_def)

lemma send_finish_fresh [transport_simps]:
  "\<not> ss_finished ss \<Longrightarrow> send_finish ss = (Inr (), ss\<lparr>ss_finished := True\<rparr>)"
  by (simp add: send_finish_def)

lemma send_write_all_after_finish [transport_simps]:
  "ss_finished ss \<Longrightarrow> data \<noteq> [] \<Longrightarrow> send_write_all data ss = (Inl WriteClosedStream, ss)"
  by (simp add: send_write_all_def)

end
