(* ===== verification/Tls.thy ===== *)
theory Tls
  imports Transport
begin

text \<open>
  The part of TLS 1.3 (rustls, inside quinn) that the clients and servers of the
  repository configure: certificates, signatures, the client's certificate
  verifier (the trait \<open>ServerCertVerifier\<close>) and the client side of the
  handshake that consults it. Not repository code: modelled from rustls's
  documented behaviour, so that \<open>NoVerify\<close> (theory \<open>QuicClient\<close>) and the
  servers' self-signed certificate (theory \<open>ServerConfig\<close>) can be judged.
\<close>

subsection \<open>Certificates and verifiers\<close>

datatype sig_scheme = RSA_PKCS1_SHA256 | ECDSA_NISTP256_SHA256 | ED25519 | OtherScheme nat

text \<open>A certificate: the names it is issued for and whether it chains to a trusted
  root; a signature: its scheme and whether it verifies under the certificate's key.\<close>

record certificate =
  cert_names :: "string list"
  cert_trusted :: bool

record dss =
  dss_scheme :: sig_scheme
  dss_valid :: bool

datatype tls_error = InvalidCertificate | BadSignature

text \<open>\<open>rustls::client::danger::ServerCertVerifier\<close>: its four methods.\<close>

record cert_verifier =
  verify_server_cert :: "certificate \<Rightarrow> string \<Rightarrow> tls_error + unit"
  verify_tls12_signature :: "bytes \<Rightarrow> certificate \<Rightarrow> dss \<Rightarrow> tls_error + unit"
  verify_tls13_signature :: "bytes \<Rightarrow> certificate \<Rightarrow> dss \<Rightarrow> tls_error + unit"
  supported_verify_schemes :: "sig_scheme list"

text \<open>The verifier a client would get from \<open>with_root_certificates\<close> (webpki):
  the certificate must chain to a root and name the server; the signature must
  verify. Not repository code: the contrast for what \<open>NoVerify\<close> gives up.\<close>

definition webpki_verifier :: cert_verifier where
  "webpki_verifier =
     \<lparr>verify_server_cert = (\<lambda>c name. if cert_trusted c \<and> name \<in> set (cert_names c) then Inr () else Inl InvalidCertificate),
      verify_tls12_signature = (\<lambda>_ _ d. if dss_valid d then Inr () else Inl BadSignature),
      verify_tls13_signature = (\<lambda>_ _ d. if dss_valid d then Inr () else Inl BadSignature),
      supported_verify_schemes = [RSA_PKCS1_SHA256, ECDSA_NISTP256_SHA256, ED25519]\<rparr>"

text \<open>What the server presents in the TLS 1.3 handshake: its certificate and the
  CertificateVerify signature over the transcript.\<close>

record server_hello =
  sh_cert :: certificate
  sh_transcript :: bytes
  sh_sig :: dss

text \<open>The client side of the handshake (rustls in quinn): a signature scheme the
  verifier does not offer ends it with the alert handshake_failure, a rejected
  certificate with bad_certificate, a rejected signature with decrypt_error; quinn
  reports an alert \<open>a\<close> as the transport error \<open>0x100 + a\<close>.\<close>

definition tls13_handshake :: "cert_verifier \<Rightarrow> string \<Rightarrow> server_hello \<Rightarrow> conn_error + unit" where
  "tls13_handshake v name h =
     (if dss_scheme (sh_sig h) \<notin> set (supported_verify_schemes v) then Inl (TransportError (256 + 40))
      else case verify_server_cert v (sh_cert h) name of
        Inl _ \<Rightarrow> Inl (TransportError (256 + 42))
      | Inr _ \<Rightarrow> (case verify_tls13_signature v (sh_transcript h) (sh_cert h) (sh_sig h) of
          Inl _ \<Rightarrow> Inl (TransportError (256 + 51))
        | Inr _ \<Rightarrow> Inr ()))"

end
