(* ===== verification/Echo.thy ===== *)
theory Echo
  imports Transport
begin

text \<open>
  The echo protocol of one stream, \<open>echo_stream\<close> in
  \<open>src/bin/servers/quic_server.rs\<close>: a 4096-byte buffer, a loop that reads
  into it and writes back the bytes read, a \<open>finish\<close> of the send half once the
  peer's FIN ends the loop, and \<open>?\<close> on every call, so that the first error
  ends the function. The loop is a \<open>partial_function (option)\<close>: with an empty
  buffer it would spin without reading anything, so its termination is a theorem
  (every result is \<open>Some\<close>), not an assumption.
  \<open>echo_ref\<close> is the reference behaviour, without a buffer: write the chunks the
  reads return, in order, then finish. The main result is that the buffered loop
  computes exactly the reference, from which the round trip, the bounds on each
  write, the error paths and the one-shot finish follow.
\<close>

definition echo_buf_size :: nat where
  "echo_buf_size = 4096"

text \<open>\<open>Box<dyn Error>\<close> as the function returns it: which call failed, and how;
  and \<open>EchoPanic\<close>, the panic of \<open>&buf[..n]\<close> when \<open>n\<close> exceeds the buffer,
  which unwinds the task instead of returning.\<close>

datatype echo_error =
    EchoRead read_error
  | EchoWrite write_error
  | EchoFinish finish_error
  | EchoPanic

partial_function (option) echo_loop ::
  "bytes \<Rightarrow> send_stream \<Rightarrow> recv_stream \<Rightarrow>
   ((echo_error + unit) \<times> bytes \<times> send_stream \<times> recv_stream) option" where
  "echo_loop buf send recv =
     (case recv_read buf recv of
        (Inl e, buf', recv') \<Rightarrow> Some (Inl (EchoRead e), buf', send, recv')
      | (Inr None, buf', recv') \<Rightarrow> Some (Inr (), buf', send, recv')
      | (Inr (Some n), buf', recv') \<Rightarrow>
          (case slice_to buf' n of
             None \<Rightarrow> Some (Inl EchoPanic, buf', send, recv')
           | Some data \<Rightarrow>
               (case send_write_all data send of
                  (Inl e, send') \<Rightarrow> Some (Inl (EchoWrite e), buf', send', recv')
                | (Inr _, send') \<Rightarrow> echo_loop buf' send' recv')))"

text \<open>What follows the loop: an error of the loop is returned (\<open>?\<close>); after the
  FIN, \<open>send.finish()?\<close> and \<open>Ok(())\<close>.\<close>

definition echo_after_loop ::
  "((echo_error + unit) \<times> bytes \<times> send_stream \<times> recv_stream) option \<Rightarrow>
   ((echo_error + unit) \<times> send_stream \<times> recv_stream) option" where
  "echo_after_loop res =
     (case res of
        None \<Rightarrow> None
      | Some (Inl e, _, send', recv') \<Rightarrow> Some (Inl e, send', recv')
      | Some (Inr _, _, send', recv') \<Rightarrow>
          (case send_finish send' of
             (Inl e, send'') \<Rightarrow> Some (Inl (EchoFinish e), send'', recv')
           | (Inr _, send'') \<Rightarrow> Some (Inr (), send'', recv')))"

definition echo_stream ::
  "send_stream \<Rightarrow> recv_stream \<Rightarrow> ((echo_error + unit) \<times> send_stream \<times> recv_stream) option" where
  "echo_stream send recv = echo_after_loop (echo_loop (replicate echo_buf_size 0) send recv)"

subsection \<open>The reference behaviour\<close>

text \<open>
  Write each chunk in turn, stopping at the first failed write; at the end of the
  chunks, stop with the peer's abort, or finish after its FIN.
\<close>

fun echo_ref_loop :: "bytes list \<Rightarrow> recv_end \<Rightarrow> send_stream \<Rightarrow> (echo_error + unit) \<times> send_stream" where
  "echo_ref_loop [] PeerFin ss = (Inr (), ss)"
| "echo_ref_loop [] (PeerAbort e) ss = (Inl (EchoRead e), ss)"
| "echo_ref_loop (c # cs) fin ss =
     (case send_write_all c ss of
        (Inl e, ss') \<Rightarrow> (Inl (EchoWrite e), ss')
      | (Inr _, ss') \<Rightarrow> echo_ref_loop cs fin ss')"

definition echo_ref :: "recv_stream \<Rightarrow> send_stream \<Rightarrow> (echo_error + unit) \<times> send_stream" where
  "echo_ref recv send =
     (case echo_ref_loop (read_chunks echo_buf_size recv) (rs_end recv) send of
        (Inl e, ss) \<Rightarrow> (Inl e, ss)
      | (Inr _, ss) \<Rightarrow>
          (case send_finish ss of
             (Inl e, ss') \<Rightarrow> (Inl (EchoFinish e), ss')
           | (Inr _, ss') \<Rightarrow> (Inr (), ss')))"

subsection \<open>The buffered loop computes the reference\<close>

lemma echo_loop_ref:
  assumes "0 < length buf"
  shows "\<exists>buf' recv'. echo_loop buf send recv =
           Some (fst (echo_ref_loop (read_chunks (length buf) recv) (rs_end recv) send), buf',
                 snd (echo_ref_loop (read_chunks (length buf) recv) (rs_end recv) send), recv')"
  using assms
proof (induction "backlog (rs_segments recv)" arbitrary: buf send recv rule: less_induct)
  case less
  obtain r buf' recv' where rd: "recv_read buf recv = (r, buf', recv')"
    by (cases "recv_read buf recv") auto
  have len: "length buf' = length buf" and fin: "rs_end recv' = rs_end recv"
    using rd by (simp_all add: recv_read_length recv_read_end)
  show ?case
  proof (cases r)
    case (Inl e)
    then have "rs_segments recv = []" "rs_end recv = PeerAbort e"
      using rd recv_read_Inl_iff by blast+
    with rd Inl show ?thesis
      by (simp add: echo_loop.simps read_chunks_def)
  next
    case (Inr x)
    show ?thesis
    proof (cases x)
      case None
      then have "rs_segments recv = []" "rs_end recv = PeerFin"
        using rd Inr recv_read_None_iff by blast+
      with rd Inr None show ?thesis
        by (simp add: echo_loop.simps read_chunks_def)
    next
      case (Some n)
      with rd Inr have rdn: "recv_read buf recv = (Inr (Some n), buf', recv')" by simp
      have nb: "n \<le> length buf'" using recv_read_Some_bound [OF rdn] len by simp
      have chunks: "(if n = 0 then [] else [take n buf']) @ read_chunks (length buf) recv' =
                    read_chunks (length buf) recv"
        by (rule recv_read_chunks [OF less.prems rdn])
      have smaller: "backlog (rs_segments recv') < backlog (rs_segments recv)"
        by (rule recv_read_progress [OF less.prems rdn])
      obtain w send' where wr: "send_write_all (take n buf') send = (w, send')"
        by (cases "send_write_all (take n buf') send") auto
      show ?thesis
      proof (cases w)
        case (Inl e)
        then have "n \<noteq> 0" using wr by (cases "n = 0") simp_all
        with rdn wr Inl chunks [symmetric] nb show ?thesis
          by (simp add: echo_loop.simps)
      next
        case (Inr u)
        have ih: "\<exists>b r'. echo_loop buf' send' recv' =
           Some (fst (echo_ref_loop (read_chunks (length buf') recv') (rs_end recv') send'), b,
                 snd (echo_ref_loop (read_chunks (length buf') recv') (rs_end recv') send'), r')"
        proof -
          have "0 < length buf'" using len less.prems by simp
          from less.hyps [OF smaller this] show ?thesis .
        qed
        have "echo_ref_loop (read_chunks (length buf) recv) (rs_end recv) send =
              echo_ref_loop (read_chunks (length buf) recv') (rs_end recv) send'"
        proof (cases "n = 0")
          case True
          with wr have "send' = send" by simp
          with True chunks show ?thesis by simp
        next
          case False
          with chunks [symmetric] wr Inr show ?thesis by simp
        qed
        with ih rdn wr Inr len fin nb show ?thesis
          by (simp add: echo_loop.simps)
      qed
    qed
  qed
qed

subsection \<open>Facts about the reference\<close>

lemma echo_ref_loop_healthy:
  "healthy_send ss \<Longrightarrow> [] \<notin> set cs \<Longrightarrow>
   echo_ref_loop cs fin ss =
     ((case fin of PeerFin \<Rightarrow> Inr () | PeerAbort e \<Rightarrow> Inl (EchoRead e)),
      ss\<lparr>ss_writes := ss_writes ss @ cs\<rparr>)"
proof (induction cs arbitrary: ss)
  case Nil
  then show ?case by (cases fin) simp_all
next
  case (Cons c cs)
  have c: "c \<noteq> []" using Cons.prems by auto
  have "healthy_send (ss\<lparr>ss_writes := ss_writes ss @ [c]\<rparr>)"
    using Cons.prems by (simp add: healthy_send_def)
  with Cons c show ?case by (simp add: send_write_all_healthy)
qed

lemma echo_ref_loop_finished:
  "ss_finished (snd (echo_ref_loop cs fin ss)) = ss_finished ss"
  by (induction cs fin ss rule: echo_ref_loop.induct)
     (auto split: prod.splits sum.splits dest: send_write_all_finished)

lemma echo_ref_loop_writes:
  "\<forall>c \<in> set cs. length c \<le> m \<Longrightarrow> echo_ref_loop cs fin ss = (r, ss') \<Longrightarrow>
   \<exists>ws. ss_writes ss' = ss_writes ss @ ws \<and> (\<forall>w \<in> set ws. length w \<le> m)"
proof (induction cs fin ss arbitrary: r ss' rule: echo_ref_loop.induct)
  case (3 c cs fin ss)
  obtain w ss1 where wr: "send_write_all c ss = (w, ss1)"
    by (cases "send_write_all c ss") auto
  from send_write_all_prefix [OF wr] obtain v
    where v: "ss_writes ss1 = ss_writes ss @ v" "\<forall>x \<in> set v. length x \<le> length c" by blast
  have c: "length c \<le> m" using "3.prems"(1) by simp
  show ?case
  proof (cases w)
    case (Inl e)
    with "3.prems"(2) wr have "ss' = ss1" by simp
    with v c show ?thesis by force
  next
    case (Inr u)
    with "3.prems"(2) wr have "echo_ref_loop cs fin ss1 = (r, ss')" by simp
    with "3.IH" [OF wr [symmetric] Inr] "3.prems"(1) obtain ws
      where "ss_writes ss' = ss_writes ss1 @ ws" "\<forall>w \<in> set ws. length w \<le> m" by auto
    with v c show ?thesis by (rule_tac x = "v @ ws" in exI) force
  qed
qed simp_all

lemma echo_ref_loop_on_finished:
  "ss_finished ss \<Longrightarrow> [] \<notin> set cs \<Longrightarrow> echo_ref_loop cs fin ss = (r, ss') \<Longrightarrow>
   ss' = ss \<and> (r = Inr () \<longrightarrow> cs = [] \<and> fin = PeerFin)"
  by (cases cs; cases fin) (auto simp: send_write_all_after_finish)

lemma echo_ref_loop_budget:
  assumes "[] \<notin> set cs" and "\<not> ss_finished ss" and "ss_fail ss = Some (k, e)"
    and "length (sent_bytes ss) \<le> k" and "k < length (sent_bytes ss) + length (concat cs)"
  shows "fst (echo_ref_loop cs fin ss) = Inl (EchoWrite e) \<and>
         sent_bytes (snd (echo_ref_loop cs fin ss)) = take k (sent_bytes ss @ concat cs) \<and>
         \<not> ss_finished (snd (echo_ref_loop cs fin ss))"
  using assms
proof (induction cs arbitrary: ss)
  case Nil
  then show ?case by simp
next
  case (Cons c cs)
  have c: "c \<noteq> []" using Cons.prems(1) by auto
  show ?case
  proof (cases "length (sent_bytes ss) + length c \<le> k")
    case True
    let ?ss1 = "ss\<lparr>ss_writes := ss_writes ss @ [c]\<rparr>"
    have "fst (echo_ref_loop cs fin ?ss1) = Inl (EchoWrite e) \<and>
          sent_bytes (snd (echo_ref_loop cs fin ?ss1)) = take k (sent_bytes ?ss1 @ concat cs) \<and>
          \<not> ss_finished (snd (echo_ref_loop cs fin ?ss1))"
      using Cons.prems True by (intro Cons.IH) (auto simp: sent_bytes_def)
    with True c Cons.prems(2,3) show ?thesis
      by (simp add: send_write_all_budget sent_bytes_def)
  next
    case False
    then have "take k (sent_bytes ss @ c @ concat cs) = sent_bytes ss @ take (k - length (sent_bytes ss)) c"
      using Cons.prems(4) by (simp add: take_append)
    with False c Cons.prems(2,3) show ?thesis
      by (simp add: send_write_all_budget sent_bytes_def)
  qed
qed

text \<open>The buffered \<open>echo_stream\<close> returns, with the reference's result and send half.\<close>

lemma echo_stream_ref:
  "\<exists>recv'. echo_stream send recv = Some (fst (echo_ref recv send), snd (echo_ref recv send), recv')"
proof -
  have pos: "0 < length (replicate echo_buf_size (0::byte))"
    by (simp add: echo_buf_size_def)
  obtain r ss where ref: "echo_ref_loop (read_chunks echo_buf_size recv) (rs_end recv) send = (r, ss)"
    by (cases "echo_ref_loop (read_chunks echo_buf_size recv) (rs_end recv) send") auto
  from echo_loop_ref [OF pos, of send recv] ref obtain buf' recv'
    where "echo_loop (replicate echo_buf_size 0) send recv = Some (r, buf', ss, recv')"
    by auto
  then show ?thesis
    using ref by (auto simp: echo_stream_def echo_after_loop_def echo_ref_def split: sum.splits prod.splits)
qed

lemma read_chunks_no_empty: "[] \<notin> set (read_chunks n rs)"
  using read_chunks_bounded by blast

text \<open>On a healthy send half the echo is determined completely: every read chunk is
  written, and the send half is finished exactly after a FIN.\<close>

lemma echo_ref_healthy:
  assumes "healthy_send send"
  shows "echo_ref recv send =
     ((case rs_end recv of PeerFin \<Rightarrow> Inr () | PeerAbort e \<Rightarrow> Inl (EchoRead e)),
      send\<lparr>ss_writes := ss_writes send @ read_chunks echo_buf_size recv,
           ss_finished := (rs_end recv = PeerFin)\<rparr>)"
  using assms read_chunks_no_empty
  by (cases "rs_end recv") (simp_all add: echo_ref_def echo_ref_loop_healthy healthy_send_def send_finish_fresh)

lemma echo_stream_healthy:
  assumes "healthy_send send"
  shows "\<exists>recv'. echo_stream send recv = Some
     ((case rs_end recv of PeerFin \<Rightarrow> Inr () | PeerAbort e \<Rightarrow> Inl (EchoRead e)),
      send\<lparr>ss_writes := ss_writes send @ read_chunks echo_buf_size recv,
           ss_finished := (rs_end recv = PeerFin)\<rparr>, recv')"
  using echo_stream_ref [of send recv] echo_ref_healthy [OF assms, of recv] by simp

subsection \<open>Properties of the echo protocol\<close>

text \<open>
  C1. The buffered loop of \<open>echo_stream\<close> always returns, and it returns exactly
  what the reference echo computes: the same result and the same send half.
\<close>

theorem echo_stream_equiv:
  "map_option (\<lambda>(r, ss, _). (r, ss)) (echo_stream send recv) = Some (echo_ref recv send)"
  using echo_stream_ref [of send recv] by auto

text \<open>
  C2. Round trip: when the peer FINs its direction and accepts everything sent,
  the server sends back exactly the bytes it received, in order, and finishes its
  own direction; this holds as well when the peer sent nothing.
\<close>

theorem echo_roundtrip:
  assumes "healthy_send send" and "rs_end recv = PeerFin"
  shows "\<exists>send' recv'. echo_stream send recv = Some (Inr (), send', recv') \<and>
           ss_finished send' \<and> sent_bytes send' = sent_bytes send @ concat (rs_segments recv)"
  using echo_stream_healthy [OF assms(1), of recv] assms(2) by (auto simp: sent_bytes_def)

theorem echo_roundtrip_witness:
  "\<exists>send' recv'. echo_stream fresh_send (peer_sends [''A'', ''BB''] PeerFin) = Some (Inr (), send', recv') \<and>
     ss_finished send' \<and> sent_bytes send' = bytes_of ''ABB''"
proof -
  have h: "healthy_send fresh_send" by (simp add: healthy_send_def fresh_send_def)
  have e: "rs_end (peer_sends [''A'', ''BB''] PeerFin) = PeerFin" by (simp add: peer_sends_def)
  have c: "sent_bytes fresh_send @ concat (rs_segments (peer_sends [''A'', ''BB''] PeerFin)) = bytes_of ''ABB''"
    by (simp add: fresh_send_def peer_sends_def sent_bytes_def bytes_of_def)
  show ?thesis using echo_roundtrip [OF h e] unfolding c .
qed

text \<open>
  C3. Framing: each write the echo issues is exactly one chunk a read returned,
  in order, with no coalescing or splitting beyond the 4096-byte buffer.
\<close>

theorem echo_framing:
  assumes "healthy_send send" and "echo_stream send recv = Some (r, send', recv')"
  shows "ss_writes send' = ss_writes send @ read_chunks echo_buf_size recv"
  using echo_stream_healthy [OF assms(1), of recv] assms(2) by auto

theorem echo_framing_witness:
  "ss_writes (snd (echo_ref (peer_sends [''A'', ''BB''] PeerFin) fresh_send)) = [bytes_of ''A'', bytes_of ''BB'']"
proof -
  have h: "healthy_send fresh_send" by (simp add: healthy_send_def fresh_send_def)
  obtain r' recv' where e: "echo_stream fresh_send (peer_sends [''A'', ''BB''] PeerFin) =
      Some (r', snd (echo_ref (peer_sends [''A'', ''BB''] PeerFin) fresh_send), recv')"
    using echo_stream_ref by blast
  have c: "read_chunks echo_buf_size (peer_sends [''A'', ''BB''] PeerFin) = [bytes_of ''A'', bytes_of ''BB'']"
    by (simp add: read_chunks_def peer_sends_def echo_buf_size_def chunks_short bytes_of_def)
  show ?thesis using echo_framing [OF h e] c by (simp add: fresh_send_def)
qed

text \<open>
  Bounds: whatever the peer does, every write the echo issues carries at most
  \<open>echo_buf_size\<close> = 4096 bytes, and the echo only appends to what the send half
  had sent before.
\<close>

lemma echo_write_bounds:
  assumes "echo_stream send recv = Some (r, send', recv')"
  shows "\<exists>ws. ss_writes send' = ss_writes send @ ws \<and> (\<forall>w \<in> set ws. length w \<le> echo_buf_size)"
proof -
  obtain r1 ss1 where loop: "echo_ref_loop (read_chunks echo_buf_size recv) (rs_end recv) send = (r1, ss1)"
    by (cases "echo_ref_loop (read_chunks echo_buf_size recv) (rs_end recv) send") auto
  have "\<forall>c \<in> set (read_chunks echo_buf_size recv). length c \<le> echo_buf_size"
    using read_chunks_bounded by (auto simp: echo_buf_size_def)
  from echo_ref_loop_writes [OF this loop] obtain ws
    where ws: "ss_writes ss1 = ss_writes send @ ws" "\<forall>w \<in> set ws. length w \<le> echo_buf_size" by blast
  have "send' = snd (echo_ref recv send)"
    using assms echo_stream_ref [of send recv] by auto
  then have "ss_writes send' = ss_writes ss1"
    using loop by (auto simp: echo_ref_def send_finish_def split: sum.splits prod.splits if_splits)
  with ws show ?thesis by auto
qed

text \<open>
  C4. Error path of a read: when the peer aborts its direction (a reset, a lost
  connection), the echo returns that read error after echoing every byte that
  arrived before the abort, and does not finish its send half.
\<close>

theorem echo_peer_abort:
  assumes "healthy_send send" and "rs_end recv = PeerAbort e"
  shows "\<exists>send' recv'. echo_stream send recv = Some (Inl (EchoRead e), send', recv') \<and>
           \<not> ss_finished send' \<and> sent_bytes send' = sent_bytes send @ concat (rs_segments recv)"
  using echo_stream_healthy [OF assms(1), of recv] assms(2) by (auto simp: sent_bytes_def)

theorem echo_peer_abort_witness:
  "\<exists>send' recv'. echo_stream fresh_send (peer_sends [''A''] (PeerAbort (ReadReset 7))) =
       Some (Inl (EchoRead (ReadReset 7)), send', recv') \<and> \<not> ss_finished send' \<and> sent_bytes send' = bytes_of ''A''"
proof -
  have h: "healthy_send fresh_send" by (simp add: healthy_send_def fresh_send_def)
  have e: "rs_end (peer_sends [''A''] (PeerAbort (ReadReset 7))) = PeerAbort (ReadReset 7)"
    by (simp add: peer_sends_def)
  have c: "sent_bytes fresh_send @ concat (rs_segments (peer_sends [''A''] (PeerAbort (ReadReset 7)))) = bytes_of ''A''"
    by (simp add: fresh_send_def peer_sends_def sent_bytes_def)
  show ?thesis using echo_peer_abort [OF h e] unfolding c .
qed

text \<open>
  C5. Error path of a write: when the peer stops accepting data after \<open>k\<close> bytes
  and more than \<open>k\<close> bytes are to be echoed, the echo returns that write error with
  exactly the first \<open>k\<close> bytes sent, and does not finish its send half.
\<close>

theorem echo_write_stopped:
  assumes "\<not> ss_finished send" and "ss_fail send = Some (k, e)"
    and "length (sent_bytes send) \<le> k"
    and "k < length (sent_bytes send) + length (concat (rs_segments recv))"
  shows "\<exists>send' recv'. echo_stream send recv = Some (Inl (EchoWrite e), send', recv') \<and>
           \<not> ss_finished send' \<and> sent_bytes send' = take k (sent_bytes send @ concat (rs_segments recv))"
proof -
  have k: "k < length (sent_bytes send) + length (concat (read_chunks echo_buf_size recv))"
    using assms(4) by simp
  obtain r1 ss1 where loop: "echo_ref_loop (read_chunks echo_buf_size recv) (rs_end recv) send = (r1, ss1)"
    by (cases "echo_ref_loop (read_chunks echo_buf_size recv) (rs_end recv) send") auto
  from echo_ref_loop_budget [OF read_chunks_no_empty assms(1-3) k, of "rs_end recv"] loop
  have "r1 = Inl (EchoWrite e)" "\<not> ss_finished ss1"
    "sent_bytes ss1 = take k (sent_bytes send @ concat (rs_segments recv))" by simp_all
  then show ?thesis
    using loop echo_stream_ref [of send recv] by (auto simp: echo_ref_def)
qed

theorem echo_write_stopped_witness:
  "\<exists>send' recv'. echo_stream (fresh_send\<lparr>ss_fail := Some (2, WriteStopped 0)\<rparr>) (peer_sends [''ABC''] PeerFin) =
       Some (Inl (EchoWrite (WriteStopped 0)), send', recv') \<and> \<not> ss_finished send' \<and> sent_bytes send' = bytes_of ''AB''"
proof -
  let ?s = "fresh_send\<lparr>ss_fail := Some (2, WriteStopped 0)\<rparr>"
  let ?r = "peer_sends [''ABC''] PeerFin"
  have a: "\<not> ss_finished ?s" "ss_fail ?s = Some (2, WriteStopped 0)" "length (sent_bytes ?s) \<le> 2"
    "2 < length (sent_bytes ?s) + length (concat (rs_segments ?r))"
    by (simp_all add: fresh_send_def peer_sends_def sent_bytes_def)
  have c: "take 2 (sent_bytes ?s @ concat (rs_segments ?r)) = bytes_of ''AB''"
    by (simp add: fresh_send_def peer_sends_def sent_bytes_def bytes_of_def)
  show ?thesis using echo_write_stopped [OF a] unfolding c .
qed

text \<open>
  C6. Finish is the terminal action of the clean exit only: starting from an
  unfinished send half, the echo has finished it afterwards exactly when it
  returned \<open>Ok(())\<close>; on every error path the send half is left unfinished.
\<close>

theorem echo_finish_iff_ok:
  assumes "\<not> ss_finished send" and "echo_stream send recv = Some (r, send', recv')"
  shows "ss_finished send' \<longleftrightarrow> r = Inr ()"
proof -
  obtain r1 ss1 where loop: "echo_ref_loop (read_chunks echo_buf_size recv) (rs_end recv) send = (r1, ss1)"
    by (cases "echo_ref_loop (read_chunks echo_buf_size recv) (rs_end recv) send") auto
  have "\<not> ss_finished ss1"
    using echo_ref_loop_finished [of "read_chunks echo_buf_size recv" "rs_end recv" send] loop assms(1)
    by simp
  moreover have "(r, send') = echo_ref recv send"
    using assms(2) echo_stream_ref [of send recv] by auto
  ultimately show ?thesis
    using loop by (auto simp: echo_ref_def send_finish_fresh split: sum.splits)
qed

theorem echo_finish_iff_ok_witness:
  "\<not> ss_finished fresh_send \<and>
   (ss_finished (snd (echo_ref (peer_sends [''A''] PeerFin) fresh_send)) \<longleftrightarrow>
    fst (echo_ref (peer_sends [''A''] PeerFin) fresh_send) = Inr ())"
proof -
  have h: "\<not> ss_finished fresh_send" by (simp add: fresh_send_def)
  obtain recv' where e: "echo_stream fresh_send (peer_sends [''A''] PeerFin) =
      Some (fst (echo_ref (peer_sends [''A''] PeerFin) fresh_send),
            snd (echo_ref (peer_sends [''A''] PeerFin) fresh_send), recv')"
    using echo_stream_ref by blast
  show ?thesis using h echo_finish_iff_ok [OF h e] by simp
qed

text \<open>
  C7. A protocol violation is rejected locally: run on a send half that is
  already finished, the echo never returns \<open>Ok\<close> (a second finish or a write
  after finish fails with \<open>ClosedStream\<close>) and leaves the send half unchanged.
\<close>

theorem echo_on_finished_stream:
  assumes "ss_finished send" and "echo_stream send recv = Some (r, send', recv')"
  shows "r \<noteq> Inr () \<and> send' = send"
proof -
  obtain r1 ss1 where loop: "echo_ref_loop (read_chunks echo_buf_size recv) (rs_end recv) send = (r1, ss1)"
    by (cases "echo_ref_loop (read_chunks echo_buf_size recv) (rs_end recv) send") auto
  from echo_ref_loop_on_finished [OF assms(1) read_chunks_no_empty loop]
  have "ss1 = send" "r1 = Inr () \<longrightarrow> rs_end recv = PeerFin" by auto
  moreover have "(r, send') = echo_ref recv send"
    using assms(2) echo_stream_ref [of send recv] by auto
  ultimately show ?thesis
    using loop assms(1) by (auto simp: echo_ref_def send_finish_twice split: sum.splits)
qed

theorem echo_on_finished_stream_witness:
  "fst (echo_ref (peer_sends [] PeerFin) (fresh_send\<lparr>ss_finished := True\<rparr>)) \<noteq> Inr () \<and>
   snd (echo_ref (peer_sends [] PeerFin) (fresh_send\<lparr>ss_finished := True\<rparr>)) = fresh_send\<lparr>ss_finished := True\<rparr>"
proof -
  let ?s = "fresh_send\<lparr>ss_finished := True\<rparr>"
  have h: "ss_finished ?s" by simp
  obtain recv' where e: "echo_stream ?s (peer_sends [] PeerFin) =
      Some (fst (echo_ref (peer_sends [] PeerFin) ?s), snd (echo_ref (peer_sends [] PeerFin) ?s), recv')"
    using echo_stream_ref by blast
  show ?thesis using echo_on_finished_stream [OF h e] .
qed

end
