(* ===== verification/EchoTask.thy ===== *)
theory EchoTask
  imports Echo
begin

text \<open>
  The echo of one stream as the scheduler runs it: the spawned task is suspended
  at each \<open>.await\<close> of \<open>echo_stream\<close> (the \<open>read\<close> and the \<open>write_all\<close>),
  so it is a machine with one step per suspension point. \<open>finish\<close> is
  synchronous in quinn 0.11, so the step in which a read returns the FIN also
  finishes the send half and ends the task. The state is the program counter,
  the buffer and the two halves. The theorems: every step keeps the result the
  sequential \<open>echo_stream\<close> would reach from the current state, so a finished
  task has exactly the result of \<open>echo_stream\<close> (refinement); every task
  reaches its end, by a measure that decreases with each step; and every step
  keeps the task well formed. The read step also takes the slice
  \<open>&buf[..n]\<close> of the code, whose panic ends the task; the write step then
  writes \<open>take n\<close> of the unchanged buffer, the slice just taken.
\<close>

datatype echo_pc = EchoReading | EchoWriting nat | EchoDone "echo_error + unit"

record echo_task =
  et_pc :: echo_pc
  et_buf :: bytes
  et_send :: send_stream
  et_recv :: recv_stream

definition echo_task_init :: "send_stream \<Rightarrow> recv_stream \<Rightarrow> echo_task" where
  "echo_task_init send recv =
     \<lparr>et_pc = EchoReading, et_buf = replicate echo_buf_size 0, et_send = send, et_recv = recv\<rparr>"

definition echo_task_step :: "echo_task \<Rightarrow> echo_task option" where
  "echo_task_step t =
     (case et_pc t of
        EchoReading \<Rightarrow>
          (case recv_read (et_buf t) (et_recv t) of
             (Inl e, buf', recv') \<Rightarrow>
               Some (t\<lparr>et_pc := EchoDone (Inl (EchoRead e)), et_buf := buf', et_recv := recv'\<rparr>)
           | (Inr None, buf', recv') \<Rightarrow>
               (case send_finish (et_send t) of
                  (Inl e, send') \<Rightarrow>
                    Some (t\<lparr>et_pc := EchoDone (Inl (EchoFinish e)), et_buf := buf', et_send := send',
                            et_recv := recv'\<rparr>)
                | (Inr _, send') \<Rightarrow>
                    Some (t\<lparr>et_pc := EchoDone (Inr ()), et_buf := buf', et_send := send', et_recv := recv'\<rparr>))
           | (Inr (Some n), buf', recv') \<Rightarrow>
               (case slice_to buf' n of
                  None \<Rightarrow> Some (t\<lparr>et_pc := EchoDone (Inl EchoPanic), et_buf := buf', et_recv := recv'\<rparr>)
                | Some _ \<Rightarrow> Some (t\<lparr>et_pc := EchoWriting n, et_buf := buf', et_recv := recv'\<rparr>)))
      | EchoWriting n \<Rightarrow>
          (case send_write_all (take n (et_buf t)) (et_send t) of
             (Inl e, send') \<Rightarrow> Some (t\<lparr>et_pc := EchoDone (Inl (EchoWrite e)), et_send := send'\<rparr>)
           | (Inr _, send') \<Rightarrow> Some (t\<lparr>et_pc := EchoReading, et_send := send'\<rparr>))
      | EchoDone _ \<Rightarrow> None)"

definition echo_steps :: "echo_task \<Rightarrow> echo_task \<Rightarrow> bool" where
  "echo_steps = (\<lambda>t t'. echo_task_step t = Some t')\<^sup>*\<^sup>*"

text \<open>What the sequential \<open>echo_stream\<close> computes from a task's current state.\<close>

definition echo_task_result :: "echo_task \<Rightarrow> ((echo_error + unit) \<times> send_stream \<times> recv_stream) option" where
  "echo_task_result t =
     (case et_pc t of
        EchoReading \<Rightarrow> echo_after_loop (echo_loop (et_buf t) (et_send t) (et_recv t))
      | EchoWriting n \<Rightarrow>
          (case send_write_all (take n (et_buf t)) (et_send t) of
             (Inl e, send') \<Rightarrow> Some (Inl (EchoWrite e), send', et_recv t)
           | (Inr _, send') \<Rightarrow> echo_after_loop (echo_loop (et_buf t) send' (et_recv t)))
      | EchoDone r \<Rightarrow> Some (r, et_send t, et_recv t))"

text \<open>Twice the backlog, and one more while a write is pending.\<close>

definition echo_measure :: "echo_task \<Rightarrow> nat" where
  "echo_measure t =
     2 * backlog (rs_segments (et_recv t)) + (case et_pc t of EchoWriting _ \<Rightarrow> 1 | _ \<Rightarrow> 0)"

definition echo_done :: "echo_task \<Rightarrow> bool" where
  "echo_done t \<longleftrightarrow> (case et_pc t of EchoDone _ \<Rightarrow> True | _ \<Rightarrow> False)"

text \<open>Well-formedness of a task, the invariant of its types: the buffer is the
  \<open>[u8; 4096]\<close> of the source, a pending write's length is in range of it (so
  \<open>&buf[..n]\<close> was a valid slice), and the task has not panicked.\<close>

definition echo_task_wf :: "echo_task \<Rightarrow> bool" where
  "echo_task_wf t \<longleftrightarrow>
     length (et_buf t) = echo_buf_size \<and>
     (case et_pc t of
        EchoReading \<Rightarrow> True
      | EchoWriting n \<Rightarrow> n \<le> length (et_buf t)
      | EchoDone r \<Rightarrow> r \<noteq> Inl EchoPanic)"

text \<open>Running the task for at most \<open>n\<close> steps (it stays put once done).\<close>

fun echo_task_run :: "nat \<Rightarrow> echo_task \<Rightarrow> echo_task" where
  "echo_task_run 0 t = t"
| "echo_task_run (Suc n) t = (case echo_task_step t of None \<Rightarrow> t | Some t' \<Rightarrow> echo_task_run n t')"

subsection \<open>Facts about a single step\<close>

lemma echo_task_step_None_iff: "echo_task_step t = None \<longleftrightarrow> echo_done t"
  by (auto simp: echo_task_step_def echo_done_def split: echo_pc.splits prod.splits sum.splits option.splits)

lemma echo_task_step_buf:
  "echo_task_step t = Some t' \<Longrightarrow> length (et_buf t') = length (et_buf t)"
  by (auto simp: echo_task_step_def dest: recv_read_length
      split: echo_pc.splits prod.splits sum.splits option.splits)

text \<open>A step keeps what the sequential echo would compute: the simulation lemma.\<close>

lemma echo_task_step_result:
  assumes "echo_task_step t = Some t'"
  shows "echo_task_result t' = echo_task_result t"
proof (cases "et_pc t")
  case EchoReading
  obtain r buf' recv' where rd: "recv_read (et_buf t) (et_recv t) = (r, buf', recv')"
    by (cases "recv_read (et_buf t) (et_recv t)") auto
  show ?thesis
  proof (cases r)
    case (Inl e)
    with assms EchoReading rd show ?thesis
      by (auto simp: echo_task_step_def echo_task_result_def echo_loop.simps echo_after_loop_def)
  next
    case (Inr x)
    then show ?thesis
      using assms EchoReading rd
      by (cases x) (auto simp: echo_task_step_def echo_task_result_def echo_loop.simps
          echo_after_loop_def slice_to_def split: prod.splits sum.splits)
  qed
next
  case (EchoWriting n)
  with assms show ?thesis
    by (auto simp: echo_task_step_def echo_task_result_def split: prod.splits sum.splits)
next
  case (EchoDone r)
  with assms show ?thesis by (simp add: echo_task_step_def)
qed

lemma echo_task_init_buf_length [simp]: "length (et_buf (echo_task_init send recv)) = echo_buf_size"
  by (simp add: echo_task_init_def)

lemma echo_task_init_result: "echo_task_result (echo_task_init send recv) = echo_stream send recv"
  by (simp add: echo_task_init_def echo_task_result_def echo_stream_def)

lemma echo_task_init_wf: "echo_task_wf (echo_task_init send recv)"
  by (simp add: echo_task_wf_def echo_task_init_def)

lemma echo_task_wf_buf_pos: "echo_task_wf t \<Longrightarrow> 0 < length (et_buf t)"
  by (simp add: echo_task_wf_def echo_buf_size_def)

text \<open>Preservation: a step of a well-formed task gives a well-formed task; the read
  never returns more than the buffer holds, so the slice never panics.\<close>

lemma echo_task_step_wf:
  assumes "echo_task_wf t" and "echo_task_step t = Some t'"
  shows "echo_task_wf t'"
proof (cases "et_pc t")
  case EchoReading
  obtain r buf' recv' where rd: "recv_read (et_buf t) (et_recv t) = (r, buf', recv')"
    by (cases "recv_read (et_buf t) (et_recv t)") auto
  have len: "length buf' = length (et_buf t)" using rd by (simp add: recv_read_length)
  have bound: "\<And>n. r = Inr (Some n) \<Longrightarrow> n \<le> length buf'"
    using rd recv_read_Some_bound len by fastforce
  show ?thesis
    using assms EchoReading rd len bound
    by (auto simp: echo_task_step_def echo_task_wf_def split: sum.splits option.splits prod.splits)
next
  case (EchoWriting n)
  with assms show ?thesis
    by (auto simp: echo_task_step_def echo_task_wf_def split: prod.splits sum.splits)
next
  case (EchoDone r)
  with assms show ?thesis by (simp add: echo_task_step_def)
qed

lemma echo_steps_result:
  "echo_steps t t' \<Longrightarrow> echo_task_result t' = echo_task_result t"
  unfolding echo_steps_def
  by (induction rule: rtranclp_induct) (auto dest: echo_task_step_result)

lemma echo_task_step_measure:
  assumes "0 < length (et_buf t)" and "echo_task_step t = Some t'" and "\<not> echo_done t'"
  shows "echo_measure t' < echo_measure t"
proof (cases "et_pc t")
  case EchoReading
  obtain r buf' recv' where rd: "recv_read (et_buf t) (et_recv t) = (r, buf', recv')"
    by (cases "recv_read (et_buf t) (et_recv t)") auto
  then obtain n where rdn: "recv_read (et_buf t) (et_recv t) = (Inr (Some n), buf', recv')"
    and t': "t' = t\<lparr>et_pc := EchoWriting n, et_buf := buf', et_recv := recv'\<rparr>"
    using assms(2,3) EchoReading
    by (auto simp: echo_task_step_def echo_done_def split: sum.splits option.splits prod.splits)
  have "backlog (rs_segments recv') < backlog (rs_segments (et_recv t))"
    by (rule recv_read_progress [OF assms(1) rdn])
  with t' EchoReading show ?thesis by (simp add: echo_measure_def)
next
  case (EchoWriting n)
  with assms(2,3) show ?thesis
    by (auto simp: echo_task_step_def echo_measure_def echo_done_def split: prod.splits sum.splits)
next
  case (EchoDone r)
  with assms(2) show ?thesis by (simp add: echo_task_step_def)
qed

text \<open>From any state with a non-empty buffer the task runs to its end.\<close>

lemma echo_task_reaches_done:
  "0 < length (et_buf t) \<Longrightarrow> \<exists>t'. echo_steps t t' \<and> echo_done t'"
proof (induction "echo_measure t" arbitrary: t rule: less_induct)
  case less
  show ?case
  proof (cases "echo_done t")
    case True
    then show ?thesis by (auto simp: echo_steps_def)
  next
    case False
    then obtain t1 where step: "echo_task_step t = Some t1"
      using echo_task_step_None_iff by fastforce
    have len: "0 < length (et_buf t1)"
      using less.prems echo_task_step_buf [OF step] by simp
    show ?thesis
    proof (cases "echo_done t1")
      case True
      with step show ?thesis by (auto simp: echo_steps_def)
    next
      case False
      with less.prems step have "echo_measure t1 < echo_measure t"
        by (rule echo_task_step_measure)
      from less.hyps [OF this len] obtain t' where "echo_steps t1 t'" "echo_done t'" by blast
      with step show ?thesis
        by (auto simp: echo_steps_def intro: converse_rtranclp_into_rtranclp)
    qed
  qed
qed

lemma echo_steps_run: "echo_steps t (echo_task_run n t)"
proof (induction n arbitrary: t)
  case (Suc n)
  then show ?case
    by (cases "echo_task_step t") (auto simp: echo_steps_def intro: converse_rtranclp_into_rtranclp)
qed (simp add: echo_steps_def)

lemma echo_task_run_done: "echo_done t \<Longrightarrow> echo_task_run n t = t"
  by (cases n) (simp_all add: echo_task_step_None_iff [symmetric])

lemma echo_task_run_mono:
  "echo_done (echo_task_run n t) \<Longrightarrow> echo_task_run (n + k) t = echo_task_run n t"
proof (induction n arbitrary: t)
  case 0
  then show ?case by (simp add: echo_task_run_done)
next
  case (Suc n)
  then show ?case by (cases "echo_task_step t") simp_all
qed

text \<open>Fuel \<open>echo_measure t + 1\<close> is enough for the task to end.\<close>

lemma echo_task_run_enough:
  "0 < length (et_buf t) \<Longrightarrow> echo_done (echo_task_run (Suc (echo_measure t)) t)"
proof (induction "echo_measure t" arbitrary: t rule: less_induct)
  case less
  show ?case
  proof (cases "echo_task_step t")
    case None
    then have "echo_done t" by (simp add: echo_task_step_None_iff)
    with None show ?thesis by simp
  next
    case (Some t1)
    have len: "0 < length (et_buf t1)"
      using less.prems echo_task_step_buf [OF Some] by simp
    show ?thesis
    proof (cases "echo_done t1")
      case True
      with Some show ?thesis by (simp add: echo_task_run_done)
    next
      case False
      with less.prems Some have lt: "echo_measure t1 < echo_measure t"
        by (rule echo_task_step_measure)
      have done1: "echo_done (echo_task_run (Suc (echo_measure t1)) t1)"
        by (rule less.hyps [OF lt len])
      obtain k where k: "echo_measure t = Suc (echo_measure t1) + k"
        using lt by (metis less_imp_Suc_add add_Suc)
      have "echo_task_run (Suc (echo_measure t)) t = echo_task_run (Suc (echo_measure t1) + k) t1"
        using Some k by simp
      also have "\<dots> = echo_task_run (Suc (echo_measure t1)) t1"
        by (rule echo_task_run_mono [OF done1])
      finally show ?thesis using done1 by simp
    qed
  qed
qed

subsection \<open>Properties of the echo task\<close>

text \<open>
  C8. Refinement: a spawned echo task that has run to its end, under any number
  of suspensions, has exactly the result and the two halves of the sequential
  \<open>echo_stream\<close> on the stream it was spawned with.
\<close>

theorem echo_task_refines:
  assumes "echo_steps (echo_task_init send recv) t" and "et_pc t = EchoDone r"
  shows "echo_stream send recv = Some (r, et_send t, et_recv t)"
proof -
  have "echo_task_result t = echo_stream send recv"
    using echo_steps_result [OF assms(1)] echo_task_init_result by simp
  with assms(2) show ?thesis
    by (simp add: echo_task_result_def)
qed

theorem echo_task_refines_witness:
  "echo_stream fresh_send (peer_sends [''A''] PeerFin) =
     Some (Inr (), fresh_send\<lparr>ss_writes := [bytes_of ''A''], ss_finished := True\<rparr>, peer_sends [] PeerFin)"
proof -
  let ?t0 = "echo_task_init fresh_send (peer_sends [''A''] PeerFin)"
  have run: "et_pc (echo_task_run 3 ?t0) = EchoDone (Inr ()) \<and>
        et_send (echo_task_run 3 ?t0) = fresh_send\<lparr>ss_writes := [bytes_of ''A''], ss_finished := True\<rparr> \<and>
        et_recv (echo_task_run 3 ?t0) = peer_sends [] PeerFin"
    by (simp add: numeral_3_eq_3 echo_task_init_def echo_task_step_def recv_read_def peer_sends_def
        fresh_send_def send_write_all_def send_finish_def echo_buf_size_def bytes_of_def)
  show ?thesis
    using echo_task_refines [OF echo_steps_run, of 3 fresh_send "peer_sends [''A''] PeerFin" "Inr ()"] run
    by simp
qed

text \<open>
  C9. Termination: every echo task, whatever its peer does, reaches its end
  within \<open>2 * backlog + 1\<close> steps (pending segments plus pending bytes of the
  peer's data): the fuel \<open>echo_measure + 1\<close> is enough.
\<close>

theorem echo_task_terminates:
  "echo_done (echo_task_run (Suc (echo_measure (echo_task_init send recv))) (echo_task_init send recv))"
  by (rule echo_task_run_enough) (simp add: echo_task_init_def echo_buf_size_def)

end
