(* ===== verification/Runtime.thy ===== *)
theory Runtime
  imports Prelude
begin

text \<open>
  The shape every server \<open>main\<close> of this repository has on the tokio runtime:
  \<open>while let Some(x) = endpoint.accept().await { tokio::spawn(task(x)); }\<close>,
  then \<open>Ok(())\<close>, with the spawned tasks spawning further tasks. The state is
  whether \<open>main\<close> is still in its loop, the attempts the endpoint will still
  yield (\<open>'i\<close>), the spawned tasks in spawn order (\<open>'t\<close>) and the log of
  printed lines (\<open>'l\<close>). A server supplies what the loop spawns for an attempt
  (\<open>spawn\<close>) and how a task resumes between two of its await points
  (\<open>step\<close>: its next state, the tasks it spawns, the lines it prints; \<open>None\<close>
  once it has returned). The scheduler may resume the loop or any task in any
  order; once \<open>main\<close> has returned the runtime is gone and nothing runs.
  The lemmas here hold for every server: a resumed task changes no other task,
  the log only grows, the loop accepts every attempt whatever the tasks did, an
  invariant of single tasks holds in every reachable state, and so does an
  invariant of the log when the steps of such tasks print only lines that
  satisfy it; spawned work is conserved (tasks, pending attempts and the
  potential of the tasks add up to the budget of all attempts); and a task that
  spawns nothing can be run alone to any later state of its own.
\<close>

record ('i, 't, 'l) runtime =
  rt_running :: bool
  rt_incoming :: "'i list"
  rt_tasks :: "'t list"
  rt_log :: "'l list"

type_synonym ('t, 'l) task_stepper = "'t \<Rightarrow> ('t \<times> 't list \<times> 'l list) option"

definition rt_init :: "'l \<Rightarrow> 'i list \<Rightarrow> ('i, 't, 'l) runtime" where
  "rt_init banner xs = \<lparr>rt_running = True, rt_incoming = xs, rt_tasks = [], rt_log = [banner]\<rparr>"

definition rt_listener :: "('i \<Rightarrow> 't) \<Rightarrow> ('i, 't, 'l) runtime \<Rightarrow> ('i, 't, 'l) runtime option" where
  "rt_listener spawn s =
     (if \<not> rt_running s then None
      else case rt_incoming s of
        [] \<Rightarrow> Some (s\<lparr>rt_running := False\<rparr>)
      | x # xs \<Rightarrow> Some (s\<lparr>rt_incoming := xs, rt_tasks := rt_tasks s @ [spawn x]\<rparr>))"

definition rt_run_task :: "('t, 'l) task_stepper \<Rightarrow> nat \<Rightarrow> ('i, 't, 'l) runtime \<Rightarrow> ('i, 't, 'l) runtime option" where
  "rt_run_task step i s =
     (if rt_running s \<and> i < length (rt_tasks s) then
        (case step (rt_tasks s ! i) of
           None \<Rightarrow> None
         | Some (t', new, logs) \<Rightarrow>
             Some (s\<lparr>rt_tasks := (rt_tasks s)[i := t'] @ new, rt_log := rt_log s @ logs\<rparr>))
      else None)"

datatype sched = RunListener | RunTask nat

fun rt_step :: "('i \<Rightarrow> 't) \<Rightarrow> ('t, 'l) task_stepper \<Rightarrow> sched \<Rightarrow> ('i, 't, 'l) runtime \<Rightarrow> ('i, 't, 'l) runtime option" where
  "rt_step spawn step RunListener s = rt_listener spawn s"
| "rt_step spawn step (RunTask i) s = rt_run_task step i s"

definition rt_reach :: "('i \<Rightarrow> 't) \<Rightarrow> ('t, 'l) task_stepper \<Rightarrow> ('i, 't, 'l) runtime \<Rightarrow> ('i, 't, 'l) runtime \<Rightarrow> bool" where
  "rt_reach spawn step = (\<lambda>s s'. \<exists>c. rt_step spawn step c s = Some s')\<^sup>*\<^sup>*"

fun rt_run :: "('i \<Rightarrow> 't) \<Rightarrow> ('t, 'l) task_stepper \<Rightarrow> sched list \<Rightarrow> ('i, 't, 'l) runtime \<Rightarrow> ('i, 't, 'l) runtime option" where
  "rt_run spawn step [] s = Some s"
| "rt_run spawn step (c # cs) s =
     (case rt_step spawn step c s of None \<Rightarrow> None | Some s' \<Rightarrow> rt_run spawn step cs s')"

text \<open>A task's own steps that spawn nothing (a stream or request task).\<close>

definition solo_steps :: "('t, 'l) task_stepper \<Rightarrow> 't \<Rightarrow> 't \<Rightarrow> bool" where
  "solo_steps step = (\<lambda>t t'. \<exists>logs. step t = Some (t', [], logs))\<^sup>*\<^sup>*"

lemmas rt_eval = rt_init_def rt_listener_def rt_run_task_def

subsection \<open>Facts about single steps\<close>

lemma rt_run_task_Some:
  assumes "rt_run_task step i s = Some s'"
  obtains t' new logs where "rt_running s" "i < length (rt_tasks s)"
    "step (rt_tasks s ! i) = Some (t', new, logs)"
    "s' = s\<lparr>rt_tasks := (rt_tasks s)[i := t'] @ new, rt_log := rt_log s @ logs\<rparr>"
  using assms by (auto simp: rt_run_task_def split: if_splits option.splits prod.splits)

lemma rt_step_frame:
  "rt_step spawn step c s = Some s' \<Longrightarrow>
   prefix (rt_log s) (rt_log s') \<and> length (rt_tasks s) \<le> length (rt_tasks s')"
  by (cases c) (auto simp: rt_listener_def elim!: rt_run_task_Some split: if_splits list.splits)

lemma rt_stopped: "\<not> rt_running s \<Longrightarrow> rt_step spawn step c s = None"
  by (cases c) (simp_all add: rt_listener_def rt_run_task_def)

lemma rt_run_reach:
  "rt_run spawn step cs s = Some s' \<Longrightarrow> rt_reach spawn step s s'"
proof (induction cs arbitrary: s)
  case Nil
  then show ?case by (simp add: rt_reach_def)
next
  case (Cons c cs)
  then obtain s1 where "rt_step spawn step c s = Some s1" "rt_run spawn step cs s1 = Some s'"
    by (auto split: option.splits)
  with Cons.IH show ?case
    by (auto simp: rt_reach_def intro: converse_rtranclp_into_rtranclp)
qed

text \<open>An invariant of single tasks: every task satisfies it if every task the loop
  spawns for an attempt of the endpoint does and every step keeps it for the task
  and passes it to what the task spawns.\<close>

lemma rt_reach_tasks:
  assumes spawn: "\<And>x. x \<in> set xs \<Longrightarrow> T (spawn x)"
    and step: "\<And>t t' new logs. T t \<Longrightarrow> step t = Some (t', new, logs) \<Longrightarrow> T t' \<and> (\<forall>n \<in> set new. T n)"
    and reach: "rt_reach spawn step (rt_init banner xs) s"
  shows "set (rt_incoming s) \<subseteq> set xs \<and> (\<forall>t \<in> set (rt_tasks s). T t)"
  using reach unfolding rt_reach_def
proof (induction rule: rtranclp_induct)
  case base
  then show ?case by (simp add: rt_init_def)
next
  case (step s1 s2)
  then obtain c where c: "rt_step spawn step c s1 = Some s2" by blast
  show ?case
  proof (cases c)
    case RunListener
    with c step.IH spawn show ?thesis
      by (auto simp: rt_listener_def split: if_splits list.splits)
  next
    case (RunTask i)
    with c obtain t' new logs where i: "i < length (rt_tasks s1)"
      and st: "step (rt_tasks s1 ! i) = Some (t', new, logs)"
      and s2: "s2 = s1\<lparr>rt_tasks := (rt_tasks s1)[i := t'] @ new, rt_log := rt_log s1 @ logs\<rparr>"
      by (auto elim: rt_run_task_Some)
    have "T (rt_tasks s1 ! i)" using step.IH i by simp
    from assms(2) [OF this st] have "T t'" "\<forall>n \<in> set new. T n" by auto
    with step.IH s2 set_update_subset_insert [of "rt_tasks s1" i t'] show ?thesis by auto
  qed
qed

text \<open>An invariant of the log: if the banner and everything the steps of tasks
  satisfying the task invariant print are in \<open>L\<close>, so is every line of the log.\<close>

lemma rt_reach_log:
  assumes spawn: "\<And>x. x \<in> set xs \<Longrightarrow> T (spawn x)"
    and pres: "\<And>t t' new logs. T t \<Longrightarrow> step t = Some (t', new, logs) \<Longrightarrow> T t' \<and> (\<forall>n \<in> set new. T n)"
    and logs: "\<And>t t' new logs. T t \<Longrightarrow> step t = Some (t', new, logs) \<Longrightarrow> set logs \<subseteq> L"
    and banner: "banner \<in> L"
    and reach: "rt_reach spawn step (rt_init banner xs) s"
  shows "set (rt_log s) \<subseteq> L"
  using reach unfolding rt_reach_def
proof (induction rule: rtranclp_induct)
  case base
  then show ?case using banner by (simp add: rt_init_def)
next
  case (step s1 s2)
  then obtain c where c: "rt_step spawn step c s1 = Some s2" by blast
  have tasks: "\<forall>t \<in> set (rt_tasks s1). T t"
    using rt_reach_tasks [OF spawn pres, where banner = banner and s = s1] step.hyps(1) by (simp add: rt_reach_def)
  show ?case
  proof (cases c)
    case RunListener
    with c step.IH show ?thesis
      by (auto simp: rt_listener_def split: if_splits list.splits)
  next
    case (RunTask i)
    with c obtain t' new ls where i: "i < length (rt_tasks s1)"
      and st: "step (rt_tasks s1 ! i) = Some (t', new, ls)"
      and s2: "s2 = s1\<lparr>rt_tasks := (rt_tasks s1)[i := t'] @ new, rt_log := rt_log s1 @ ls\<rparr>"
      by (auto elim: rt_run_task_Some)
    have "set ls \<subseteq> L" using logs [OF _ st] tasks i by simp
    with step.IH s2 show ?thesis by simp
  qed
qed

text \<open>A conservation law: if every attempt carries a budget \<open>B\<close> of which the
  connection task it spawns keeps all but one as its potential \<open>P\<close>, and every
  step moves potential into the tasks it spawns, one unit per task, then tasks,
  pending attempts and potential always add up to the budget of all attempts.\<close>

lemma rt_reach_potential:
  assumes spawn: "\<And>x. Suc (P (spawn x)) = B x"
    and pres: "\<And>t t' new logs. step t = Some (t', new, logs) \<Longrightarrow> P t' + length new + sum_list (map P new) = P t"
    and reach: "rt_reach spawn step (rt_init banner xs) s"
  shows "length (rt_tasks s) + sum_list (map B (rt_incoming s)) + sum_list (map P (rt_tasks s)) = sum_list (map B xs)"
  using reach unfolding rt_reach_def
proof (induction rule: rtranclp_induct)
  case base
  then show ?case by (simp add: rt_init_def)
next
  case (step s1 s2)
  then obtain c where c: "rt_step spawn step c s1 = Some s2" by blast
  show ?case
  proof (cases c)
    case RunListener
    show ?thesis
    proof (cases "rt_incoming s1")
      case Nil
      with c RunListener step.IH show ?thesis by (auto simp: rt_listener_def split: if_splits)
    next
      case (Cons x xs')
      with c RunListener have s2: "s2 = s1\<lparr>rt_incoming := xs', rt_tasks := rt_tasks s1 @ [spawn x]\<rparr>"
        by (auto simp: rt_listener_def split: if_splits)
      from step.IH Cons s2 spawn [of x] show ?thesis by simp
    qed
  next
    case (RunTask i)
    with c obtain t' new ls where i: "i < length (rt_tasks s1)"
      and st: "step (rt_tasks s1 ! i) = Some (t', new, ls)"
      and s2: "s2 = s1\<lparr>rt_tasks := (rt_tasks s1)[i := t'] @ new, rt_log := rt_log s1 @ ls\<rparr>"
      by (auto elim: rt_run_task_Some)
    have "sum_list (map P ((rt_tasks s1)[i := t'])) + P (rt_tasks s1 ! i) = sum_list (map P (rt_tasks s1)) + P t'"
      by (rule sum_list_map_update [OF i])
    with step.IH s2 pres [OF st] show ?thesis by simp
  qed
qed

text \<open>A task that spawns nothing can be run alone to any later state of its own.\<close>

lemma rt_reach_solo:
  assumes "solo_steps step t t'" and "rt_running s" and "i < length (rt_tasks s)" and "rt_tasks s ! i = t"
  shows "\<exists>s'. rt_reach spawn step s s' \<and> rt_running s' \<and> i < length (rt_tasks s') \<and> rt_tasks s' ! i = t'"
  using assms(1) unfolding solo_steps_def
proof (induction rule: rtranclp_induct)
  case base
  with assms show ?case by (auto simp: rt_reach_def)
next
  case (step u u')
  then obtain s1 where s1: "rt_reach spawn step s s1" "rt_running s1" "i < length (rt_tasks s1)"
    "rt_tasks s1 ! i = u" by blast
  from step.hyps(2) obtain logs where u: "step u = Some (u', [], logs)" by blast
  let ?s2 = "s1\<lparr>rt_tasks := (rt_tasks s1)[i := u'], rt_log := rt_log s1 @ logs\<rparr>"
  have "rt_step spawn step (RunTask i) s1 = Some ?s2"
    using s1(2-4) u by (simp add: rt_run_task_def)
  then have "rt_reach spawn step s s2" if "s2 = ?s2" for s2
    using s1(1) that unfolding rt_reach_def by (metis (mono_tags, lifting) rtranclp.rtrancl_into_rtrancl)
  with s1 show ?case by auto
qed

subsection \<open>Properties of the runtime shape\<close>

text \<open>
  Isolation: resuming one task, whether it succeeds or fails, leaves every
  other task exactly as it was, and changes neither the attempts the loop has
  still to accept nor whether \<open>main\<close> is running.
\<close>

lemma rt_task_isolation:
  assumes "rt_step spawn step (RunTask i) s = Some s'" and "j < length (rt_tasks s)" and "j \<noteq> i"
  shows "rt_tasks s' ! j = rt_tasks s ! j \<and> rt_incoming s' = rt_incoming s \<and> rt_running s' = rt_running s"
proof -
  from assms(1) obtain t' new logs where "i < length (rt_tasks s)"
    "s' = s\<lparr>rt_tasks := (rt_tasks s)[i := t'] @ new, rt_log := rt_log s @ logs\<rparr>"
    by (auto elim: rt_run_task_Some)
  with assms(2,3) show ?thesis by (simp add: nth_append)
qed

text \<open>
  C10. The accept loop is never blocked by the tasks: in any state of a running
  process, whatever the spawned tasks have done or failed to do, resuming the
  loop once per remaining attempt spawns one task per attempt, in order.
\<close>

theorem rt_listener_accepts_all:
  "rt_running s \<Longrightarrow>
   rt_run spawn step (replicate (length (rt_incoming s)) RunListener) s =
     Some (s\<lparr>rt_incoming := [], rt_tasks := rt_tasks s @ map spawn (rt_incoming s)\<rparr>)"
proof (induction "rt_incoming s" arbitrary: s)
  case Nil
  then show ?case by simp
next
  case (Cons x xs)
  let ?s1 = "s\<lparr>rt_incoming := xs, rt_tasks := rt_tasks s @ [spawn x]\<rparr>"
  have "rt_run spawn step (replicate (length xs) RunListener) ?s1 =
          Some (?s1\<lparr>rt_incoming := [], rt_tasks := rt_tasks ?s1 @ map spawn xs\<rparr>)"
    using Cons.hyps(1) [of ?s1] Cons.prems by simp
  with Cons.hyps(2) [symmetric] Cons.prems show ?case
    by (simp add: rt_listener_def)
qed

text \<open>
  The log, the only state the tasks share, is append-only, and no spawned
  task is ever removed: along any run the earlier log is a prefix of the later
  one and the task list only grows.
\<close>

lemma rt_log_append_only:
  assumes "rt_reach spawn step s s'"
  shows "prefix (rt_log s) (rt_log s') \<and> length (rt_tasks s) \<le> length (rt_tasks s')"
  using assms unfolding rt_reach_def
proof (induction rule: rtranclp_induct)
  case base
  then show ?case by simp
next
  case (step s1 s2)
  then obtain c where "rt_step spawn step c s1 = Some s2" by blast
  from rt_step_frame [OF this] step.IH show ?case
    using prefix_order.trans by fastforce
qed

end
