(* ===== verification/QuicServer.thy ===== *)
theory QuicServer
  imports EchoTask Runtime
begin

text \<open>
  The QUIC echo server, \<open>main\<close> of \<open>src/bin/servers/quic_server.rs\<close>, as a system
  of concurrent tasks. The listener (the \<open>while let Some(connecting) =
  endpoint.accept().await\<close> loop) spawns one connection task per incoming
  attempt; a connection task awaits the handshake, then loops on
  \<open>conn.accept_bi()\<close> and spawns one stream task per stream; a stream task runs
  the echo (theory \<open>EchoTask\<close>) and reports its error. The tokio scheduler may
  run any task that is ready, so a run is any sequence of choices: the listener,
  or the task with a given index (tasks are numbered in spawn order and never
  removed). When the loop ends, \<open>main\<close> returns \<open>Ok(())\<close> and the runtime stops:
  no task runs after that. The only shared state is the log, appended to.
  A stream task's returned error is printed by its \<open>eprintln!\<close>; a panic of the
  task is reported by the runtime instead (\<open>LogTaskPanic\<close>).
\<close>

text \<open>The \<open>println!\<close> / \<open>eprintln!\<close> lines of the server.\<close>

datatype log_entry =
    LogListening
  | LogConnFailed conn_error
  | LogNewConn nat
  | LogConnClosed conn_error
  | LogStreamError echo_error
  | LogTaskPanic

text \<open>The connection task's suspension points: the handshake, then \<open>accept_bi\<close>.\<close>

datatype conn_pc = ConnHandshaking incoming | ConnAccepting quic_conn | ConnDone

definition conn_task_step :: "conn_pc \<Rightarrow> (conn_pc \<times> echo_task list \<times> log_entry list) option" where
  "conn_task_step c =
     (case c of
        ConnHandshaking (Inl e) \<Rightarrow> Some (ConnDone, [], [LogConnFailed e])
      | ConnHandshaking (Inr qc) \<Rightarrow> Some (ConnAccepting qc, [], [LogNewConn (qc_remote qc)])
      | ConnAccepting qc \<Rightarrow>
          (case accept_bi qc of
             (Inl e, _) \<Rightarrow> Some (ConnDone, [], [LogConnClosed e])
           | (Inr (send, recv), qc') \<Rightarrow> Some (ConnAccepting qc', [echo_task_init send recv], []))
      | ConnDone \<Rightarrow> None)"

text \<open>How a stream task's failure is reported: a returned error by its
  \<open>eprintln!\<close>, a panic by the runtime (tokio's panic hook prints it on stderr
  and the task ends without reaching \<open>if let Err\<close>).\<close>

fun echo_report :: "echo_error \<Rightarrow> log_entry" where
  "echo_report EchoPanic = LogTaskPanic"
| "echo_report e = LogStreamError e"

text \<open>The spawned stream task: the echo, and the report of its failure at the end.\<close>

definition stream_task_step :: "echo_task \<Rightarrow> (echo_task \<times> log_entry list) option" where
  "stream_task_step t =
     (case echo_task_step t of
        None \<Rightarrow> None
      | Some t' \<Rightarrow> Some (t', (case et_pc t' of EchoDone (Inl e) \<Rightarrow> [echo_report e] | _ \<Rightarrow> [])))"

datatype task = ConnTask conn_pc | StreamTask echo_task

fun task_step :: "task \<Rightarrow> (task \<times> task list \<times> log_entry list) option" where
  "task_step (ConnTask c) =
     (case conn_task_step c of
        None \<Rightarrow> None
      | Some (c', new, logs) \<Rightarrow> Some (ConnTask c', map StreamTask new, logs))"
| "task_step (StreamTask t) =
     (case stream_task_step t of
        None \<Rightarrow> None
      | Some (t', logs) \<Rightarrow> Some (StreamTask t', [], logs))"

text \<open>
  The process: the runtime shape of theory \<open>Runtime\<close>, where the accept loop
  spawns a connection task for each incoming attempt and tasks resume by
  \<open>task_step\<close>. The initial state is the one after the endpoint is bound and the
  listening line is printed.
\<close>

definition quic_spawn :: "incoming \<Rightarrow> task" where
  "quic_spawn c = ConnTask (ConnHandshaking c)"

type_synonym quic_server = "(incoming, task, log_entry) runtime"

definition quic_server_init :: "incoming list \<Rightarrow> quic_server" where
  "quic_server_init conns = rt_init LogListening conns"

abbreviation quic_server_step :: "sched \<Rightarrow> quic_server \<Rightarrow> quic_server option" where
  "quic_server_step \<equiv> rt_step quic_spawn task_step"

abbreviation quic_reach :: "quic_server \<Rightarrow> quic_server \<Rightarrow> bool" where
  "quic_reach \<equiv> rt_reach quic_spawn task_step"

abbreviation quic_server_run :: "sched list \<Rightarrow> quic_server \<Rightarrow> quic_server option" where
  "quic_server_run \<equiv> rt_run quic_spawn task_step"

text \<open>A concrete peer for the scenarios: a connection from address \<open>a\<close> opening one
  stream per list of segments, each with a fresh send half and a FIN.\<close>

definition demo_conn :: "nat \<Rightarrow> string list list \<Rightarrow> quic_conn" where
  "demo_conn a streams =
     \<lparr>qc_remote = a, qc_streams = map (\<lambda>segs. (fresh_send, peer_sends segs PeerFin)) streams,
      qc_close = ApplicationClosed 0\<rparr>"

definition demo_three :: "incoming list" where
  "demo_three = [Inr (demo_conn 1 [[''A''], [''BB''], [''CCC'']])]"

text \<open>A schedule for it: the listener, the connection task through its handshake
  and three accepts, then the three stream tasks in the reverse of their accept
  order.\<close>

definition demo_three_sched :: "sched list" where
  "demo_three_sched =
     [RunListener, RunTask 0, RunTask 0, RunTask 0, RunTask 0,
      RunTask 3, RunTask 3, RunTask 3, RunTask 2, RunTask 2, RunTask 2, RunTask 1, RunTask 1, RunTask 1]"

subsection \<open>The invariant: every task comes from the peer's data\<close>

definition stream_origin :: "incoming list \<Rightarrow> send_stream \<Rightarrow> recv_stream \<Rightarrow> bool" where
  "stream_origin conns send recv \<longleftrightarrow> (\<exists>qc. Inr qc \<in> set conns \<and> (send, recv) \<in> set (qc_streams qc))"

fun task_inv :: "incoming list \<Rightarrow> task \<Rightarrow> bool" where
  "task_inv conns (ConnTask (ConnHandshaking x)) = (x \<in> set conns)"
| "task_inv conns (ConnTask (ConnAccepting qc)) =
     (\<forall>st \<in> set (qc_streams qc). stream_origin conns (fst st) (snd st))"
| "task_inv conns (ConnTask ConnDone) = True"
| "task_inv conns (StreamTask t) =
     (echo_task_wf t \<and>
      (\<exists>send recv. stream_origin conns send recv \<and> echo_task_result t = echo_stream send recv))"

text \<open>The streams an attempt's peer will open, and those a connection task has
  still to accept: what each attempt and each connection task will still spawn.\<close>

definition conn_streams :: "incoming \<Rightarrow> nat" where
  "conn_streams x = (case x of Inl _ \<Rightarrow> 0 | Inr qc \<Rightarrow> length (qc_streams qc))"

fun task_pending :: "task \<Rightarrow> nat" where
  "task_pending (ConnTask (ConnHandshaking x)) = conn_streams x"
| "task_pending (ConnTask (ConnAccepting qc)) = length (qc_streams qc)"
| "task_pending _ = 0"

subsection \<open>Facts about the steps\<close>

lemma conn_task_step_inv:
  assumes "task_inv conns (ConnTask c)" and "conn_task_step c = Some (c', new, logs)"
  shows "task_inv conns (ConnTask c') \<and> (\<forall>t \<in> set new. task_inv conns (StreamTask t))"
proof (cases c)
  case (ConnHandshaking x)
  with assms show ?thesis
    by (cases x) (auto simp: conn_task_step_def stream_origin_def)
next
  case (ConnAccepting qc)
  show ?thesis
  proof (cases "qc_streams qc")
    case Nil
    with assms ConnAccepting show ?thesis
      by (auto simp: conn_task_step_def accept_bi_def)
  next
    case (Cons st rest)
    obtain send recv where st: "st = (send, recv)" by (cases st)
    with assms ConnAccepting Cons have
      c': "c' = ConnAccepting (qc\<lparr>qc_streams := rest\<rparr>)" and
      new: "new = [echo_task_init send recv]"
      by (auto simp: conn_task_step_def accept_bi_def)
    have o: "stream_origin conns send recv" and r: "\<forall>st \<in> set rest. stream_origin conns (fst st) (snd st)"
      using assms(1) ConnAccepting Cons st by auto
    have "task_inv conns (StreamTask (echo_task_init send recv))"
      using o by (auto simp: echo_task_init_result echo_task_init_wf)
    with c' new r show ?thesis by simp
  qed
next
  case ConnDone
  with assms show ?thesis by (simp add: conn_task_step_def)
qed

lemma stream_task_step_Some:
  "stream_task_step t = Some (t', logs) \<Longrightarrow> echo_task_step t = Some t'"
  by (auto simp: stream_task_step_def split: option.splits)

lemma task_step_inv:
  assumes "task_inv conns t" and "task_step t = Some (t', new, logs)"
  shows "task_inv conns t' \<and> (\<forall>n \<in> set new. task_inv conns n)"
proof (cases t)
  case (ConnTask c)
  with assms obtain c' es where
    cs: "conn_task_step c = Some (c', es, logs)" and t': "t' = ConnTask c'" and new: "new = map StreamTask es"
    by (auto split: option.splits prod.splits)
  from conn_task_step_inv [OF _ cs] assms(1) ConnTask t' new show ?thesis by auto
next
  case (StreamTask e)
  with assms obtain e' where e': "stream_task_step e = Some (e', logs)" "t' = StreamTask e'" "new = []"
    by (auto split: option.splits prod.splits)
  then have step: "echo_task_step e = Some e'" by (simp add: stream_task_step_Some)
  have "echo_task_result e' = echo_task_result e"
    using step by (simp add: echo_task_step_result)
  moreover have "echo_task_wf e'" using assms(1) StreamTask echo_task_step_wf [OF _ step] by simp
  ultimately show ?thesis using assms StreamTask e' by auto
qed

lemma quic_reach_inv:
  assumes "quic_reach (quic_server_init conns) s"
  shows "\<forall>t \<in> set (rt_tasks s). task_inv conns t"
  using rt_reach_tasks [where T = "task_inv conns", OF _ task_step_inv assms [unfolded quic_server_init_def]]
  by (simp add: quic_spawn_def)

lemma echo_report_panic:
  "echo_report e = LogTaskPanic \<longleftrightarrow> e = EchoPanic" "LogTaskPanic = echo_report e \<longleftrightarrow> e = EchoPanic"
  by (cases e; simp)+

text \<open>No step of a task satisfying the invariant reports a panic.\<close>

lemma task_step_no_panic:
  assumes "task_inv conns t" and "task_step t = Some (t', new, logs)"
  shows "set logs \<subseteq> {l. l \<noteq> LogTaskPanic}"
proof (cases t)
  case (ConnTask c)
  with assms show ?thesis
    by (auto simp: conn_task_step_def accept_bi_def split: option.splits prod.splits conn_pc.splits
        sum.splits list.splits)
next
  case (StreamTask e)
  with assms obtain e' where e': "stream_task_step e = Some (e', logs)"
    by (auto split: option.splits prod.splits)
  then have step: "echo_task_step e = Some e'" by (simp add: stream_task_step_Some)
  have "echo_task_wf e'" using assms(1) StreamTask echo_task_step_wf [OF _ step] by simp
  then have "et_pc e' \<noteq> EchoDone (Inl EchoPanic)" by (auto simp: echo_task_wf_def)
  with e' step show ?thesis
    by (auto simp: stream_task_step_def echo_report_panic split: echo_pc.splits sum.splits)
qed

text \<open>Every step moves one unit of pending work into each task it spawns.\<close>

lemma task_step_potential:
  assumes "task_step t = Some (t', new, logs)"
  shows "task_pending t' + length new + sum_list (map task_pending new) = task_pending t"
  using assms
  by (cases t) (auto simp: conn_task_step_def accept_bi_def stream_task_step_def conn_streams_def
      split: conn_pc.splits sum.splits list.splits option.splits prod.splits)

subsection \<open>Frame facts\<close>

lemmas quic_eval = demo_three_def demo_three_sched_def quic_server_init_def quic_spawn_def rt_eval
  demo_conn_def conn_task_step_def accept_bi_def stream_task_step_def echo_task_init_def echo_task_step_def
  recv_read_def peer_sends_def fresh_send_def send_write_all_def send_finish_def echo_buf_size_def
  sent_bytes_def bytes_of_def slice_to_def

text \<open>A stream task spawns nothing: its echo steps are steps of the task alone.\<close>

lemma echo_steps_solo:
  "echo_steps t t' \<Longrightarrow> solo_steps task_step (StreamTask t) (StreamTask t')"
  unfolding echo_steps_def solo_steps_def
proof (induction rule: rtranclp_induct)
  case (step u u')
  then have "\<exists>logs. task_step (StreamTask u) = Some (StreamTask u', [], logs)"
    by (simp add: stream_task_step_def)
  with step.IH show ?case by (blast intro: rtranclp.rtrancl_into_rtrancl)
qed simp

lemma done_stream_result:
  assumes "quic_reach (quic_server_init conns) s" and "StreamTask t \<in> set (rt_tasks s)"
    and "et_pc t = EchoDone r"
  shows "\<exists>send recv. stream_origin conns send recv \<and> echo_stream send recv = Some (r, et_send t, et_recv t)"
proof -
  have "task_inv conns (StreamTask t)"
    using quic_reach_inv [OF assms(1)] assms(2) by blast
  then obtain send recv where "stream_origin conns send recv" "echo_task_result t = echo_stream send recv"
    by auto
  with assms(3) show ?thesis by (auto simp: echo_task_result_def)
qed

text \<open>The concrete run of the three-stream scenario: all three stream tasks end
  with \<open>Ok\<close>.\<close>

lemma demo_three_run:
  "\<exists>s t1 t2 t3. quic_server_run demo_three_sched (quic_server_init demo_three) = Some s \<and>
     rt_running s \<and> length (rt_tasks s) = 4 \<and>
     rt_tasks s ! 1 = StreamTask t1 \<and> et_pc t1 = EchoDone (Inr ()) \<and>
     rt_tasks s ! 2 = StreamTask t2 \<and> et_pc t2 = EchoDone (Inr ()) \<and>
     rt_tasks s ! 3 = StreamTask t3 \<and> et_pc t3 = EchoDone (Inr ())"
  by (simp add: quic_eval)

subsection \<open>Properties of the QUIC server\<close>

theorem quic_listener_accepts_all_witness:
  "quic_server_run (replicate 2 RunListener) (quic_server_init [Inl TimedOut, Inr (demo_conn 1 [])]) =
     Some ((quic_server_init [Inl TimedOut, Inr (demo_conn 1 [])])\<lparr>rt_incoming := [],
        rt_tasks := [ConnTask (ConnHandshaking (Inl TimedOut)), ConnTask (ConnHandshaking (Inr (demo_conn 1 [])))]\<rparr>)"
  using rt_listener_accepts_all [of "quic_server_init [Inl TimedOut, Inr (demo_conn 1 [])]" quic_spawn task_step]
  by (simp add: quic_server_init_def rt_init_def quic_spawn_def numeral_2_eq_2)

text \<open>
  C11. Interleaving does not matter: in every state reachable under any
  schedule, a stream task that has finished computed exactly the reference echo
  (\<open>echo_ref\<close>) of a stream that a peer opened on one of the connections.
\<close>

theorem quic_stream_outcome:
  assumes "quic_reach (quic_server_init conns) s" and "StreamTask t \<in> set (rt_tasks s)"
    and "et_pc t = EchoDone r"
  shows "\<exists>send recv. stream_origin conns send recv \<and> (r, et_send t) = echo_ref recv send"
proof -
  obtain send recv where o: "stream_origin conns send recv"
    and e: "echo_stream send recv = Some (r, et_send t, et_recv t)"
    using done_stream_result [OF assms] by blast
  from echo_stream_ref [of send recv] e have "(r, et_send t) = echo_ref recv send" by auto
  with o show ?thesis by blast
qed


theorem quic_stream_outcome_witness:
  "\<exists>s t. quic_reach (quic_server_init demo_three) s \<and> StreamTask t \<in> set (rt_tasks s) \<and>
     et_pc t = EchoDone (Inr ()) \<and>
     (\<exists>send recv. stream_origin demo_three send recv \<and> (Inr (), et_send t) = echo_ref recv send)"
proof -
  obtain s t where run: "quic_server_run demo_three_sched (quic_server_init demo_three) = Some s"
    and len: "length (rt_tasks s) = 4" and t: "rt_tasks s ! 1 = StreamTask t" "et_pc t = EchoDone (Inr ())"
    using demo_three_run by blast
  have reach: "quic_reach (quic_server_init demo_three) s" by (rule rt_run_reach [OF run])
  have mem: "StreamTask t \<in> set (rt_tasks s)" using len t(1) nth_mem [of 1 "rt_tasks s"] by simp
  show ?thesis using quic_stream_outcome [OF reach mem t(2)] reach mem t(2) by blast
qed

text \<open>
  C12. Liveness of streams: in every reachable state of the running process, a
  spawned stream task can always be driven to its end by the scheduler, however
  the other tasks have behaved.
\<close>

theorem quic_stream_completes:
  assumes "quic_reach (quic_server_init conns) s" and "rt_running s"
    and "i < length (rt_tasks s)" and "rt_tasks s ! i = StreamTask t"
  shows "\<exists>s' t'. quic_reach s s' \<and> rt_tasks s' ! i = StreamTask t' \<and> echo_done t'"
proof -
  have "task_inv conns (StreamTask t)"
    using quic_reach_inv [OF assms(1)] assms(3,4) nth_mem [OF assms(3)] by metis
  then have "0 < length (et_buf t)" by (auto dest: echo_task_wf_buf_pos)
  from echo_task_reaches_done [OF this] obtain t' where "echo_steps t t'" "echo_done t'" by blast
  from rt_reach_solo [OF echo_steps_solo [OF this(1)] assms(2-4)] \<open>echo_done t'\<close> show ?thesis by blast
qed

theorem quic_stream_completes_witness:
  "\<exists>s' t'. quic_reach (the (quic_server_run (take 5 demo_three_sched) (quic_server_init demo_three))) s' \<and>
     rt_tasks s' ! 1 = StreamTask t' \<and> echo_done t'"
proof -
  let ?s = "the (quic_server_run (take 5 demo_three_sched) (quic_server_init demo_three))"
  have run: "quic_server_run (take 5 demo_three_sched) (quic_server_init demo_three) = Some ?s"
    by (simp add: quic_eval)
  have h: "rt_running ?s" "1 < length (rt_tasks ?s)"
      "rt_tasks ?s ! 1 = StreamTask (echo_task_init fresh_send (peer_sends [''A''] PeerFin))"
    by (simp_all add: quic_eval del: echo_task_init_def)
  show ?thesis using quic_stream_completes [OF rt_run_reach [OF run] h] .
qed

text \<open>
  C13. The echo of every stream under every schedule (spec section 8, the
  three-stream scenario generalised): when every stream the peers open sends its
  data and a FIN to a healthy send half, then in any reachable state every
  finished stream task returned \<open>Ok\<close>, finished its send half, and sent back
  exactly the bytes of one of the peers' streams, whatever the order in which the
  streams were accepted and the tasks interleaved.
\<close>

theorem quic_echo_any_schedule:
  assumes "quic_reach (quic_server_init conns) s" and "StreamTask t \<in> set (rt_tasks s)"
    and "echo_done t"
    and "\<forall>qc. Inr qc \<in> set conns \<longrightarrow> (\<forall>st \<in> set (qc_streams qc). healthy_send (fst st) \<and> rs_end (snd st) = PeerFin)"
  shows "et_pc t = EchoDone (Inr ()) \<and> ss_finished (et_send t) \<and>
         (\<exists>send recv. stream_origin conns send recv \<and>
            sent_bytes (et_send t) = sent_bytes send @ concat (rs_segments recv))"
proof -
  obtain r where r: "et_pc t = EchoDone r"
    using assms(3) by (auto simp: echo_done_def split: echo_pc.splits)
  obtain send recv where o: "stream_origin conns send recv"
    and e: "echo_stream send recv = Some (r, et_send t, et_recv t)"
    using done_stream_result [OF assms(1,2) r] by blast
  obtain qc where qc: "Inr qc \<in> set conns" "(send, recv) \<in> set (qc_streams qc)"
    using o by (auto simp: stream_origin_def)
  have "healthy_send (fst (send, recv)) \<and> rs_end (snd (send, recv)) = PeerFin"
    using assms(4) qc by blast
  then have "healthy_send send" "rs_end recv = PeerFin" by simp_all
  with echo_stream_healthy [of send recv] e r o show ?thesis
    by (auto simp: sent_bytes_def)
qed

theorem quic_echo_any_schedule_witness:
  "\<exists>s t. quic_reach (quic_server_init demo_three) s \<and> StreamTask t \<in> set (rt_tasks s) \<and> echo_done t \<and>
     ss_finished (et_send t) \<and>
     (\<exists>send recv. stream_origin demo_three send recv \<and>
        sent_bytes (et_send t) = sent_bytes send @ concat (rs_segments recv))"
proof -
  obtain s t where run: "quic_server_run demo_three_sched (quic_server_init demo_three) = Some s"
    and len: "length (rt_tasks s) = 4" and t: "rt_tasks s ! 3 = StreamTask t" "et_pc t = EchoDone (Inr ())"
    using demo_three_run by blast
  have reach: "quic_reach (quic_server_init demo_three) s" by (rule rt_run_reach [OF run])
  have mem: "StreamTask t \<in> set (rt_tasks s)" using len t(1) nth_mem [of 3 "rt_tasks s"] by simp
  have d: "echo_done t" using t(2) by (simp add: echo_done_def)
  have h: "\<forall>qc. Inr qc \<in> set demo_three \<longrightarrow>
      (\<forall>st \<in> set (qc_streams qc). healthy_send (fst st) \<and> rs_end (snd st) = PeerFin)"
    by (auto simp: demo_three_def demo_conn_def healthy_send_def fresh_send_def peer_sends_def)
  show ?thesis using quic_echo_any_schedule [OF reach mem d h] reach mem d by blast
qed

text \<open>
  A failed handshake is contained (spec section 8): the connection task of
  an attempt whose handshake fails reports it and ends without accepting any
  stream, and the next attempt is still accepted, handshaken and served: its
  stream is echoed and finished.
\<close>

lemma quic_handshake_failure_contained:
  "case quic_server_run [RunListener, RunListener, RunTask 0, RunTask 1, RunTask 1, RunTask 2, RunTask 2, RunTask 2]
          (quic_server_init [Inl TimedOut, Inr (demo_conn 1 [[''hi'']])]) of
     None \<Rightarrow> False
   | Some s \<Rightarrow> rt_tasks s ! 0 = ConnTask ConnDone \<and> LogConnFailed TimedOut \<in> set (rt_log s) \<and>
       (case rt_tasks s ! 2 of
          StreamTask t \<Rightarrow> et_pc t = EchoDone (Inr ()) \<and> ss_finished (et_send t) \<and>
                          sent_bytes (et_send t) = bytes_of ''hi''
        | _ \<Rightarrow> False)"
  by (simp add: quic_eval)

text \<open>
  A failed stream is contained (the scenario of spec section 8): on one
  connection, a stream whose peer resets it after one byte ends with the read
  error, which is logged, while a sibling stream on the same connection
  completes its echo.
\<close>

lemma quic_stream_failure_contained:
  "case quic_server_run [RunListener, RunTask 0, RunTask 0, RunTask 0,
          RunTask 1, RunTask 1, RunTask 1, RunTask 2, RunTask 2, RunTask 2]
          (quic_server_init [Inr \<lparr>qc_remote = 1,
             qc_streams = [(fresh_send, peer_sends [''A''] (PeerAbort (ReadReset 3))),
                           (fresh_send, peer_sends [''BB''] PeerFin)],
             qc_close = ApplicationClosed 0\<rparr>]) of
     None \<Rightarrow> False
   | Some s \<Rightarrow> LogStreamError (EchoRead (ReadReset 3)) \<in> set (rt_log s) \<and>
       (case rt_tasks s ! 1 of
          StreamTask t \<Rightarrow> et_pc t = EchoDone (Inl (EchoRead (ReadReset 3))) \<and> \<not> ss_finished (et_send t)
        | _ \<Rightarrow> False) \<and>
       (case rt_tasks s ! 2 of
          StreamTask t \<Rightarrow> et_pc t = EchoDone (Inr ()) \<and> ss_finished (et_send t) \<and>
                          sent_bytes (et_send t) = bytes_of ''BB''
        | _ \<Rightarrow> False)"
  by (simp add: quic_eval)

text \<open>
  Shutdown abandons in-flight streams (spec section 5, a known gap): when
  the endpoint yields no more attempts, \<open>main\<close> returns and no task runs again,
  so a stream accepted but not yet echoed is never echoed nor finished.
\<close>

lemma quic_shutdown_abandons_streams:
  "case quic_server_run [RunListener, RunTask 0, RunTask 0, RunListener]
          (quic_server_init [Inr (demo_conn 1 [[''A'']])]) of
     None \<Rightarrow> False
   | Some s \<Rightarrow> \<not> rt_running s \<and> (\<forall>c. quic_server_step c s = None) \<and>
       (case rt_tasks s ! 1 of
          StreamTask t \<Rightarrow> \<not> echo_done t \<and> \<not> ss_finished (et_send t)
        | _ \<Rightarrow> False)"
  by (simp add: quic_eval echo_done_def rt_stopped)


text \<open>
  C31. The stream tasks are well typed in every reachable state: each holds the
  4096-byte buffer of \<open>[0u8; 4096]\<close>, a pending write of at most that many
  bytes, and has not panicked; every step keeps this, because a read never
  returns more than the buffer holds, so the slice \<open>&buf[..n]\<close> of the code
  never panics and the log never reports a panicked task, under any schedule.
\<close>

theorem quic_stream_tasks_well_formed:
  assumes "quic_reach (quic_server_init conns) s"
  shows "(\<forall>t. StreamTask t \<in> set (rt_tasks s) \<longrightarrow> echo_task_wf t) \<and> LogTaskPanic \<notin> set (rt_log s)"
proof
  show "\<forall>t. StreamTask t \<in> set (rt_tasks s) \<longrightarrow> echo_task_wf t"
    using quic_reach_inv [OF assms] by fastforce
  have "set (rt_log s) \<subseteq> {l. l \<noteq> LogTaskPanic}"
    using rt_reach_log [where T = "task_inv conns", OF _ task_step_inv task_step_no_panic _
        assms [unfolded quic_server_init_def]]
    by (simp add: quic_spawn_def)
  then show "LogTaskPanic \<notin> set (rt_log s)" by blast
qed

theorem quic_stream_tasks_well_formed_witness:
  "(case rt_tasks (the (quic_server_run demo_three_sched (quic_server_init demo_three))) ! 1 of
      StreamTask t \<Rightarrow> echo_task_wf t | ConnTask _ \<Rightarrow> False) \<and>
   LogTaskPanic \<notin> set (rt_log (the (quic_server_run demo_three_sched (quic_server_init demo_three))))"
proof -
  obtain s t1 t2 t3 where run: "quic_server_run demo_three_sched (quic_server_init demo_three) = Some s"
    and len: "length (rt_tasks s) = 4" and t1: "rt_tasks s ! 1 = StreamTask t1"
    using demo_three_run by blast
  have mem: "StreamTask t1 \<in> set (rt_tasks s)" using len t1 nth_mem [of 1 "rt_tasks s"] by simp
  from quic_stream_tasks_well_formed [OF rt_run_reach [OF run]] mem t1 run show ?thesis by simp
qed


text \<open>
  C14. The tasks track the peers' demand (spec section 5: unbounded by design,
  but never amplified): in every reachable state the server runs at most one
  task per connection attempt plus one per stream the peers open, and exactly
  that many once every attempt and every stream has been accepted.
\<close>

theorem quic_task_accounting:
  assumes "quic_reach (quic_server_init conns) s"
  shows "length (rt_tasks s) \<le> length conns + sum_list (map conn_streams conns) \<and>
    (rt_incoming s = [] \<and> (\<forall>t \<in> set (rt_tasks s). task_pending t = 0) \<longrightarrow>
       length (rt_tasks s) = length conns + sum_list (map conn_streams conns))"
proof -
  have "length (rt_tasks s) + sum_list (map (\<lambda>x. Suc (conn_streams x)) (rt_incoming s)) +
        sum_list (map task_pending (rt_tasks s)) = sum_list (map (\<lambda>x. Suc (conn_streams x)) conns)"
    using rt_reach_potential [where P = task_pending and B = "\<lambda>x. Suc (conn_streams x)",
        OF _ task_step_potential assms [unfolded quic_server_init_def]]
    by (simp add: quic_spawn_def)
  then have eq: "length (rt_tasks s) + length (rt_incoming s) + sum_list (map conn_streams (rt_incoming s)) +
        sum_list (map task_pending (rt_tasks s)) = length conns + sum_list (map conn_streams conns)"
    by (simp add: sum_list_map_Suc)
  show ?thesis
  proof
    show "length (rt_tasks s) \<le> length conns + sum_list (map conn_streams conns)" using eq by linarith
    show "rt_incoming s = [] \<and> (\<forall>t \<in> set (rt_tasks s). task_pending t = 0) \<longrightarrow>
        length (rt_tasks s) = length conns + sum_list (map conn_streams conns)"
    proof
      assume a: "rt_incoming s = [] \<and> (\<forall>t \<in> set (rt_tasks s). task_pending t = 0)"
      then have "sum_list (map task_pending (rt_tasks s)) = 0" by (simp add: sum_list_eq_0_iff)
      with eq a show "length (rt_tasks s) = length conns + sum_list (map conn_streams conns)" by simp
    qed
  qed
qed

theorem quic_task_accounting_witness:
  "length (rt_tasks (the (quic_server_run demo_three_sched (quic_server_init demo_three)))) = 4 \<and>
   length (rt_tasks (the (quic_server_run demo_three_sched (quic_server_init demo_three)))) =
     length demo_three + sum_list (map conn_streams demo_three)"
proof -
  obtain s where run: "quic_server_run demo_three_sched (quic_server_init demo_three) = Some s"
    and len: "length (rt_tasks s) = 4"
    using demo_three_run by blast
  have s: "s = the (quic_server_run demo_three_sched (quic_server_init demo_three))" using run by simp
  have all: "rt_incoming s = [] \<and> (\<forall>t \<in> set (rt_tasks s). task_pending t = 0)"
    unfolding s by (simp add: quic_eval conn_streams_def)
  from quic_task_accounting [OF rt_run_reach [OF run]] all run len show ?thesis by simp
qed

end
