(* ===== verification/H3Server.thy ===== *)
theory H3Server
  imports Runtime Transport
begin

text \<open>
  The HTTP/3 server, \<open>src/bin/servers/h3_quinn_server.rs\<close>. Its \<open>main\<close> has the
  runtime shape of theory \<open>Runtime\<close>: the accept loop spawns one connection task
  per attempt. The connection task awaits the QUIC handshake, wraps the
  connection and awaits the HTTP/3 setup (\<open>h3::server::Connection::new\<close>),
  then loops on \<open>h3.accept()\<close>: a request resolver is spawned as a request task,
  \<open>Ok(None)\<close> ends the loop quietly, an error is reported and ends the task. The
  request task runs \<open>handle_request\<close>: resolve the request, print its method and
  URI, build a 200 response, send it, send one body chunk, finish; every call is
  followed by \<open>?\<close>.
  The h3 and http crates are external. A request stream is modelled by the
  frames it has sent (headers, data, the end of the stream) and the point after
  which it fails (the peer resetting it or stopping it with STOP_SENDING, the
  connection going away), where after a stop the finish still succeeds; a
  connection by the resolvers \<open>accept\<close> yields and how the loop ends.
\<close>

subsection \<open>The external HTTP/3 interface\<close>

datatype h3_error = H3ConnLost conn_error | H3StreamReset nat | H3StreamStopped nat | H3ProtocolError nat

text \<open>The failures after which a finish still succeeds: a peer that stopped reading
  (STOP_SENDING) makes every later frame fail, but quinn 0.11's
  \<open>SendStream::finish\<close> treats finishing a stopped stream as harmless and returns
  \<open>Ok\<close>. A reset or a lost connection fails the finish too.\<close>

fun h3_finish_survives :: "h3_error \<Rightarrow> bool" where
  "h3_finish_survives (H3StreamStopped _) = True"
| "h3_finish_survives _ = False"

record request_head =
  rq_method :: string
  rq_uri :: string

record response_head =
  rp_status :: nat

datatype http_error = InvalidStatusCode nat

datatype h3_frame = FHeaders response_head | FData bytes | FFin

text \<open>
  The server's side of a request stream: the frames sent so far and, with
  \<open>hs_fail = Some (k, e)\<close>, that the frames after the first \<open>k\<close> fail with
  \<open>e\<close>, and so does the finish unless \<open>e\<close> is one a finish survives.
\<close>

record h3_stream =
  hs_frames :: "h3_frame list"
  hs_fail :: "(nat \<times> h3_error) option"

definition h3_send :: "h3_frame \<Rightarrow> h3_stream \<Rightarrow> (h3_error + unit) \<times> h3_stream" where
  "h3_send f st =
     (case hs_fail st of
        Some (k, e) \<Rightarrow> if k \<le> length (hs_frames st) then (Inl e, st)
                      else (Inr (), st\<lparr>hs_frames := hs_frames st @ [f]\<rparr>)
      | None \<Rightarrow> (Inr (), st\<lparr>hs_frames := hs_frames st @ [f]\<rparr>))"

text \<open>\<open>send_response\<close>, \<open>send_data\<close> and \<open>finish\<close> of \<open>RequestStream\<close>.\<close>

definition h3_send_response :: "response_head \<Rightarrow> h3_stream \<Rightarrow> (h3_error + unit) \<times> h3_stream" where
  "h3_send_response r = h3_send (FHeaders r)"

definition h3_send_data :: "bytes \<Rightarrow> h3_stream \<Rightarrow> (h3_error + unit) \<times> h3_stream" where
  "h3_send_data d = h3_send (FData d)"

definition h3_finish :: "h3_stream \<Rightarrow> (h3_error + unit) \<times> h3_stream" where
  "h3_finish st =
     (case hs_fail st of
        Some (k, e) \<Rightarrow> if k \<le> length (hs_frames st) \<and> \<not> h3_finish_survives e then (Inl e, st)
                      else (Inr (), st\<lparr>hs_frames := hs_frames st @ [FFin]\<rparr>)
      | None \<Rightarrow> (Inr (), st\<lparr>hs_frames := hs_frames st @ [FFin]\<rparr>))"

text \<open>\<open>RequestResolver::resolve_request\<close>: its outcome.\<close>

type_synonym resolver = "h3_error + request_head \<times> h3_stream"

text \<open>\<open>http::Response::builder().status(code).body(())\<close>: a status code is valid
  from 100 to 999.\<close>

definition response_builder :: "nat \<Rightarrow> http_error + response_head" where
  "response_builder code =
     (if 100 \<le> code \<and> code < 1000 then Inr \<lparr>rp_status = code\<rparr> else Inl (InvalidStatusCode code))"

text \<open>An HTTP/3 connection after its setup: the resolvers \<open>h3.accept()\<close> yields,
  then \<open>Ok(None)\<close> (\<open>hc_end = None\<close>) or an error.\<close>

record h3_conn =
  hc_requests :: "resolver list"
  hc_end :: "h3_error option"

definition h3_accept :: "h3_conn \<Rightarrow> (h3_error + resolver option) \<times> h3_conn" where
  "h3_accept hc =
     (case hc_requests hc of
        [] \<Rightarrow> (case hc_end hc of None \<Rightarrow> (Inr None, hc) | Some e \<Rightarrow> (Inl e, hc))
      | r # rs \<Rightarrow> (Inr (Some r), hc\<lparr>hc_requests := rs\<rparr>))"

text \<open>An attempt: the QUIC handshake's outcome, then the peer's address and the
  outcome of the HTTP/3 setup on the connection.\<close>

record h3_peer =
  hp_remote :: nat
  hp_setup :: "h3_error + h3_conn"

type_synonym h3_incoming = "conn_error + h3_peer"

subsection \<open>The request handler\<close>

text \<open>\<open>Box<dyn Error>\<close> of \<open>handle_request\<close>: which call failed.\<close>

datatype req_error = ReqResolve h3_error | ReqHttp http_error | ReqSend h3_error

text \<open>The \<open>println!\<close> / \<open>eprintln!\<close> lines of the server.\<close>

datatype h3_log =
    H3Listening
  | H3ConnFailed conn_error
  | H3NewConn nat
  | H3SetupFailed h3_error
  | H3ConnClosed h3_error
  | H3Request string string
  | H3RequestError req_error

definition hello_body :: bytes where
  "hello_body = bytes_of (''Hello from HTTP/3'' @ [CHR 0x0A])"

definition handle_request :: "resolver \<Rightarrow> (req_error + unit) \<times> h3_stream option \<times> h3_log list" where
  "handle_request res =
     (case res of
        Inl e \<Rightarrow> (Inl (ReqResolve e), None, [])
      | Inr (req, st) \<Rightarrow>
          (let logs = [H3Request (rq_method req) (rq_uri req)] in
           case response_builder 200 of
             Inl e \<Rightarrow> (Inl (ReqHttp e), Some st, logs)
           | Inr resp \<Rightarrow>
               (case h3_send_response resp st of
                  (Inl e, st1) \<Rightarrow> (Inl (ReqSend e), Some st1, logs)
                | (Inr _, st1) \<Rightarrow>
                    (case h3_send_data hello_body st1 of
                       (Inl e, st2) \<Rightarrow> (Inl (ReqSend e), Some st2, logs)
                     | (Inr _, st2) \<Rightarrow>
                         (case h3_finish st2 of
                            (Inl e, st3) \<Rightarrow> (Inl (ReqSend e), Some st3, logs)
                          | (Inr _, st3) \<Rightarrow> (Inr (), Some st3, logs))))))"

text \<open>The frames a successful \<open>handle_request\<close> sends, in order.\<close>

definition h3_reply :: "h3_frame list" where
  "h3_reply = [FHeaders \<lparr>rp_status = 200\<rparr>, FData hello_body, FFin]"

subsection \<open>The tasks\<close>

text \<open>The request task between its await points: \<open>resolve_request\<close> (followed by
  the synchronous print and response build), \<open>send_response\<close>, \<open>send_data\<close>,
  \<open>finish\<close>.\<close>

datatype req_pc =
    ReqResolving resolver
  | ReqResponding response_head h3_stream
  | ReqSendingData h3_stream
  | ReqFinishing h3_stream
  | ReqDone "req_error + unit" "h3_stream option"

text \<open>The connection task: the QUIC handshake, the HTTP/3 setup, the accept loop.\<close>

datatype h3_conn_pc =
    H3Handshaking h3_incoming
  | H3Establishing h3_peer
  | H3Accepting h3_conn
  | H3ConnDone

datatype h3_task = H3ConnTask h3_conn_pc | H3ReqTask req_pc

text \<open>The spawned request task reports the error of \<open>handle_request\<close>.\<close>

definition req_done :: "req_error + unit \<Rightarrow> h3_stream option \<Rightarrow> h3_log list \<Rightarrow> h3_task \<times> h3_task list \<times> h3_log list" where
  "req_done r st logs =
     (H3ReqTask (ReqDone r st), [], logs @ (case r of Inl e \<Rightarrow> [H3RequestError e] | Inr _ \<Rightarrow> []))"

fun h3_task_step :: "(h3_task, h3_log) task_stepper" where
  "h3_task_step (H3ConnTask (H3Handshaking (Inl e))) = Some (H3ConnTask H3ConnDone, [], [H3ConnFailed e])"
| "h3_task_step (H3ConnTask (H3Handshaking (Inr p))) =
     Some (H3ConnTask (H3Establishing p), [], [H3NewConn (hp_remote p)])"
| "h3_task_step (H3ConnTask (H3Establishing p)) =
     (case hp_setup p of
        Inl e \<Rightarrow> Some (H3ConnTask H3ConnDone, [], [H3SetupFailed e])
      | Inr hc \<Rightarrow> Some (H3ConnTask (H3Accepting hc), [], []))"
| "h3_task_step (H3ConnTask (H3Accepting hc)) =
     (case h3_accept hc of
        (Inl e, _) \<Rightarrow> Some (H3ConnTask H3ConnDone, [], [H3ConnClosed e])
      | (Inr None, _) \<Rightarrow> Some (H3ConnTask H3ConnDone, [], [])
      | (Inr (Some r), hc') \<Rightarrow> Some (H3ConnTask (H3Accepting hc'), [H3ReqTask (ReqResolving r)], []))"
| "h3_task_step (H3ConnTask H3ConnDone) = None"
| "h3_task_step (H3ReqTask (ReqResolving res)) =
     (case res of
        Inl e \<Rightarrow> Some (req_done (Inl (ReqResolve e)) None [])
      | Inr (req, st) \<Rightarrow>
          (let logs = [H3Request (rq_method req) (rq_uri req)] in
           case response_builder 200 of
             Inl e \<Rightarrow> Some (req_done (Inl (ReqHttp e)) (Some st) logs)
           | Inr resp \<Rightarrow> Some (H3ReqTask (ReqResponding resp st), [], logs)))"
| "h3_task_step (H3ReqTask (ReqResponding resp st)) =
     (case h3_send_response resp st of
        (Inl e, st1) \<Rightarrow> Some (req_done (Inl (ReqSend e)) (Some st1) [])
      | (Inr _, st1) \<Rightarrow> Some (H3ReqTask (ReqSendingData st1), [], []))"
| "h3_task_step (H3ReqTask (ReqSendingData st)) =
     (case h3_send_data hello_body st of
        (Inl e, st2) \<Rightarrow> Some (req_done (Inl (ReqSend e)) (Some st2) [])
      | (Inr _, st2) \<Rightarrow> Some (H3ReqTask (ReqFinishing st2), [], []))"
| "h3_task_step (H3ReqTask (ReqFinishing st)) =
     (case h3_finish st of
        (Inl e, st3) \<Rightarrow> Some (req_done (Inl (ReqSend e)) (Some st3) [])
      | (Inr _, st3) \<Rightarrow> Some (req_done (Inr ()) (Some st3) []))"
| "h3_task_step (H3ReqTask (ReqDone r st)) = None"

definition h3_spawn :: "h3_incoming \<Rightarrow> h3_task" where
  "h3_spawn x = H3ConnTask (H3Handshaking x)"

type_synonym h3_server = "(h3_incoming, h3_task, h3_log) runtime"

definition h3_server_init :: "h3_incoming list \<Rightarrow> h3_server" where
  "h3_server_init xs = rt_init H3Listening xs"

abbreviation h3_reach :: "h3_server \<Rightarrow> h3_server \<Rightarrow> bool" where
  "h3_reach \<equiv> rt_reach h3_spawn h3_task_step"

abbreviation h3_server_run :: "sched list \<Rightarrow> h3_server \<Rightarrow> h3_server option" where
  "h3_server_run \<equiv> rt_run h3_spawn h3_task_step"

text \<open>What \<open>handle_request\<close> computes from a request task's current state on.\<close>

definition req_outcome :: "(req_error + unit) \<times> h3_stream option \<times> h3_log list \<Rightarrow> (req_error + unit) \<times> h3_stream option" where
  "req_outcome x = (fst x, fst (snd x))"

definition req_after_finish :: "h3_stream \<Rightarrow> (req_error + unit) \<times> h3_stream option" where
  "req_after_finish st =
     (case h3_finish st of
        (Inl e, st3) \<Rightarrow> (Inl (ReqSend e), Some st3)
      | (Inr _, st3) \<Rightarrow> (Inr (), Some st3))"

definition req_after_data :: "h3_stream \<Rightarrow> (req_error + unit) \<times> h3_stream option" where
  "req_after_data st =
     (case h3_send_data hello_body st of
        (Inl e, st2) \<Rightarrow> (Inl (ReqSend e), Some st2)
      | (Inr _, st2) \<Rightarrow> req_after_finish st2)"

definition req_after_response :: "response_head \<Rightarrow> h3_stream \<Rightarrow> (req_error + unit) \<times> h3_stream option" where
  "req_after_response resp st =
     (case h3_send_response resp st of
        (Inl e, st1) \<Rightarrow> (Inl (ReqSend e), Some st1)
      | (Inr _, st1) \<Rightarrow> req_after_data st1)"

fun req_result :: "req_pc \<Rightarrow> (req_error + unit) \<times> h3_stream option" where
  "req_result (ReqResolving res) = req_outcome (handle_request res)"
| "req_result (ReqResponding resp st) = req_after_response resp st"
| "req_result (ReqSendingData st) = req_after_data st"
| "req_result (ReqFinishing st) = req_after_finish st"
| "req_result (ReqDone r st) = (r, st)"

definition req_origin :: "h3_incoming list \<Rightarrow> resolver \<Rightarrow> bool" where
  "req_origin xs res \<longleftrightarrow> (\<exists>p hc. Inr p \<in> set xs \<and> hp_setup p = Inr hc \<and> res \<in> set (hc_requests hc))"

fun h3_task_inv :: "h3_incoming list \<Rightarrow> h3_task \<Rightarrow> bool" where
  "h3_task_inv xs (H3ConnTask (H3Handshaking x)) = (x \<in> set xs)"
| "h3_task_inv xs (H3ConnTask (H3Establishing p)) = (Inr p \<in> set xs)"
| "h3_task_inv xs (H3ConnTask (H3Accepting hc)) = (\<forall>r \<in> set (hc_requests hc). req_origin xs r)"
| "h3_task_inv xs (H3ConnTask H3ConnDone) = True"
| "h3_task_inv xs (H3ReqTask pc) = (\<exists>res. req_origin xs res \<and> req_result pc = req_outcome (handle_request res))"

subsection \<open>Request streams and scenarios\<close>

text \<open>Room for \<open>n\<close> more frames before the stream's failure point.\<close>

definition h3_room :: "nat \<Rightarrow> h3_stream \<Rightarrow> bool" where
  "h3_room n st = (case hs_fail st of None \<Rightarrow> True | Some (k, _) \<Rightarrow> length (hs_frames st) + n \<le> k)"

text \<open>How many of the reply's three operations must come before the failure point
  for all three to succeed, and room for the whole reply.\<close>

definition h3_need :: "h3_error \<Rightarrow> nat" where
  "h3_need e = (if h3_finish_survives e then 2 else 3)"

definition h3_reply_room :: "h3_stream \<Rightarrow> bool" where
  "h3_reply_room st = (case hs_fail st of None \<Rightarrow> True | Some (k, e) \<Rightarrow> length (hs_frames st) + h3_need e \<le> k)"

fun req_rank :: "req_pc \<Rightarrow> nat" where
  "req_rank (ReqResolving _) = 4"
| "req_rank (ReqResponding _ _) = 3"
| "req_rank (ReqSendingData _) = 2"
| "req_rank (ReqFinishing _) = 1"
| "req_rank (ReqDone _ _) = 0"

definition demo_req :: "string \<Rightarrow> string \<Rightarrow> resolver" where
  "demo_req m u = Inr (\<lparr>rq_method = m, rq_uri = u\<rparr>, \<lparr>hs_frames = [], hs_fail = None\<rparr>)"

definition demo_peer :: "nat \<Rightarrow> resolver list \<Rightarrow> h3_incoming" where
  "demo_peer a reqs = Inr \<lparr>hp_remote = a, hp_setup = Inr \<lparr>hc_requests = reqs, hc_end = None\<rparr>\<rparr>"

definition demo_h3 :: "h3_incoming list" where
  "demo_h3 = [demo_peer 1 [demo_req ''GET'' ''/'', demo_req ''GET'' ''/x'']]"

definition demo_h3_sched :: "sched list" where
  "demo_h3_sched = [RunListener, RunTask 0, RunTask 0, RunTask 0, RunTask 0,
     RunTask 1, RunTask 1, RunTask 1, RunTask 1, RunTask 2, RunTask 2, RunTask 2, RunTask 2]"

subsection \<open>Facts about the tasks\<close>

lemmas h3_eval = h3_send_response_def h3_send_data_def h3_finish_def h3_send_def response_builder_def
  req_done_def req_outcome_def req_after_finish_def req_after_data_def
  req_after_response_def

lemma h3_req_step_result:
  assumes "h3_task_step (H3ReqTask pc) = Some (t', new, logs)"
  shows "\<exists>pc'. t' = H3ReqTask pc' \<and> new = [] \<and> req_result pc' = req_result pc"
  using assms
  by (cases pc) (auto simp: handle_request_def h3_eval Let_def split: sum.splits prod.splits)

lemma h3_task_step_inv:
  assumes "h3_task_inv xs t" and "h3_task_step t = Some (t', new, logs)"
  shows "h3_task_inv xs t' \<and> (\<forall>n \<in> set new. h3_task_inv xs n)"
proof (cases t)
  case (H3ReqTask pc)
  with assms h3_req_step_result [of pc t' new logs] show ?thesis by auto
next
  case (H3ConnTask c)
  show ?thesis
  proof (cases c)
    case (H3Handshaking x)
    with assms H3ConnTask show ?thesis by (cases x) auto
  next
    case (H3Establishing p)
    with assms H3ConnTask show ?thesis
      by (auto simp: req_origin_def split: sum.splits) blast
  next
    case (H3Accepting hc)
    show ?thesis
    proof (cases "hc_requests hc")
      case Nil
      with assms H3ConnTask H3Accepting show ?thesis
        by (auto simp: h3_accept_def split: option.splits)
    next
      case (Cons r rs)
      with assms H3ConnTask H3Accepting show ?thesis
        by (auto simp: h3_accept_def)
    qed
  next
    case H3ConnDone
    with assms H3ConnTask show ?thesis by simp
  qed
qed

lemma h3_reach_inv:
  assumes "h3_reach (h3_server_init xs) s"
  shows "\<forall>t \<in> set (rt_tasks s). h3_task_inv xs t"
  using rt_reach_tasks [where T = "h3_task_inv xs", OF _ h3_task_step_inv assms [unfolded h3_server_init_def]]
  by (simp add: h3_spawn_def)

lemmas h3_demo_eval = demo_h3_def demo_h3_sched_def demo_peer_def demo_req_def h3_server_init_def
  h3_spawn_def rt_eval h3_accept_def h3_eval h3_reply_def

lemma h3_room_reply_room: "h3_room 3 st \<Longrightarrow> h3_reply_room st"
  by (auto simp: h3_room_def h3_reply_room_def h3_need_def split: option.splits)

lemma handle_request_room:
  assumes "h3_reply_room st"
  shows "handle_request (Inr (req, st)) =
    (Inr (), Some (st\<lparr>hs_frames := hs_frames st @ h3_reply\<rparr>), [H3Request (rq_method req) (rq_uri req)])"
  using assms
  by (auto simp: h3_reply_room_def h3_need_def handle_request_def h3_send_response_def h3_send_data_def
      h3_finish_def h3_send_def response_builder_def h3_reply_def split: option.splits if_splits)

lemma handle_request_fail:
  assumes "hs_fail st = Some (k, e)" and "k < length (hs_frames st) + h3_need e"
  shows "handle_request (Inr (req, st)) =
    (Inl (ReqSend e), Some (st\<lparr>hs_frames := hs_frames st @ take (k - length (hs_frames st)) h3_reply\<rparr>),
     [H3Request (rq_method req) (rq_uri req)])"
proof -
  have "k \<le> length (hs_frames st) \<or> k = Suc (length (hs_frames st)) \<or>
      (k = Suc (Suc (length (hs_frames st))) \<and> \<not> h3_finish_survives e)"
    using assms(2) unfolding h3_need_def by (cases "h3_finish_survives e") (simp_all, arith+)
  then consider "k \<le> length (hs_frames st)" | "k = Suc (length (hs_frames st))"
    | "k = Suc (Suc (length (hs_frames st)))" "\<not> h3_finish_survives e" by blast
  then show ?thesis
    by cases (simp_all add: assms(1) handle_request_def h3_send_response_def h3_send_data_def
        h3_finish_def h3_send_def response_builder_def h3_reply_def)
qed

lemma h3_no_room:
  "\<not> h3_reply_room st \<Longrightarrow> \<exists>k e. hs_fail st = Some (k, e) \<and> k < length (hs_frames st) + h3_need e"
  by (auto simp: h3_reply_room_def split: option.splits)

lemma h3_req_step_rank:
  "\<not> (\<exists>r st. pc = ReqDone r st) \<Longrightarrow>
     \<exists>pc' logs. h3_task_step (H3ReqTask pc) = Some (H3ReqTask pc', [], logs) \<and> req_rank pc' < req_rank pc"
  by (cases pc) (auto simp: h3_eval Let_def split: sum.splits prod.splits)

lemma h3_req_reaches_done:
  "\<exists>r st. solo_steps h3_task_step (H3ReqTask pc) (H3ReqTask (ReqDone r st))"
proof (induction "req_rank pc" arbitrary: pc rule: less_induct)
  case less
  show ?case
  proof (cases "\<exists>r st. pc = ReqDone r st")
    case True
    then show ?thesis by (auto simp: solo_steps_def)
  next
    case False
    then obtain pc' logs where s: "h3_task_step (H3ReqTask pc) = Some (H3ReqTask pc', [], logs)"
      and lt: "req_rank pc' < req_rank pc" using h3_req_step_rank by blast
    have "(\<lambda>t t'. \<exists>logs. h3_task_step t = Some (t', [], logs)) (H3ReqTask pc) (H3ReqTask pc')"
      using s by blast
    moreover from less [OF lt] obtain r st
      where "solo_steps h3_task_step (H3ReqTask pc') (H3ReqTask (ReqDone r st))" by blast
    ultimately have "solo_steps h3_task_step (H3ReqTask pc) (H3ReqTask (ReqDone r st))"
      unfolding solo_steps_def by (rule converse_rtranclp_into_rtranclp)
    then show ?thesis by blast
  qed
qed

lemma h3_req_steps_result:
  assumes "solo_steps h3_task_step (H3ReqTask pc) t"
  shows "\<exists>pc'. t = H3ReqTask pc' \<and> req_result pc' = req_result pc"
  using assms unfolding solo_steps_def
proof (induction rule: rtranclp_induct)
  case (step y z)
  then obtain pc1 logs where "y = H3ReqTask pc1" "req_result pc1 = req_result pc"
    "h3_task_step (H3ReqTask pc1) = Some (z, [], logs)" by blast
  then show ?case using h3_req_step_result [of pc1 z "[]" logs] by auto
qed simp

lemma demo_req_steps:
  "solo_steps h3_task_step (H3ReqTask (ReqResolving (demo_req ''GET'' ''/'')))
     (H3ReqTask (ReqDone (Inr ()) (Some \<lparr>hs_frames = h3_reply, hs_fail = None\<rparr>)))"
  unfolding solo_steps_def
  apply (rule converse_rtranclp_into_rtranclp, simp add: demo_req_def h3_eval h3_reply_def)
  apply (rule converse_rtranclp_into_rtranclp, simp add: h3_eval h3_reply_def)
  apply (rule converse_rtranclp_into_rtranclp, simp add: h3_eval h3_reply_def)
  apply (rule converse_rtranclp_into_rtranclp, simp add: h3_eval h3_reply_def)
  by (simp add: h3_reply_def)

lemma demo_h3_run:
  "\<exists>s. h3_server_run demo_h3_sched (h3_server_init demo_h3) = Some s \<and> length (rt_tasks s) = 3 \<and>
     rt_tasks s ! 1 = H3ReqTask (ReqDone (Inr ()) (Some \<lparr>hs_frames = h3_reply, hs_fail = None\<rparr>))"
  by (simp add: h3_demo_eval)

subsection \<open>Properties of the request handler\<close>

text \<open>
  C15. The request handler's success (spec section 4.4): on a resolved request
  \<open>handle_request\<close> returns \<open>Ok\<close>, prints the method and URI once and sends
  exactly the 200 headers, the body \<open>Hello from HTTP/3\<close> and the end of the
  stream, if and only if the stream has room for the reply: three more frames,
  or the two frames before a failure the finish survives.
\<close>

theorem handle_request_ok_iff:
  "handle_request (Inr (req, st)) =
     (Inr (), Some (st\<lparr>hs_frames := hs_frames st @ h3_reply\<rparr>), [H3Request (rq_method req) (rq_uri req)])
   \<longleftrightarrow> h3_reply_room st"
proof
  assume ok: "handle_request (Inr (req, st)) =
     (Inr (), Some (st\<lparr>hs_frames := hs_frames st @ h3_reply\<rparr>), [H3Request (rq_method req) (rq_uri req)])"
  show "h3_reply_room st"
  proof (rule ccontr)
    assume "\<not> h3_reply_room st"
    then obtain k e where "hs_fail st = Some (k, e)" "k < length (hs_frames st) + h3_need e"
      using h3_no_room by blast
    from handle_request_fail [OF this, of req] ok show False by simp
  qed
qed (rule handle_request_room)

text \<open>
  C16. A failing send leaves the stream unfinished although it could still be
  finished (spec section 4.4 requires that finishing occur on every exit path):
  when the peer stops reading before the body has gone out, the send fails,
  \<open>handle_request\<close> returns the error through \<open>?\<close> and leaves the stream
  without its end, while a \<open>finish\<close> called at that point would succeed.
\<close>

theorem handle_request_unfinished_on_failure:
  assumes "hs_fail st = Some (k, H3StreamStopped c)" and "k < length (hs_frames st) + 2"
  shows "\<exists>st'. handle_request (Inr (req, st)) =
       (Inl (ReqSend (H3StreamStopped c)), Some st', [H3Request (rq_method req) (rq_uri req)]) \<and>
     prefix (hs_frames st) (hs_frames st') \<and> FFin \<notin> set (drop (length (hs_frames st)) (hs_frames st')) \<and>
     fst (h3_finish st') = Inr ()"
proof -
  have k: "k < length (hs_frames st) + h3_need (H3StreamStopped c)" using assms(2) by (simp add: h3_need_def)
  have "k - length (hs_frames st) < 2" using assms(2) by simp
  then have "FFin \<notin> set (take (k - length (hs_frames st)) h3_reply)"
    by (auto simp: h3_reply_def less_Suc_eq numeral_2_eq_2)
  then show ?thesis using handle_request_fail [OF assms(1) k, of req] assms(1)
    by (simp add: h3_finish_def)
qed

theorem handle_request_unfinished_on_failure_witness:
  "\<exists>st'. handle_request (Inr (\<lparr>rq_method = ''GET'', rq_uri = ''/''\<rparr>,
       \<lparr>hs_frames = [], hs_fail = Some (1, H3StreamStopped 0)\<rparr>)) =
       (Inl (ReqSend (H3StreamStopped 0)), Some st', [H3Request ''GET'' ''/'']) \<and>
     FFin \<notin> set (hs_frames st') \<and> fst (h3_finish st') = Inr ()"
proof -
  have "hs_fail \<lparr>hs_frames = [], hs_fail = Some (1, H3StreamStopped 0)\<rparr> = Some (1, H3StreamStopped 0)"
    "1 < length (hs_frames \<lparr>hs_frames = [], hs_fail = Some (1::nat, H3StreamStopped 0)\<rparr>) + 2" by simp_all
  from handle_request_unfinished_on_failure [OF this, of "\<lparr>rq_method = ''GET'', rq_uri = ''/''\<rparr>"]
  show ?thesis by simp
qed

text \<open>
  C17. The frames of a request stream (spec section 4.4): whatever the outcome,
  \<open>handle_request\<close> appends to the stream a prefix of headers, body, end of
  stream, in this order and each at most once, and it returns \<open>Ok\<close> exactly when
  the whole reply was sent; a stream is only touched after the request resolved.
\<close>

theorem handle_request_frames:
  assumes "handle_request res = (r, Some st', logs)"
  shows "\<exists>req st n. res = Inr (req, st) \<and> n \<le> 3 \<and>
    st' = st\<lparr>hs_frames := hs_frames st @ take n h3_reply\<rparr> \<and> (r = Inr () \<longleftrightarrow> n = 3)"
proof -
  obtain req st where res: "res = Inr (req, st)"
    using assms by (cases res) (auto simp: handle_request_def)
  show ?thesis
  proof (cases "h3_reply_room st")
    case True
    then show ?thesis using assms res handle_request_room [OF True] by (auto simp: h3_reply_def)
  next
    case False
    then obtain k e where f: "hs_fail st = Some (k, e)" "k < length (hs_frames st) + h3_need e"
      using h3_no_room by blast
    have "k - length (hs_frames st) < 3" using f(2) by (simp add: h3_need_def split: if_splits)
    show ?thesis using assms res handle_request_fail [OF f] \<open>k - length (hs_frames st) < 3\<close>
      by (intro exI [of _ req] exI [of _ st] exI [of _ "k - length (hs_frames st)"]) auto
  qed
qed

theorem handle_request_frames_witness:
  "\<exists>req st n. demo_req ''GET'' ''/'' = Inr (req, st) \<and> n \<le> 3 \<and>
     \<lparr>hs_frames = h3_reply, hs_fail = None\<rparr> = st\<lparr>hs_frames := hs_frames st @ take n h3_reply\<rparr> \<and>
     (Inr () = (Inr () :: req_error + unit) \<longleftrightarrow> n = 3)"
proof -
  have "handle_request (demo_req ''GET'' ''/'') =
      (Inr (), Some \<lparr>hs_frames = h3_reply, hs_fail = None\<rparr>, [H3Request ''GET'' ''/''])"
    by (simp add: demo_req_def handle_request_def h3_eval h3_reply_def)
  from handle_request_frames [OF this] show ?thesis .
qed

text \<open>
  The response build never fails: the \<open>?\<close> after
  \<open>Response::builder().status(200).body(())\<close> is dead code, since 200 is a
  valid status; no run of \<open>handle_request\<close> returns an \<open>http\<close> error.
\<close>

lemma handle_request_no_http_error: "fst (handle_request res) \<noteq> Inl (ReqHttp e)"
  by (auto simp: handle_request_def h3_eval Let_def split: sum.splits prod.splits)

text \<open>
  C18. The request task terminates with the handler's result: run alone, a
  spawned request task reaches its end, whatever the resolver and the stream,
  with the result and the stream \<open>handle_request\<close> computes.
\<close>

theorem h3_request_task_terminates:
  "\<exists>st. solo_steps h3_task_step (H3ReqTask (ReqResolving res))
     (H3ReqTask (ReqDone (fst (handle_request res)) (fst (snd (handle_request res)))))"
proof -
  obtain r st where s: "solo_steps h3_task_step (H3ReqTask (ReqResolving res)) (H3ReqTask (ReqDone r st))"
    using h3_req_reaches_done by blast
  from h3_req_steps_result [OF s] have "(r, st) = req_outcome (handle_request res)" by simp
  then show ?thesis using s by (auto simp: req_outcome_def)
qed

text \<open>
  C19. The request task refines \<open>handle_request\<close>: every end the step-wise
  request task reaches, split at its four awaits, is the result and the stream
  of \<open>handle_request\<close> on its resolver.
\<close>

theorem h3_request_task_refines:
  assumes "solo_steps h3_task_step (H3ReqTask (ReqResolving res)) (H3ReqTask (ReqDone r st))"
  shows "(r, st) = req_outcome (handle_request res)"
  using h3_req_steps_result [OF assms] by simp

theorem h3_request_task_refines_witness:
  "(Inr (), Some \<lparr>hs_frames = h3_reply, hs_fail = None\<rparr>) = req_outcome (handle_request (demo_req ''GET'' ''/''))"
  by (rule h3_request_task_refines [OF demo_req_steps])

text \<open>
  C20. Request isolation under any interleaving: in every reachable state of the
  HTTP/3 server, a finished request task holds the result of
  \<open>handle_request\<close> on a request some established connection yielded,
  however the listener, the connection tasks and the other request tasks were
  scheduled.
\<close>

theorem h3_request_outcome:
  assumes "h3_reach (h3_server_init xs) s" and "H3ReqTask (ReqDone r st) \<in> set (rt_tasks s)"
  shows "\<exists>res. req_origin xs res \<and> (r, st) = req_outcome (handle_request res)"
  using h3_reach_inv [OF assms(1)] assms(2) by fastforce

theorem h3_request_outcome_witness:
  "\<exists>res. req_origin demo_h3 res \<and>
     (Inr (), Some \<lparr>hs_frames = h3_reply, hs_fail = None\<rparr>) = req_outcome (handle_request res)"
proof -
  obtain s where run: "h3_server_run demo_h3_sched (h3_server_init demo_h3) = Some s"
    and len: "length (rt_tasks s) = 3"
    and t: "rt_tasks s ! 1 = H3ReqTask (ReqDone (Inr ()) (Some \<lparr>hs_frames = h3_reply, hs_fail = None\<rparr>))"
    using demo_h3_run by blast
  have mem: "H3ReqTask (ReqDone (Inr ()) (Some \<lparr>hs_frames = h3_reply, hs_fail = None\<rparr>)) \<in> set (rt_tasks s)"
    using len t nth_mem [of 1 "rt_tasks s"] by simp
  show ?thesis by (rule h3_request_outcome [OF rt_run_reach [OF run] mem])
qed

text \<open>
  C21. Every request is answered under any schedule (spec section 8, the
  request scenario generalised): when every request the connections yield
  resolves on a stream with room for the reply, every finished request task in
  every reachable state returned \<open>Ok\<close> and its stream ends with exactly the
  headers, the body and the end of the stream.
\<close>

theorem h3_requests_answered:
  assumes "h3_reach (h3_server_init xs) s" and "H3ReqTask (ReqDone r st) \<in> set (rt_tasks s)"
    and "\<forall>res. req_origin xs res \<longrightarrow> (\<exists>req s0. res = Inr (req, s0) \<and> h3_room 3 s0)"
  shows "r = Inr () \<and> (\<exists>s0. st = Some (s0\<lparr>hs_frames := hs_frames s0 @ h3_reply\<rparr>))"
proof -
  obtain res where o: "req_origin xs res" and e: "(r, st) = req_outcome (handle_request res)"
    using h3_reach_inv [OF assms(1)] assms(2) by fastforce
  obtain req s0 where "res = Inr (req, s0)" "h3_room 3 s0" using assms(3) o by blast
  then show ?thesis using e handle_request_room [OF h3_room_reply_room, of s0 req] by (auto simp: req_outcome_def)
qed

theorem h3_requests_answered_witness:
  "Inr () = (Inr () :: req_error + unit) \<and>
     (\<exists>s0. Some \<lparr>hs_frames = h3_reply, hs_fail = None\<rparr> = Some (s0\<lparr>hs_frames := hs_frames s0 @ h3_reply\<rparr>))"
proof -
  obtain s where run: "h3_server_run demo_h3_sched (h3_server_init demo_h3) = Some s"
    and len: "length (rt_tasks s) = 3"
    and t: "rt_tasks s ! 1 = H3ReqTask (ReqDone (Inr ()) (Some \<lparr>hs_frames = h3_reply, hs_fail = None\<rparr>))"
    using demo_h3_run by blast
  have mem: "H3ReqTask (ReqDone (Inr ()) (Some \<lparr>hs_frames = h3_reply, hs_fail = None\<rparr>)) \<in> set (rt_tasks s)"
    using len t nth_mem [of 1 "rt_tasks s"] by simp
  have h: "\<forall>res. req_origin demo_h3 res \<longrightarrow> (\<exists>req s0. res = Inr (req, s0) \<and> h3_room 3 s0)"
    by (auto simp: req_origin_def demo_h3_def demo_peer_def demo_req_def h3_room_def)
  show ?thesis by (rule h3_requests_answered [OF rt_run_reach [OF run] mem h])
qed

text \<open>
  Liveness of requests: in every reachable state of the running server, a
  spawned request task can be driven to its end by the scheduler, however the
  other tasks behaved.
\<close>

lemma h3_request_completes:
  assumes "h3_reach (h3_server_init xs) s" and "rt_running s"
    and "i < length (rt_tasks s)" and "rt_tasks s ! i = H3ReqTask pc"
  shows "\<exists>s' r st. h3_reach s s' \<and> rt_tasks s' ! i = H3ReqTask (ReqDone r st)"
proof -
  obtain r st where "solo_steps h3_task_step (H3ReqTask pc) (H3ReqTask (ReqDone r st))"
    using h3_req_reaches_done by blast
  from rt_reach_solo [OF this assms(2-4)] show ?thesis by blast
qed

text \<open>
  A failed HTTP/3 setup is contained: the connection task of an attempt
  whose \<open>h3::server::Connection::new\<close> fails reports it and ends, and the next
  attempt is established and its request answered with the full reply; its
  connection task then ends quietly on \<open>Ok(None)\<close>.
\<close>

lemma h3_setup_failure_contained:
  "case h3_server_run ([RunListener, RunListener, RunTask 0, RunTask 0, RunTask 1, RunTask 1, RunTask 1]
          @ [RunTask 2, RunTask 2, RunTask 2, RunTask 2, RunTask 1])
          (h3_server_init [Inr \<lparr>hp_remote = 1, hp_setup = Inl (H3ProtocolError 1)\<rparr>,
                           demo_peer 2 [demo_req ''GET'' ''/'']]) of
     None \<Rightarrow> False
   | Some s \<Rightarrow> rt_tasks s ! 0 = H3ConnTask H3ConnDone \<and> rt_tasks s ! 1 = H3ConnTask H3ConnDone \<and>
       rt_log s = [H3Listening, H3NewConn 1, H3SetupFailed (H3ProtocolError 1), H3NewConn 2,
                   H3Request ''GET'' ''/''] \<and>
       rt_tasks s ! 2 = H3ReqTask (ReqDone (Inr ()) (Some \<lparr>hs_frames = h3_reply, hs_fail = None\<rparr>))"
  by (simp add: h3_demo_eval)

end
