(* ===== verification/ServerConfig.thy ===== *)
theory ServerConfig
  imports Tls QuicServer H3Server
begin

text \<open>
  The setup of both QUIC servers: \<open>make_server_config\<close> (quic_server.rs
  lines 64 to 85, and its copy \<open>make_server_config_h3\<close>, h3_quinn_server.rs lines
  94 to 115)
  generates a self-signed certificate for \<open>localhost\<close> and \<open>127.0.0.1\<close> with
  rcgen (an ECDSA P-256 key) and builds a rustls server configuration on it;
  \<open>main\<close> then binds the endpoint. Every \<open>?\<close> is a setup error: it surfaces from
  \<open>main\<close> before anything is printed or accepted. The outcomes of rcgen, of
  \<open>with_single_cert\<close> and of the bind are the environment \<open>setup_env\<close>; the
  parse of the constant address \<open>127.0.0.1:3000\<close> cannot fail and is not a branch.
  The assignment of \<open>TransportConfig::default()\<close> replaces the default transport
  configuration with an equal one and is not modelled.
\<close>

datatype setup_error = CertGenError | TlsConfigError | BindError nat

record setup_env =
  se_rcgen :: "setup_error option"
  se_with_cert :: "setup_error option"
  se_bind :: "setup_error option"

record server_config =
  sc_cert :: certificate
  sc_sig_scheme :: sig_scheme

definition localhost_alt_names :: "string list" where
  "localhost_alt_names = [''localhost'', ''127.0.0.1'']"

definition make_server_config :: "setup_env \<Rightarrow> setup_error + server_config" where
  "make_server_config env =
     (case se_rcgen env of
        Some e \<Rightarrow> Inl e
      | None \<Rightarrow>
          (let cert = \<lparr>cert_names = localhost_alt_names, cert_trusted = False\<rparr> in
           case se_with_cert env of
             Some e \<Rightarrow> Inl e
           | None \<Rightarrow> Inr \<lparr>sc_cert = cert, sc_sig_scheme = ECDSA_NISTP256_SHA256\<rparr>))"

text \<open>The HTTP/3 server's own \<open>make_server_config\<close> (h3_quinn_server.rs lines 94
  to 115), the same code declared again in that binary.\<close>

definition make_server_config_h3 :: "setup_env \<Rightarrow> setup_error + server_config" where
  "make_server_config_h3 env =
     (case se_rcgen env of
        Some e \<Rightarrow> Inl e
      | None \<Rightarrow>
          (let cert = \<lparr>cert_names = localhost_alt_names, cert_trusted = False\<rparr> in
           case se_with_cert env of
             Some e \<Rightarrow> Inl e
           | None \<Rightarrow> Inr \<lparr>sc_cert = cert, sc_sig_scheme = ECDSA_NISTP256_SHA256\<rparr>))"

text \<open>What a server with this configuration presents in a handshake: its
  certificate and a signature made with its own key, so a valid one.\<close>

definition server_hello_of :: "server_config \<Rightarrow> bytes \<Rightarrow> server_hello" where
  "server_hello_of sc t =
     \<lparr>sh_cert = sc_cert sc, sh_transcript = t, sh_sig = \<lparr>dss_scheme = sc_sig_scheme sc, dss_valid = True\<rparr>\<rparr>"

text \<open>\<open>main\<close> up to the accept loop, for each QUIC server: a setup error is returned
  from \<open>main\<close> (a non-zero exit); otherwise the listener starts.\<close>

definition quic_main :: "setup_env \<Rightarrow> incoming list \<Rightarrow> setup_error + quic_server" where
  "quic_main env conns =
     (case make_server_config env of
        Inl e \<Rightarrow> Inl e
      | Inr _ \<Rightarrow> (case se_bind env of Some e \<Rightarrow> Inl e | None \<Rightarrow> Inr (quic_server_init conns)))"

definition h3_main :: "setup_env \<Rightarrow> h3_incoming list \<Rightarrow> setup_error + h3_server" where
  "h3_main env conns =
     (case make_server_config_h3 env of
        Inl e \<Rightarrow> Inl e
      | Inr _ \<Rightarrow> (case se_bind env of Some e \<Rightarrow> Inl e | None \<Rightarrow> Inr (h3_server_init conns)))"

subsection \<open>Facts about the setup\<close>

lemma make_server_config_h3_eq: "make_server_config_h3 = make_server_config"
  by (simp add: fun_eq_iff make_server_config_h3_def make_server_config_def)

lemma make_server_config_Inr:
  "make_server_config env = Inr sc \<Longrightarrow>
   sc = \<lparr>sc_cert = \<lparr>cert_names = localhost_alt_names, cert_trusted = False\<rparr>, sc_sig_scheme = ECDSA_NISTP256_SHA256\<rparr>"
  by (auto simp: make_server_config_def split: option.splits)

end
