(* ===== verification/QuicClient.thy ===== *)
theory QuicClient
  imports Tls
begin

text \<open>
  The QUIC client, \<open>src/bin/clients/quic_client.rs\<close>, and its certificate
  verifier \<open>NoVerify\<close> (the same code is repeated in \<open>h3_quinn_client.rs\<close>).
  \<open>main\<close> is sequential: create the endpoint and the client configuration,
  connect (the TLS 1.3 handshake, in which the verifier judges the server's
  certificate and signature), open one bidirectional stream, write
  \<open>hello over QUIC\<close>, finish, read the reply to its end and print it. Every
  \<open>?\<close> is an \<open>Inl\<close> branch. The network and the server are the environment
  \<open>client_env\<close>: the outcome of the setup, of the handshake up to the server's
  certificate, of \<open>open_bi\<close>, and the reply the server sends on the stream as a
  function of what the client sent on it.
\<close>

subsection \<open>The certificate verifier\<close>

definition NoVerify :: cert_verifier where
  "NoVerify =
     \<lparr>verify_server_cert = (\<lambda>_ _. Inr ()),
      verify_tls12_signature = (\<lambda>_ _ _. Inr ()),
      verify_tls13_signature = (\<lambda>_ _ _. Inr ()),
      supported_verify_schemes = [RSA_PKCS1_SHA256, ECDSA_NISTP256_SHA256, ED25519]\<rparr>"

subsection \<open>Reading a stream to its end\<close>

datatype read_to_end_error = ReadToEndTooLong | ReadToEndRead read_error

text \<open>\<open>RecvStream::read_to_end(limit)\<close>: all the data up to the peer's FIN, or
  \<open>TooLong\<close> once more than \<open>limit\<close> bytes arrived, or the read error that ended
  the stream.\<close>

definition read_to_end :: "nat \<Rightarrow> recv_stream \<Rightarrow> read_to_end_error + bytes" where
  "read_to_end limit rs =
     (if limit < length (concat (rs_segments rs)) then Inl ReadToEndTooLong
      else case rs_end rs of
        PeerFin \<Rightarrow> Inr (concat (rs_segments rs))
      | PeerAbort e \<Rightarrow> Inl (ReadToEndRead e))"

definition usize_max :: nat where
  "usize_max = 2 ^ 64 - 1"

subsection \<open>The client's \<open>main\<close>\<close>

datatype client_setup_error = EndpointBindFailed | NoInitialCipherSuite | InvalidServerName

datatype client_error =
    ClientSetup client_setup_error
  | ClientConnect conn_error
  | ClientOpen conn_error
  | ClientWrite write_error
  | ClientFinish finish_error
  | ClientRead read_to_end_error

datatype client_log = ClConnected | ClResponse bytes

record client_env =
  ce_setup :: "client_setup_error option"
  ce_handshake :: "conn_error + server_hello"
  ce_open :: "conn_error + send_stream"
  ce_reply :: "send_stream \<Rightarrow> recv_stream"

definition quic_client_msg :: bytes where
  "quic_client_msg = bytes_of ''hello over QUIC''"

text \<open>A server that is not the one the client meant to reach: its certificate
  is for another name, chains to no trusted root, and its signature is invalid.\<close>

definition impostor_hello :: server_hello where
  "impostor_hello =
     \<lparr>sh_cert = \<lparr>cert_names = [''evil.example''], cert_trusted = False\<rparr>, sh_transcript = [],
      sh_sig = \<lparr>dss_scheme = ED25519, dss_valid = False\<rparr>\<rparr>"

text \<open>\<open>endpoint.connect(addr, "localhost")?.await?\<close> with the client configuration
  built on a verifier.\<close>

definition client_connect :: "cert_verifier \<Rightarrow> conn_error + server_hello \<Rightarrow> conn_error + unit" where
  "client_connect v hs = (case hs of Inl e \<Rightarrow> Inl e | Inr h \<Rightarrow> tls13_handshake v ''localhost'' h)"

definition quic_client_main :: "client_env \<Rightarrow> (client_error + unit) \<times> client_log list" where
  "quic_client_main env =
     (case ce_setup env of
        Some e \<Rightarrow> (Inl (ClientSetup e), [])
      | None \<Rightarrow>
          (case client_connect NoVerify (ce_handshake env) of
             Inl e \<Rightarrow> (Inl (ClientConnect e), [])
           | Inr _ \<Rightarrow>
               (case ce_open env of
                  Inl e \<Rightarrow> (Inl (ClientOpen e), [ClConnected])
                | Inr send \<Rightarrow>
                    (case send_write_all quic_client_msg send of
                       (Inl e, _) \<Rightarrow> (Inl (ClientWrite e), [ClConnected])
                     | (Inr _, s1) \<Rightarrow>
                         (case send_finish s1 of
                            (Inl e, _) \<Rightarrow> (Inl (ClientFinish e), [ClConnected])
                          | (Inr _, s2) \<Rightarrow>
                              (case read_to_end usize_max (ce_reply env s2) of
                                 Inl e \<Rightarrow> (Inl (ClientRead e), [ClConnected])
                               | Inr resp \<Rightarrow> (Inr (), [ClConnected, ClResponse resp])))))))"


subsection \<open>Facts about the client\<close>

lemma read_to_end_fin:
  "rs_end rs = PeerFin \<Longrightarrow> length (concat (rs_segments rs)) \<le> limit \<Longrightarrow>
   read_to_end limit rs = Inr (concat (rs_segments rs))"
  by (simp add: read_to_end_def)

lemma client_connect_NoVerify:
  "client_connect NoVerify hs =
     (case hs of
        Inl e \<Rightarrow> Inl e
      | Inr h \<Rightarrow> if dss_scheme (sh_sig h) \<in> set (supported_verify_schemes NoVerify) then Inr ()
                else Inl (TransportError (256 + 40)))"
  by (simp add: client_connect_def tls13_handshake_def NoVerify_def split: sum.splits)

lemma quic_client_main_cong:
  "ce_setup e1 = ce_setup e2 \<Longrightarrow> client_connect NoVerify (ce_handshake e1) = client_connect NoVerify (ce_handshake e2) \<Longrightarrow>
   ce_open e1 = ce_open e2 \<Longrightarrow> ce_reply e1 = ce_reply e2 \<Longrightarrow> quic_client_main e1 = quic_client_main e2"
  unfolding quic_client_main_def by (simp only:)

lemma quic_client_main_healthy:
  assumes "ce_setup env = None" and "client_connect NoVerify (ce_handshake env) = Inr ()"
    and "ce_open env = Inr send" and "healthy_send send"
  shows "quic_client_main env =
    (case read_to_end usize_max (ce_reply env (send\<lparr>ss_writes := ss_writes send @ [quic_client_msg], ss_finished := True\<rparr>)) of
       Inl e \<Rightarrow> (Inl (ClientRead e), [ClConnected])
     | Inr resp \<Rightarrow> (Inr (), [ClConnected, ClResponse resp]))"
proof -
  have "quic_client_msg \<noteq> []" by (simp add: quic_client_msg_def bytes_of_def)
  moreover have "\<not> ss_finished send" using assms(4) by (simp add: healthy_send_def)
  ultimately show ?thesis
    using assms by (simp add: quic_client_main_def send_write_all_healthy send_finish_fresh)
qed

subsection \<open>Properties of the client\<close>

text \<open>
  C22. \<open>NoVerify\<close> authenticates nothing: with it the TLS 1.3 handshake succeeds
  for every certificate, every server name and every signature, valid or not,
  as soon as the signature's scheme is one of the three it lists.
\<close>

theorem no_verify_accepts_any:
  "tls13_handshake NoVerify name h = Inr () \<longleftrightarrow> dss_scheme (sh_sig h) \<in> set (supported_verify_schemes NoVerify)"
  by (simp add: tls13_handshake_def NoVerify_def)

text \<open>
  C24. A failed write ends the client with that error: when the peer stops the
  stream before the whole message \<open>hello over QUIC\<close> is accepted, the \<open>?\<close>
  after \<open>write_all\<close> returns the write error from \<open>main\<close>; the client neither
  finishes nor reads, and prints nothing after \<open>connected\<close>.
\<close>

theorem quic_client_write_error:
  assumes "ce_setup env = None" and "client_connect NoVerify (ce_handshake env) = Inr ()"
    and "ce_open env = Inr send" and "ss_writes send = []" and "\<not> ss_finished send"
    and "ss_fail send = Some (k, e)" and "k < length quic_client_msg"
  shows "quic_client_main env = (Inl (ClientWrite e), [ClConnected])"
proof -
  have "send_write_all quic_client_msg send = (Inl e, send\<lparr>ss_writes := [take k quic_client_msg]\<rparr>)"
    using assms(4-7) by (auto simp: send_write_all_def sent_bytes_def Let_def)
  with assms(1-3) show ?thesis by (simp add: quic_client_main_def)
qed

theorem quic_client_write_error_witness:
  "quic_client_main \<lparr>ce_setup = None, ce_handshake = Inr impostor_hello,
     ce_open = Inr \<lparr>ss_writes = [], ss_finished = False, ss_fail = Some (3, WriteStopped 9)\<rparr>,
     ce_reply = (\<lambda>_. \<lparr>rs_segments = [], rs_end = PeerFin\<rparr>)\<rparr> = (Inl (ClientWrite (WriteStopped 9)), [ClConnected])"
  by (rule quic_client_write_error [where send = "\<lparr>ss_writes = [], ss_finished = False, ss_fail = Some (3, WriteStopped 9)\<rparr>"
        and k = 3])
    (simp_all add: client_connect_def tls13_handshake_def impostor_hello_def NoVerify_def quic_client_msg_def
      bytes_of_def)

end
