(* ===== verification/H3Client.thy ===== *)
theory H3Client
  imports QuicClient H3Server
begin

text \<open>
  The HTTP/3 client, \<open>src/bin/clients/h3_quinn_client.rs\<close>: the QUIC setup and
  connection of \<open>QuicClient\<close> (with its own copy of \<open>NoVerify\<close>), the HTTP/3 setup
  \<open>h3::client::new\<close>, one \<open>GET https://localhost/\<close> request, the end of the
  request body, the response headers, then \<open>recv_data\<close> in a loop printing each
  chunk. The server's side of the request stream is what the client receives:
  the frames the server sent, then the error that ends the stream if it stops
  without an end of stream.
\<close>

datatype h3_client_error = H3ClSetup client_setup_error | H3ClConnect conn_error | H3ClH3 h3_error

datatype h3_client_log = ClQuicConnected | ClH3Connected | ClStatus nat | ClChunk bytes

text \<open>The environment: the setup (endpoint, client configuration, \<open>connect\<close>),
  the handshake, \<open>h3::client::new\<close>, the outcome of \<open>send_request\<close> and of the
  request's \<open>finish\<close> together, and what the server sends back for a request.\<close>

record h3_client_env =
  he_setup :: "client_setup_error option"
  he_handshake :: "conn_error + server_hello"
  he_h3 :: "h3_error + unit"
  he_send :: "h3_error option"
  he_reply :: "request_head \<Rightarrow> h3_frame list \<times> h3_error"

text \<open>The client's \<open>NoVerify\<close> (h3_quinn_client.rs lines 74 to 116), declared
  again in this binary with the same four methods.\<close>

definition NoVerify_h3 :: cert_verifier where
  "NoVerify_h3 =
     \<lparr>verify_server_cert = (\<lambda>_ _. Inr ()),
      verify_tls12_signature = (\<lambda>_ _ _. Inr ()),
      verify_tls13_signature = (\<lambda>_ _ _. Inr ()),
      supported_verify_schemes = [RSA_PKCS1_SHA256, ECDSA_NISTP256_SHA256, ED25519]\<rparr>"

definition h3_client_request :: request_head where
  "h3_client_request = \<lparr>rq_method = ''GET'', rq_uri = ''https://localhost/''\<rparr>"

text \<open>\<open>RequestStream::recv_response\<close>: the first frame must be the response
  headers (HTTP/3 error codes H3_FRAME_UNEXPECTED and H3_REQUEST_INCOMPLETE
  otherwise).\<close>

definition recv_response :: "h3_frame list \<times> h3_error \<Rightarrow> h3_error + response_head \<times> h3_frame list" where
  "recv_response rx =
     (case fst rx of
        FHeaders r # rest \<Rightarrow> Inr (r, rest)
      | FData _ # _ \<Rightarrow> Inl (H3ProtocolError 261)
      | FFin # _ \<Rightarrow> Inl (H3ProtocolError 269)
      | [] \<Rightarrow> Inl (snd rx))"

text \<open>The \<open>while let Some(chunk) = request_stream.recv_data().await?\<close> loop: the
  chunks it prints and how it ends; trailing headers end the data.\<close>

fun recv_data_loop :: "h3_frame list \<Rightarrow> h3_error \<Rightarrow> (h3_error + unit) \<times> bytes list" where
  "recv_data_loop [] e = (Inl e, [])"
| "recv_data_loop (FFin # _) e = (Inr (), [])"
| "recv_data_loop (FHeaders _ # _) e = (Inr (), [])"
| "recv_data_loop (FData d # rest) e = (case recv_data_loop rest e of (r, out) \<Rightarrow> (r, d # out))"

definition h3_client_main :: "h3_client_env \<Rightarrow> (h3_client_error + unit) \<times> h3_client_log list" where
  "h3_client_main env =
     (case he_setup env of
        Some e \<Rightarrow> (Inl (H3ClSetup e), [])
      | None \<Rightarrow>
          (case client_connect NoVerify_h3 (he_handshake env) of
             Inl e \<Rightarrow> (Inl (H3ClConnect e), [])
           | Inr _ \<Rightarrow>
               (case he_h3 env of
                  Inl e \<Rightarrow> (Inl (H3ClH3 e), [ClQuicConnected])
                | Inr _ \<Rightarrow>
                    (case he_send env of
                       Some e \<Rightarrow> (Inl (H3ClH3 e), [ClQuicConnected, ClH3Connected])
                     | None \<Rightarrow>
                         (case recv_response (he_reply env h3_client_request) of
                            Inl e \<Rightarrow> (Inl (H3ClH3 e), [ClQuicConnected, ClH3Connected])
                          | Inr (resp, rest) \<Rightarrow>
                              (case recv_data_loop rest (snd (he_reply env h3_client_request)) of
                                 (r, out) \<Rightarrow>
                                   (map_sum H3ClH3 id r,
                                    [ClQuicConnected, ClH3Connected, ClStatus (rp_status resp)] @ map ClChunk out)))))))"

fun is_data :: "h3_frame \<Rightarrow> bool" where
  "is_data (FData _) = True"
| "is_data _ = False"

fun data_of :: "h3_frame \<Rightarrow> bytes" where
  "data_of (FData d) = d"
| "data_of _ = []"

subsection \<open>Facts about the client\<close>

text \<open>The two copies of the verifier are the same verifier.\<close>

lemma NoVerify_h3_eq: "NoVerify_h3 = NoVerify"
  by (simp add: NoVerify_h3_def NoVerify_def)

lemma h3_client_main_cong:
  "he_setup e1 = he_setup e2 \<Longrightarrow>
   client_connect NoVerify_h3 (he_handshake e1) = client_connect NoVerify_h3 (he_handshake e2) \<Longrightarrow>
   he_h3 e1 = he_h3 e2 \<Longrightarrow> he_send e1 = he_send e2 \<Longrightarrow> he_reply e1 = he_reply e2 \<Longrightarrow>
   h3_client_main e1 = h3_client_main e2"
  unfolding h3_client_main_def by (simp only:)

lemma h3_client_main_healthy:
  assumes "he_setup env = None" and "client_connect NoVerify (he_handshake env) = Inr ()"
    and "he_h3 env = Inr ()" and "he_send env = None"
  shows "h3_client_main env =
    (case recv_response (he_reply env h3_client_request) of
       Inl e \<Rightarrow> (Inl (H3ClH3 e), [ClQuicConnected, ClH3Connected])
     | Inr (resp, rest) \<Rightarrow>
         (map_sum H3ClH3 id (fst (recv_data_loop rest (snd (he_reply env h3_client_request)))),
          [ClQuicConnected, ClH3Connected, ClStatus (rp_status resp)] @
            map ClChunk (snd (recv_data_loop rest (snd (he_reply env h3_client_request))))))"
  using assms by (simp add: h3_client_main_def NoVerify_h3_eq split: sum.splits prod.splits)

subsection \<open>Properties of the client\<close>

text \<open>The data loop against a reference: the leading data frames, in order, and
  how the loop ends.\<close>

lemma recv_data_loop_spec:
  "recv_data_loop fs e =
     (if dropWhile is_data fs = [] then Inl e else Inr (), map data_of (takeWhile is_data fs))"
  by (induction fs e rule: recv_data_loop.induct) auto


text \<open>
  C23. Neither client can tell an impostor from the server: whatever certificate
  the peer presents and whether its signature verifies, the run of the QUIC
  client and the run of the HTTP/3 client, their results and what they print,
  are the same.
\<close>

theorem clients_ignore_certificate:
  "quic_client_main (env\<lparr>ce_handshake := Inr (h\<lparr>sh_cert := c, sh_sig := sh_sig h\<lparr>dss_valid := b\<rparr>\<rparr>)\<rparr>) =
     quic_client_main (env\<lparr>ce_handshake := Inr h\<rparr>) \<and>
   h3_client_main (env3\<lparr>he_handshake := Inr (h\<lparr>sh_cert := c, sh_sig := sh_sig h\<lparr>dss_valid := b\<rparr>\<rparr>)\<rparr>) =
     h3_client_main (env3\<lparr>he_handshake := Inr h\<rparr>)"
proof
  show "quic_client_main (env\<lparr>ce_handshake := Inr (h\<lparr>sh_cert := c, sh_sig := sh_sig h\<lparr>dss_valid := b\<rparr>\<rparr>)\<rparr>) =
      quic_client_main (env\<lparr>ce_handshake := Inr h\<rparr>)"
    by (rule quic_client_main_cong) (simp_all add: client_connect_NoVerify)
  show "h3_client_main (env3\<lparr>he_handshake := Inr (h\<lparr>sh_cert := c, sh_sig := sh_sig h\<lparr>dss_valid := b\<rparr>\<rparr>)\<rparr>) =
      h3_client_main (env3\<lparr>he_handshake := Inr h\<rparr>)"
    by (rule h3_client_main_cong) (simp_all add: NoVerify_h3_eq client_connect_NoVerify)
qed


text \<open>
  C25. A response round trip for any number of body chunks (spec section 8, the
  request/response property for N = 0, 1, 100): when the server's side of the
  request stream carries the response headers, then N data frames, then the end
  of the stream, the client prints the declared status and exactly the N chunks
  in order, and returns \<open>Ok\<close>.
\<close>

theorem h3_client_response_roundtrip:
  assumes "he_setup env = None" and "client_connect NoVerify (he_handshake env) = Inr ()"
    and "he_h3 env = Inr ()" and "he_send env = None"
    and "he_reply env h3_client_request = (FHeaders r # map FData ds @ FFin # rest, e)"
  shows "h3_client_main env = (Inr (), [ClQuicConnected, ClH3Connected, ClStatus (rp_status r)] @ map ClChunk ds)"
proof -
  have "dropWhile is_data (map FData ds @ FFin # rest) = FFin # rest" "takeWhile is_data (map FData ds @ FFin # rest) = map FData ds"
    by (induction ds) simp_all
  then have "recv_data_loop (map FData ds @ FFin # rest) e = (Inr (), ds)"
    by (simp add: recv_data_loop_spec comp_def)
  with h3_client_main_healthy [OF assms(1-4)] assms(5) show ?thesis
    by (simp add: recv_response_def)
qed

theorem h3_client_response_roundtrip_witness:
  "h3_client_main \<lparr>he_setup = None, he_handshake = Inr impostor_hello, he_h3 = Inr (), he_send = None,
     he_reply = (\<lambda>_. (FHeaders \<lparr>rp_status = 200\<rparr> # map FData (replicate 100 hello_body) @ [FFin], H3StreamReset 0))\<rparr> =
   (Inr (), [ClQuicConnected, ClH3Connected, ClStatus 200] @ map ClChunk (replicate 100 hello_body))"
proof -
  have "h3_client_main \<lparr>he_setup = None, he_handshake = Inr impostor_hello, he_h3 = Inr (), he_send = None,
     he_reply = (\<lambda>_. (FHeaders \<lparr>rp_status = 200\<rparr> # map FData (replicate 100 hello_body) @ [FFin], H3StreamReset 0))\<rparr> =
   (Inr (), [ClQuicConnected, ClH3Connected, ClStatus (rp_status \<lparr>rp_status = 200\<rparr>)] @ map ClChunk (replicate 100 hello_body))"
    by (rule h3_client_response_roundtrip [where rest = "[]" and e = "H3StreamReset 0"])
      (simp_all add: client_connect_def tls13_handshake_def impostor_hello_def NoVerify_def)
  then show ?thesis by simp
qed

end
