(* ===== verification/Http2Server.thy ===== *)
theory Http2Server
  imports Runtime
begin

text \<open>
  The HTTP/2 server, \<open>src/bin/servers/http2_server.rs\<close>, over plain TCP with
  hyper. \<open>main\<close> binds with \<open>unwrap\<close>, then loops forever on
  \<open>listener.accept().await.unwrap()\<close>, spawning one connection task per socket;
  the connection task serves the connection with \<open>service_fn(handle)\<close> in
  HTTP/2-only mode with \<open>TokioExecutor\<close>, through which hyper spawns one task per
  request stream. It runs on the runtime shape of theory \<open>Runtime\<close>, except for
  its accept loop: an accept error panics (\<open>unwrap\<close>) and ends the process, and
  with no attempt pending the loop waits (the listener cannot step) instead of
  returning. A socket is modelled by the requests the peer sends on it and how
  \<open>serve_connection\<close> ends.
\<close>

datatype io_error = IoError nat

datatype hyper_error = HyperError nat

record h2_request =
  h2_method :: string
  h2_path :: string

record h2_response =
  h2_status :: nat
  h2_body :: bytes

record h2_socket =
  so_requests :: "h2_request list"
  so_end :: "hyper_error option"

type_synonym h2_incoming = "io_error + h2_socket"

text \<open>The \<open>print!\<close> / \<open>eprintln!\<close> lines and the panic of \<open>unwrap\<close>.\<close>

datatype h2_log = H2Listening | H2Accepted | H2ConnError hyper_error | H2Panic io_error

text \<open>\<open>handle\<close>: every request gets \<open>Response::new(Body::from(..))\<close>, status 200;
  its error type \<open>Infallible\<close> has no values, so it is a total function.\<close>

definition handle :: "h2_request \<Rightarrow> h2_response" where
  "handle _ = \<lparr>h2_status = 200, h2_body = bytes_of ''hello from hyper http/2 (no TLS)''\<rparr>"

datatype h2_task = H2Conn h2_socket | H2ConnDone | H2Stream h2_request | H2StreamDone h2_response

text \<open>\<open>TokioExecutor::execute\<close>: \<open>tokio::spawn(fut)\<close>, the task handed to the
  runtime.\<close>

definition tokio_executor_execute :: "h2_task \<Rightarrow> h2_task list" where
  "tokio_executor_execute fut = [fut]"

fun h2_task_step :: "(h2_task, h2_log) task_stepper" where
  "h2_task_step (H2Conn so) =
     (case so_requests so of
        r # rs \<Rightarrow> Some (H2Conn (so\<lparr>so_requests := rs\<rparr>), tokio_executor_execute (H2Stream r), [])
      | [] \<Rightarrow> Some (H2ConnDone, [], case so_end so of None \<Rightarrow> [] | Some e \<Rightarrow> [H2ConnError e]))"
| "h2_task_step H2ConnDone = None"
| "h2_task_step (H2Stream r) = Some (H2StreamDone (handle r), [], [])"
| "h2_task_step (H2StreamDone _) = None"

type_synonym h2_server = "(h2_incoming, h2_task, h2_log) runtime"

text \<open>\<open>TcpListener::bind(..).await.unwrap()\<close> and the banner.\<close>

definition http2_main_init :: "io_error + unit \<Rightarrow> h2_incoming list \<Rightarrow> h2_server" where
  "http2_main_init bind xs =
     (case bind of
        Inl e \<Rightarrow> \<lparr>rt_running = False, rt_incoming = xs, rt_tasks = [], rt_log = [H2Panic e]\<rparr>
      | Inr _ \<Rightarrow> rt_init H2Listening xs)"

definition h2_listener :: "h2_server \<Rightarrow> h2_server option" where
  "h2_listener s =
     (if \<not> rt_running s then None
      else case rt_incoming s of
        [] \<Rightarrow> None
      | Inl e # xs \<Rightarrow> Some (s\<lparr>rt_running := False, rt_incoming := xs, rt_log := rt_log s @ [H2Panic e]\<rparr>)
      | Inr so # xs \<Rightarrow>
          Some (s\<lparr>rt_incoming := xs, rt_tasks := rt_tasks s @ [H2Conn so], rt_log := rt_log s @ [H2Accepted]\<rparr>))"

fun h2_step :: "sched \<Rightarrow> h2_server \<Rightarrow> h2_server option" where
  "h2_step RunListener s = h2_listener s"
| "h2_step (RunTask i) s = rt_run_task h2_task_step i s"

definition h2_reach :: "h2_server \<Rightarrow> h2_server \<Rightarrow> bool" where
  "h2_reach = (\<lambda>s s'. \<exists>c. h2_step c s = Some s')\<^sup>*\<^sup>*"

fun h2_run :: "sched list \<Rightarrow> h2_server \<Rightarrow> h2_server option" where
  "h2_run [] s = Some s"
| "h2_run (c # cs) s = (case h2_step c s of None \<Rightarrow> None | Some s' \<Rightarrow> h2_run cs s')"

fun h2_task_inv :: "h2_incoming list \<Rightarrow> h2_task \<Rightarrow> bool" where
  "h2_task_inv xs (H2Conn so) = (\<exists>so0. Inr so0 \<in> set xs \<and> set (so_requests so) \<subseteq> set (so_requests so0))"
| "h2_task_inv xs H2ConnDone = True"
| "h2_task_inv xs (H2Stream r) = (\<exists>so0. Inr so0 \<in> set xs \<and> r \<in> set (so_requests so0))"
| "h2_task_inv xs (H2StreamDone resp) = (\<exists>so0 r. Inr so0 \<in> set xs \<and> r \<in> set (so_requests so0) \<and> resp = handle r)"

definition demo_h2 :: "h2_incoming list" where
  "demo_h2 =
     [Inr \<lparr>so_requests = [\<lparr>h2_method = ''GET'', h2_path = ''/''\<rparr>, \<lparr>h2_method = ''GET'', h2_path = ''/a''\<rparr>], so_end = None\<rparr>,
      Inl (IoError 24),
      Inr \<lparr>so_requests = [\<lparr>h2_method = ''GET'', h2_path = ''/''\<rparr>], so_end = None\<rparr>]"

lemmas h2_eval = demo_h2_def http2_main_init_def rt_eval h2_listener_def tokio_executor_execute_def handle_def

text \<open>A task run alone for at most \<open>n\<close> steps: where it ends, the tasks it
  handed to the executor on the way, and what it printed.\<close>

fun h2_drive :: "nat \<Rightarrow> h2_task \<Rightarrow> h2_task \<times> h2_task list \<times> h2_log list" where
  "h2_drive 0 t = (t, [], [])"
| "h2_drive (Suc n) t =
     (case h2_task_step t of
        None \<Rightarrow> (t, [], [])
      | Some (t', new, logs) \<Rightarrow> (case h2_drive n t' of (t'', new', logs') \<Rightarrow> (t'', new @ new', logs @ logs')))"

subsection \<open>Facts about the server\<close>

lemma h2_stopped: "\<not> rt_running s \<Longrightarrow> h2_step c s = None"
  by (cases c) (simp_all add: h2_listener_def rt_run_task_def)

lemma h2_reach_stopped:
  assumes "h2_reach s s'" and "\<not> rt_running s"
  shows "s' = s"
  using assms unfolding h2_reach_def
  by (induction rule: converse_rtranclp_induct) (auto simp: h2_stopped)

lemma h2_run_reach: "h2_run cs s = Some s' \<Longrightarrow> h2_reach s s'"
proof (induction cs arbitrary: s)
  case Nil
  then show ?case by (simp add: h2_reach_def)
next
  case (Cons c cs)
  then obtain s1 where "h2_step c s = Some s1" "h2_run cs s1 = Some s'"
    by (auto split: option.splits)
  with Cons.IH show ?case
    by (auto simp: h2_reach_def intro: converse_rtranclp_into_rtranclp)
qed

lemma h2_task_step_inv:
  assumes "h2_task_inv xs t" and "h2_task_step t = Some (t', new, logs)"
  shows "h2_task_inv xs t' \<and> (\<forall>n \<in> set new. h2_task_inv xs n)"
  using assms
  by (cases t) (fastforce simp: tokio_executor_execute_def split: list.splits)+

lemma h2_reach_inv:
  assumes "h2_reach (http2_main_init b xs) s"
  shows "\<forall>t \<in> set (rt_tasks s). h2_task_inv xs t"
proof -
  have "set (rt_incoming s) \<subseteq> set xs \<and> (\<forall>t \<in> set (rt_tasks s). h2_task_inv xs t)"
    using assms unfolding h2_reach_def
  proof (induction rule: rtranclp_induct)
    case base
    then show ?case by (simp add: http2_main_init_def rt_init_def split: sum.splits)
  next
    case (step s1 s2)
    then obtain c where c: "h2_step c s1 = Some s2" by blast
    show ?case
    proof (cases c)
      case RunListener
      with c step.IH show ?thesis
        by (fastforce simp: h2_listener_def split: if_splits list.splits sum.splits)
    next
      case (RunTask i)
      with c obtain t' new logs where i: "i < length (rt_tasks s1)"
        and st: "h2_task_step (rt_tasks s1 ! i) = Some (t', new, logs)"
        and s2: "s2 = s1\<lparr>rt_tasks := (rt_tasks s1)[i := t'] @ new, rt_log := rt_log s1 @ logs\<rparr>"
        by (auto elim: rt_run_task_Some)
      have "h2_task_inv xs (rt_tasks s1 ! i)" using step.IH i by simp
      from h2_task_step_inv [OF this st] have "h2_task_inv xs t'" "\<forall>n \<in> set new. h2_task_inv xs n" by auto
      with step.IH s2 set_update_subset_insert [of "rt_tasks s1" i t'] show ?thesis by auto
    qed
  qed
  then show ?thesis by blast
qed


subsection \<open>Properties of the HTTP/2 server\<close>

text \<open>
  C29. An accept error ends the HTTP/2 server (spec sections 4.1 and 7 require
  the listener to keep accepting whatever failed): \<open>accept().await.unwrap()\<close>
  panics, the process stops, and from then on no task runs and no later
  connection is ever accepted or served.
\<close>

theorem h2_accept_error_panics:
  assumes "rt_running s" and "rt_incoming s = Inl e # xs"
  shows "\<exists>s'. h2_step RunListener s = Some s' \<and> H2Panic e \<in> set (rt_log s') \<and> rt_incoming s' = xs \<and>
     (\<forall>s''. h2_reach s' s'' \<longrightarrow> s'' = s')"
proof -
  let ?s' = "s\<lparr>rt_running := False, rt_incoming := xs, rt_log := rt_log s @ [H2Panic e]\<rparr>"
  have "h2_step RunListener s = Some ?s'" using assms by (simp add: h2_listener_def)
  moreover have "\<forall>s''. h2_reach ?s' s'' \<longrightarrow> s'' = ?s'" using h2_reach_stopped [of ?s'] by simp
  ultimately show ?thesis by auto
qed

theorem h2_accept_error_panics_witness:
  "\<exists>s'. h2_step RunListener (http2_main_init (Inr ()) (tl demo_h2)) = Some s' \<and>
     H2Panic (IoError 24) \<in> set (rt_log s') \<and> rt_incoming s' = tl (tl demo_h2) \<and>
     (\<forall>s''. h2_reach s' s'' \<longrightarrow> s'' = s')"
  by (rule h2_accept_error_panics) (simp_all add: h2_eval)

text \<open>
  Every HTTP/2 response is \<open>handle\<close>'s: in every reachable state, every finished
  stream task holds the response of \<open>handle\<close> to a request some accepted socket
  sent.
\<close>

lemma h2_responses:
  assumes "h2_reach (http2_main_init b xs) s" and "H2StreamDone resp \<in> set (rt_tasks s)"
  shows "\<exists>so r. Inr so \<in> set xs \<and> r \<in> set (so_requests so) \<and> resp = handle r \<and>
     h2_status resp = 200 \<and> h2_body resp = bytes_of ''hello from hyper http/2 (no TLS)''"
  using h2_reach_inv [OF assms(1)] assms(2) by (fastforce simp: handle_def)

text \<open>
  The accept error of one attempt abandons every later one (the scenario of
  C29 with traffic): a first socket with two requests is served in full, both
  through the executor's stream tasks; the accept error of the second attempt
  panics; the third socket is never accepted, and nothing runs again.
\<close>

lemma h2_later_connections_abandoned:
  "case h2_run [RunListener, RunTask 0, RunTask 0, RunTask 0, RunTask 1, RunTask 2, RunListener]
          (http2_main_init (Inr ()) demo_h2) of
     None \<Rightarrow> False
   | Some s \<Rightarrow> rt_tasks s = [H2ConnDone, H2StreamDone (handle \<lparr>h2_method = ''GET'', h2_path = ''/''\<rparr>),
                              H2StreamDone (handle \<lparr>h2_method = ''GET'', h2_path = ''/a''\<rparr>)] \<and>
       rt_log s = [H2Listening, H2Accepted, H2Panic (IoError 24)] \<and>
       rt_incoming s = [last demo_h2] \<and> (\<forall>c. h2_step c s = None)"
  by (simp add: h2_eval h2_stopped del: handle_def)


text \<open>
  C30. The HTTP/2 connection task serves every request: run alone on a socket,
  \<open>serve_connection\<close> hands each request the peer sends to \<open>TokioExecutor\<close>, one
  stream task each and in order, then ends, reporting the connection's error
  when it failed; each stream task then answers with \<open>handle\<close>.
\<close>

theorem h2_connection_serves_all:
  "h2_drive (Suc (length (so_requests so))) (H2Conn so) =
     (H2ConnDone, map H2Stream (so_requests so), case so_end so of None \<Rightarrow> [] | Some e \<Rightarrow> [H2ConnError e])"
proof (induction "so_requests so" arbitrary: so)
  case Nil
  then show ?case by (simp split: option.splits)
next
  case (Cons r rs)
  have "h2_drive (Suc (length (so_requests (so\<lparr>so_requests := rs\<rparr>)))) (H2Conn (so\<lparr>so_requests := rs\<rparr>)) =
      (H2ConnDone, map H2Stream rs, case so_end so of None \<Rightarrow> [] | Some e \<Rightarrow> [H2ConnError e])"
    using Cons.hyps(1) [of "so\<lparr>so_requests := rs\<rparr>"] by simp
  with Cons.hyps(2) [symmetric] show ?case by (simp add: tokio_executor_execute_def)
qed

end
