(* ===== verification/Spec2Isabelle.thy ===== *)
theory Spec2Isabelle
  imports ServerConfig H3Client Http2Server
begin

text \<open>
  A verification development for the QUIC, HTTP/3 and HTTP/2 playground servers
  and clients of this repository (\<open>src/src/bin/servers\<close>, \<open>src/src/bin/clients\<close>).

  \<^bold>\<open>The program.\<close> Five binaries, each a \<open>main\<close> on the tokio runtime.
  \<open>quic_server.rs\<close> builds a self-signed TLS configuration
  (\<open>make_server_config\<close>), binds a QUIC endpoint, spawns one task per incoming
  connection (the task awaits the handshake, then accepts bidirectional streams
  in a loop) and one task per stream, which runs \<open>echo_stream\<close>: read into a
  4096-byte buffer, write back what was read, finish the send half at the peer's
  FIN. \<open>h3_quinn_server.rs\<close> has the same setup and listener; its connection
  task also awaits the HTTP/3 setup, then spawns one task per request, which runs
  \<open>handle_request\<close>. \<open>http2_server.rs\<close> serves HTTP/2 over TCP with hyper, the
  request streams spawned through \<open>TokioExecutor\<close>. \<open>quic_client.rs\<close> and
  \<open>h3_quinn_client.rs\<close> connect with the verifier \<open>NoVerify\<close>, send one
  message or one request and print the reply. quinn, rustls, rcgen, h3, hyper
  and tokio are external: their operations are modelled as data the peer or the
  environment supplies, so that a theorem over all values of that data covers
  every peer.

  \<^bold>\<open>Layout.\<close>
  \<^item> \<open>Prelude\<close>: bytes as \<open>8 word\<close>, Rust's slice \<open>&xs[..n]\<close> with its panic
    (\<open>slice_to\<close>), the chunking of a segment by a bounded buffer (\<open>chunks\<close>),
    the backlog measure, sums over updated lists, the shared rule collections.
  \<^item> \<open>Transport\<close>: the quinn interface: \<open>recv_read\<close> (\<open>RecvStream::read\<close>),
    \<open>send_write_all\<close>, \<open>send_finish\<close> (one-shot), \<open>accept_bi\<close>; a stream half
    is the segments the peer sends and how it ends, or the writes made and the
    point after which writing fails.
  \<^item> \<open>Tls\<close>: certificates, signatures, \<open>ServerCertVerifier\<close> as a record of its
    four methods, the client side of the TLS 1.3 handshake, and a webpki
    verifier for contrast.
  \<^item> \<open>Echo\<close>: \<open>echo_stream\<close> (quic_server.rs 87-109) as \<open>echo_loop\<close>, a
    \<open>partial_function (option)\<close> over buffer and both halves, then \<open>finish\<close>;
    the slice \<open>&buf[..n]\<close> is written with its panic (\<open>EchoPanic\<close>);
    \<open>echo_ref\<close> is the reference behaviour without a buffer (C1-C7).
  \<^item> \<open>EchoTask\<close>: the stream task between its awaits as a small-step machine,
    its simulation of \<open>echo_stream\<close> and its termination (C8, C9), and its
    well-formedness \<open>echo_task_wf\<close> (the \<open>[u8; 4096]\<close> buffer, a pending write
    within it, no panic), preserved by every step.
  \<^item> \<open>Runtime\<close>: the tokio shape every server shares: a record of the
    endpoint's pending attempts, the spawned tasks and the log; the accept loop
    \<open>rt_listener\<close>; a scheduler step \<open>rt_step\<close> that runs the listener or any one
    task; reachability under every schedule (C10); lemmas on the isolation of a
    step, the append-only log, and a conservation law of spawned work.
  \<^item> \<open>QuicServer\<close>: the connection task (quic_server.rs 28-57), the stream task
    that wraps \<open>EchoTask\<close>, the instance of \<open>Runtime\<close>, and the invariant that
    every stream task computes \<open>echo_stream\<close> of a stream a peer opened and is
    well formed (C11-C13, C31); the accounting of tasks against the peers'
    attempts and streams (C14).
  \<^item> \<open>H3Server\<close>: the h3 interface as data, \<open>handle_request\<close>
    (h3_quinn_server.rs 68-92), the request task split at its four awaits, the
    connection task with its two handshakes and accept loop, the instance of
    \<open>Runtime\<close> and its invariant (C15-C21). A stream whose peer
    sent STOP_SENDING (\<open>H3StreamStopped\<close>) fails every later frame, while its
    \<open>finish\<close> still succeeds, as quinn 0.11's \<open>SendStream::finish\<close> does; a
    reset or a lost connection fails \<open>finish\<close> too.
  \<^item> \<open>ServerConfig\<close>: \<open>make_server_config\<close>, its copy in the HTTP/3 server
    (\<open>make_server_config_h3\<close>, proved equal), and the setup of both QUIC mains.
  \<^item> \<open>QuicClient\<close>, \<open>H3Client\<close>: \<open>NoVerify\<close> and its copy in the HTTP/3 client
    (\<open>NoVerify_h3\<close>, proved equal), \<open>read_to_end\<close>, the two client mains over an
    environment of the network and the server, the response round trip for any
    number of chunks, and the error of a failed write (C22-C25).
  \<^item> \<open>Http2Server\<close>: \<open>main\<close> with its panicking accept loop, the connection task,
    \<open>TokioExecutor\<close>, \<open>handle\<close>; the panic of the accept loop and the
    service of every request of a connection, run alone by \<open>h2_drive\<close> (C29, C30).
  \<^item> This theory: the wire between client and server and the end-to-end
    exchanges (C26-C28); a lemma that the servers' self-signed certificate is
    accepted by \<open>NoVerify\<close> and refused by a webpki verifier.

  \<^bold>\<open>What the theorems show.\<close> The echo loop always returns and equals the
  reference; it sends back exactly the peer's bytes, each write at most 4096 bytes,
  and finishes exactly on \<open>Ok\<close>; every error path returns its error; the
  HTTP/3 handler replies in full exactly when the stream has room, and the QUIC
  client returns the error of a failed write. The step-wise
  tasks refine the handlers and terminate. Under every interleaving of listener
  and tasks, each finished stream or request task holds the handler's result on
  data some peer sent; every task can still be driven to its end; the log only
  grows; a failed handshake, setup or stream is contained; every stream task is
  well formed, so the slice of the echo never panics; the server holds one task
  per attempt and per stream the peers opened, never more. The clients print
  exactly what the servers send; they cannot distinguish an impostor, and they
  need \<open>NoVerify\<close> to accept the servers' self-signed certificate. The HTTP/2
  connection task hands every request of its socket to the executor, in order.

  \<^bold>\<open>Bounds and fuel.\<close> The echo loop needs no fuel: it is a partial function whose
  every result is proved to be \<open>Some\<close>, because each read into the non-empty
  4096-byte buffer shrinks the backlog (pending segments plus pending bytes) of the
  peer's finite data. The echo task runner takes fuel \<open>Suc (echo_measure t)\<close>,
  twice the backlog plus one, proved enough because every step lowers the measure.
  The request task ends within four steps (\<open>req_rank\<close>). \<open>read_to_end\<close> is bounded
  by \<open>usize::MAX\<close> = 2^64 - 1. The echo loop writes \<open>&buf[..n]\<close> as \<open>slice_to\<close>,
  whose panic branch is dead because a read never returns more than the buffer
  holds (C31).

  \<^bold>\<open>Findings.\<close> \<open>handle_request\<close> returns a send error before \<open>finish\<close>
  (C16, C28), against spec section 4.4: on a stopped stream a \<open>finish\<close> would
  still succeed. The HTTP/2 accept loop panics on an accept error and abandons
  every later connection (C29), against sections 4.1 and 7. Shutdown abandons
  accepted streams (lemma \<open>quic_shutdown_abandons_streams\<close>). The response
  build's \<open>?\<close> is dead (lemma \<open>handle_request_no_http_error\<close>). \<open>NoVerify\<close>
  accepts any server (C22, C23).

  \<^bold>\<open>Not modelled.\<close> The internals of the external libraries (packets, TLS
  cryptography, QPACK and frame codecs, hyper's HTTP/2 state machine), which enter
  only through the outcomes they deliver; the text of printed lines, kept as log
  values (the bytes a client prints are the bytes it received, before
  \<open>from_utf8_lossy\<close>); the unused TLS 1.2 method of \<open>NoVerify\<close> beyond its value
  (QUIC requires TLS 1.3); the no-op assignment of the default transport
  configuration.
\<close>


section \<open>The clients against the servers\<close>

text \<open>The wire between a client and a server: the peer reads what one side wrote,
  then the FIN if that side finished, else a reset.\<close>

definition quic_wire :: "send_stream \<Rightarrow> recv_stream" where
  "quic_wire ss = \<lparr>rs_segments = ss_writes ss, rs_end = (if ss_finished ss then PeerFin else PeerAbort (ReadReset 0))\<rparr>"

definition echo_server_reply :: "send_stream \<Rightarrow> recv_stream" where
  "echo_server_reply s =
     (case echo_stream fresh_send (quic_wire s) of Some (_, ss, _) \<Rightarrow> quic_wire ss | None \<Rightarrow> quic_wire fresh_send)"

definition h3_server_reply :: "h3_stream \<Rightarrow> request_head \<Rightarrow> h3_frame list \<times> h3_error" where
  "h3_server_reply st req =
     (case handle_request (Inr (req, st)) of
        (Inl (ReqSend e), Some st', _) \<Rightarrow> (hs_frames st', e)
      | (_, Some st', _) \<Rightarrow> (hs_frames st', H3StreamReset 0)
      | (_, None, _) \<Rightarrow> ([], H3StreamReset 0))"

subsection \<open>End-to-end properties\<close>

lemma echo_server_reply_healthy:
  assumes "ss_finished s"
  shows "echo_server_reply s = \<lparr>rs_segments = concat (map (chunks echo_buf_size) (ss_writes s)), rs_end = PeerFin\<rparr>"
proof -
  have h: "healthy_send fresh_send" by (simp add: healthy_send_def fresh_send_def)
  obtain recv' where "echo_stream fresh_send (quic_wire s) = Some (Inr (),
      fresh_send\<lparr>ss_writes := concat (map (chunks echo_buf_size) (ss_writes s)), ss_finished := True\<rparr>, recv')"
    using echo_stream_healthy [OF h, of "quic_wire s"] assms
    by (auto simp: quic_wire_def read_chunks_def fresh_send_def)
  then show ?thesis by (simp add: echo_server_reply_def quic_wire_def fresh_send_def)
qed

text \<open>
  C26. The QUIC exchange end to end (spec section 8): the client of
  \<open>quic_client.rs\<close> against the echo server of \<open>quic_server.rs\<close>, over a
  wire that delivers what one side wrote and whether it finished, returns
  \<open>Ok\<close> and prints exactly \<open>hello over QUIC\<close>, whatever certificate the
  server presents.
\<close>

theorem quic_end_to_end:
  assumes "ce_setup env = None" and "ce_handshake env = Inr h"
    and "dss_scheme (sh_sig h) \<in> set (supported_verify_schemes NoVerify)"
    and "ce_open env = Inr fresh_send" and "ce_reply env = echo_server_reply"
  shows "quic_client_main env = (Inr (), [ClConnected, ClResponse quic_client_msg])"
proof -
  have c: "client_connect NoVerify (ce_handshake env) = Inr ()"
    using assms(2,3) by (simp add: client_connect_NoVerify)
  have h: "healthy_send fresh_send" by (simp add: healthy_send_def fresh_send_def)
  have len: "length quic_client_msg \<le> echo_buf_size" "length quic_client_msg \<le> usize_max"
    by (simp_all add: quic_client_msg_def bytes_of_def echo_buf_size_def usize_max_def)
  have ne: "quic_client_msg \<noteq> []" by (simp add: quic_client_msg_def bytes_of_def)
  show ?thesis
    using quic_client_main_healthy [OF assms(1) c assms(4) h] assms(5) len ne
    by (simp add: echo_server_reply_healthy fresh_send_def chunks_short read_to_end_def)
qed

text \<open>
  C27. The HTTP/3 exchange end to end: the client of
  \<open>h3_quinn_client.rs\<close> against \<open>handle_request\<close> of \<open>h3_quinn_server.rs\<close>
  on a healthy request stream prints the status 200 and exactly the body
  \<open>Hello from HTTP/3\<close>, and returns \<open>Ok\<close>.
\<close>

theorem h3_end_to_end:
  assumes "he_setup env = None" and "he_handshake env = Inr h"
    and "dss_scheme (sh_sig h) \<in> set (supported_verify_schemes NoVerify)"
    and "he_h3 env = Inr ()" and "he_send env = None"
    and "he_reply env = h3_server_reply \<lparr>hs_frames = [], hs_fail = None\<rparr>"
  shows "h3_client_main env = (Inr (), [ClQuicConnected, ClH3Connected, ClStatus 200, ClChunk hello_body])"
proof -
  have c: "client_connect NoVerify (he_handshake env) = Inr ()"
    using assms(2,3) by (simp add: client_connect_NoVerify)
  have r: "h3_reply_room \<lparr>hs_frames = [], hs_fail = None\<rparr>" by (simp add: h3_reply_room_def)
  show ?thesis
    using h3_client_main_healthy [OF assms(1) c assms(4,5)] assms(6) handle_request_room [OF r]
    by (simp add: h3_server_reply_def h3_reply_def recv_response_def)
qed

text \<open>
  C28. A request stream that fails after the headers, end to end: the
  server's \<open>handle_request\<close> returns the error without finishing the stream,
  and the client prints the status 200, no body, and returns the stream's error
  (the consequence, seen from the client, of the missing finish of C16), also
  when the failure is a stop after which \<open>finish\<close> would succeed.
\<close>

theorem h3_end_to_end_reset:
  assumes "he_setup env = None" and "he_handshake env = Inr h"
    and "dss_scheme (sh_sig h) \<in> set (supported_verify_schemes NoVerify)"
    and "he_h3 env = Inr ()" and "he_send env = None"
    and "he_reply env = h3_server_reply \<lparr>hs_frames = [], hs_fail = Some (1, e)\<rparr>"
  shows "h3_client_main env = (Inl (H3ClH3 e), [ClQuicConnected, ClH3Connected, ClStatus 200])"
proof -
  have c: "client_connect NoVerify (he_handshake env) = Inr ()"
    using assms(2,3) by (simp add: client_connect_NoVerify)
  have f: "hs_fail \<lparr>hs_frames = [], hs_fail = Some (1, e)\<rparr> = Some (1, e)"
    "1 < length (hs_frames \<lparr>hs_frames = [], hs_fail = Some (1::nat, e)\<rparr>) + h3_need e"
    by (simp_all add: h3_need_def)
  show ?thesis
    using h3_client_main_healthy [OF assms(1) c assms(4,5)] assms(6) handle_request_fail [OF f]
    by (simp add: h3_server_reply_def h3_reply_def recv_response_def)
qed

theorem quic_end_to_end_witness:
  "quic_client_main \<lparr>ce_setup = None, ce_handshake = Inr impostor_hello, ce_open = Inr fresh_send,
     ce_reply = echo_server_reply\<rparr> = (Inr (), [ClConnected, ClResponse quic_client_msg])"
  by (rule quic_end_to_end [where h = impostor_hello]) (simp_all add: impostor_hello_def NoVerify_def)

theorem h3_end_to_end_witness:
  "h3_client_main \<lparr>he_setup = None, he_handshake = Inr impostor_hello, he_h3 = Inr (), he_send = None,
     he_reply = h3_server_reply \<lparr>hs_frames = [], hs_fail = None\<rparr>\<rparr> =
   (Inr (), [ClQuicConnected, ClH3Connected, ClStatus 200, ClChunk hello_body])"
  by (rule h3_end_to_end [where h = impostor_hello]) (simp_all add: impostor_hello_def NoVerify_def)

theorem h3_end_to_end_reset_witness:
  "h3_client_main \<lparr>he_setup = None, he_handshake = Inr impostor_hello, he_h3 = Inr (), he_send = None,
     he_reply = h3_server_reply \<lparr>hs_frames = [], hs_fail = Some (1, H3StreamStopped 7)\<rparr>\<rparr> =
   (Inl (H3ClH3 (H3StreamStopped 7)), [ClQuicConnected, ClH3Connected, ClStatus 200])"
  by (rule h3_end_to_end_reset [where h = impostor_hello]) (simp_all add: impostor_hello_def NoVerify_def)


subsection \<open>The servers' certificate and the clients' verifier\<close>

text \<open>
  The clients reach the servers only because they verify nothing: the
  certificate either server's \<open>make_server_config\<close> generates is self-signed, so a client with
  the webpki verifier aborts every handshake with the servers of the repository
  (alert bad_certificate), while \<open>NoVerify\<close> completes it.
\<close>

lemma self_signed_needs_no_verify:
  assumes "make_server_config env = Inr sc \<or> make_server_config_h3 env = Inr sc"
  shows "tls13_handshake webpki_verifier ''localhost'' (server_hello_of sc t) = Inl (TransportError (256 + 42)) \<and>
         tls13_handshake NoVerify ''localhost'' (server_hello_of sc t) = Inr ()"
proof -
  have "make_server_config env = Inr sc" using assms by (auto simp: make_server_config_h3_eq)
  from make_server_config_Inr [OF this] show ?thesis
    by (simp add: tls13_handshake_def webpki_verifier_def NoVerify_def server_hello_of_def)
qed

end
